(* ===== verification/Prelude.thy ===== *)
theory Prelude
  imports Main "HOL-Library.Word"
begin

text \<open>
  Shared vocabulary of the development: the names of the Go integer types, byte strings,
  the error values of the program with \<open>errors.Is\<close> and \<open>Error()\<close>, results of fallible
  calls, and the generic lemmas on lists, words and results the component theories use.

  A Go \<open>string\<close> and a Go \<open>[]byte\<close> are both sequences of bytes; a byte is the 8-bit
  \<open>char\<close> of HOL, so both are \<^typ>\<open>char list\<close> and Go's conversions between them are
  identities. Fixed-width integers are words; \<open>int\<close> and \<open>len\<close> results, which cannot
  overflow 63 bits here, are \<^typ>\<open>nat\<close> or \<^typ>\<open>int\<close>.
\<close>

type_synonym byte = char
type_synonym bytes = "char list"
type_synonym u8 = "8 word"
type_synonym u16 = "16 word"
type_synonym u32 = "32 word"
type_synonym u64 = "64 word"

named_theorems err_simps \<open>evaluation of error texts and of errors.Is\<close>
named_theorems wire_simps \<open>reading back what was written on the wire\<close>
named_theorems go_defs \<open>definitions of operations that proofs unfold together\<close>

subsection \<open>Error values\<close>

text \<open>
  The system error numbers the code distinguishes, and the sentinel errors it compares
  with. \<open>ErrorString\<close> is a value made by \<open>errors.New\<close> or by \<open>fmt.Errorf\<close> without
  \<open>%w\<close>: it is equal to no sentinel. \<open>WrapError m e\<close> is made by \<open>fmt.Errorf\<close> with
  \<open>%w\<close> applied to \<open>e\<close>, or is an \<open>os.PathError\<close> around \<open>e\<close>, with the complete
  message \<open>m\<close>. \<open>Panic\<close> stands for a run-time panic that ends the program; it is never
  the value of a Go error variable.
\<close>

datatype errno_code =
    ENOENT | EPERM | EACCES | EEXIST | ENOTEMPTY | EIO | ENOSYS | EPIPE | ECONNRESET
  | ENOTCONN | EINTR | EOTHER nat

datatype go_error =
    ErrNotSupported
  | ErrDisconnected
  | CtxCanceled
  | CtxDeadlineExceeded
  | IoEOF
  | IoErrUnexpectedEOF
  | IoErrShortWrite
  | OsErrNotExist
  | OsErrPermission
  | OsErrExist
  | OsErrClosed
  | NetErrClosed
  | ErrNoDP9IKOffer
  | ErrInvalidChallenge
  | ErrWrongSecret
  | Errno errno_code
  | ErrorString string
  | WrapError string go_error
  | Panic string

type_synonym 'a result = "go_error + 'a"

fun errno_text :: "errno_code \<Rightarrow> string" where
  "errno_text ENOENT = ''no such file or directory''"
| "errno_text EPERM = ''operation not permitted''"
| "errno_text EACCES = ''permission denied''"
| "errno_text EEXIST = ''file exists''"
| "errno_text ENOTEMPTY = ''directory not empty''"
| "errno_text EIO = ''input/output error''"
| "errno_text ENOSYS = ''function not implemented''"
| "errno_text EPIPE = ''broken pipe''"
| "errno_text ECONNRESET = ''connection reset by peer''"
| "errno_text ENOTCONN = ''transport endpoint is not connected''"
| "errno_text EINTR = ''interrupted system call''"
| "errno_text (EOTHER _) = ''errno''"

fun error_text :: "go_error \<Rightarrow> string" where
  "error_text ErrNotSupported = ''exportfs operation is not supported by the remote backend''"
| "error_text ErrDisconnected = ''exportfs connection is no longer healthy''"
| "error_text CtxCanceled = ''context canceled''"
| "error_text CtxDeadlineExceeded = ''context deadline exceeded''"
| "error_text IoEOF = ''EOF''"
| "error_text IoErrUnexpectedEOF = ''unexpected EOF''"
| "error_text IoErrShortWrite = ''short write''"
| "error_text OsErrNotExist = ''file does not exist''"
| "error_text OsErrPermission = ''permission denied''"
| "error_text OsErrExist = ''file already exists''"
| "error_text OsErrClosed = ''file already closed''"
| "error_text NetErrClosed = ''use of closed network connection''"
| "error_text ErrNoDP9IKOffer = ''server did not offer dp9ik''"
| "error_text ErrInvalidChallenge = ''server authenticator challenge mismatch''"
| "error_text ErrWrongSecret = ''authentication secret was rejected''"
| "error_text (Errno c) = errno_text c"
| "error_text (ErrorString m) = m"
| "error_text (WrapError m _) = m"
| "error_text (Panic m) = m"

text \<open>
  \<open>syscall.Errno.Is\<close> relates error numbers to the portable sentinels of package
  \<open>os\<close>; \<open>errors.Is\<close> walks the chain of wrapped errors.
\<close>

fun errno_Is :: "errno_code \<Rightarrow> go_error \<Rightarrow> bool" where
  "errno_Is c OsErrNotExist = (c = ENOENT)"
| "errno_Is c OsErrPermission = (c = EACCES \<or> c = EPERM)"
| "errno_Is c OsErrExist = (c = EEXIST \<or> c = ENOTEMPTY)"
| "errno_Is c _ = False"

fun errors_Is :: "go_error \<Rightarrow> go_error \<Rightarrow> bool" where
  "errors_Is (Errno c) t = (Errno c = t \<or> errno_Is c t)"
| "errors_Is (WrapError m e) t = (WrapError m e = t \<or> errors_Is e t)"
| "errors_Is e t = (e = t)"

lemma errors_Is_refl [simp]: "errors_Is e e"
  by (cases e) simp_all

lemma errors_Is_WrapError [simp]:
  "(\<And>n e'. t \<noteq> WrapError n e') \<Longrightarrow> errors_Is (WrapError m e) t = errors_Is e t"
  by auto

fun is_panic :: "go_error \<Rightarrow> bool" where
  "is_panic (Panic _) = True"
| "is_panic _ = False"

subsection \<open>Results\<close>

definition bind_result :: "'a result \<Rightarrow> ('a \<Rightarrow> 'b result) \<Rightarrow> 'b result" where
  "bind_result r f = (case r of Inl e \<Rightarrow> Inl e | Inr x \<Rightarrow> f x)"

lemma bind_result_simps [simp]:
  "bind_result (Inl e) f = Inl e"
  "bind_result (Inr x) f = f x"
  by (simp_all add: bind_result_def)

lemma bind_result_eq_Inr:
  "bind_result r f = Inr y \<longleftrightarrow> (\<exists>x. r = Inr x \<and> f x = Inr y)"
  by (cases r) auto

subsection \<open>Bytes and machine words\<close>

definition byte_val :: "byte \<Rightarrow> nat" where
  "byte_val b = of_char b"

definition byte_of :: "nat \<Rightarrow> byte" where
  "byte_of n = char_of n"

lemma byte_val_less [simp]: "byte_val b < 256"
  by (simp add: byte_val_def)

lemma byte_val_le [simp]: "byte_val b \<le> 255"
  using byte_val_less [of b] by linarith

lemma byte_val_byte_of [simp]: "byte_val (byte_of n) = n mod 256"
  by (simp add: byte_val_def byte_of_def)

lemma byte_of_byte_val [simp]: "byte_of (byte_val b) = b"
  by (simp add: byte_val_def byte_of_def)

lemma byte_of_mod [simp]: "byte_of (n mod 256) = byte_of n"
  by (simp add: byte_of_def)

lemma byte_val_inject [simp]: "byte_val a = byte_val b \<longleftrightarrow> a = b"
  by (metis byte_of_byte_val)

lemma unat_mod_width [simp]:
  "unat (a :: u8) mod 256 = unat a"
  "unat (b :: u16) mod 65536 = unat b"
  "unat (c :: u32) mod 4294967296 = unat c"
  "unat (d :: u64) mod 18446744073709551616 = unat d"
  using unsigned_less [where 'a = nat, of a] unsigned_less [where 'a = nat, of b]
    unsigned_less [where 'a = nat, of c] unsigned_less [where 'a = nat, of d] by simp_all

lemma unat_of_nat_mod: "unat (of_nat n :: 'a::len word) = n mod 2 ^ LENGTH('a)"
  by (simp add: unat_of_nat)

text \<open>Disjoint bit fields combined by \<open>OR\<close> add up.\<close>

lemma or_push_bit_add:
  assumes "(a :: nat) < 2 ^ k"
  shows "or a (push_bit k b) = a + 2 ^ k * b"
proof -
  have "and a (push_bit k b) = 0"
    using assms by (auto simp: bit_eq_iff bit_simps)
      (metis bit_take_bit_iff linorder_not_le take_bit_nat_eq_self)
  then show ?thesis
    by (metis disjunctive_add_eq_or mult.commute push_bit_eq_mult)
qed

lemma nat_mod_add_left_cancel:
  assumes "((a :: nat) + i) mod n = (a + j) mod n"
  shows "i mod n = j mod n"
  using assms by (auto simp: nat_mod_eq_iff add.assoc)

subsection \<open>Lists\<close>

lemma take_drop_append_exact [simp]:
  "length xs = n \<Longrightarrow> take n (xs @ ys) = xs"
  "length xs = n \<Longrightarrow> drop n (xs @ ys) = ys"
  by auto

lemma nth_list_update_if:
  "xs[a := c] ! b = (if a = b \<and> a < length xs then c else xs ! b)"
  by (cases "a < length xs") (auto simp: list_update_beyond)

lemma concat_snoc [simp]: "concat (xss @ [xs]) = concat xss @ xs"
  by simp

lemma list_all_takeWhile: "list_all P (takeWhile P xs)"
  by (induction xs) auto

end
