(* ===== verification/Go_Binary.thy ===== *)
theory Go_Binary
  imports Prelude
begin

text \<open>
  The parts of \<open>encoding/binary\<close>, \<open>io\<close> and \<open>bytes\<close> used by the wire formats:
  little- and big-endian integers, \<open>io.ReadFull\<close> on an in-memory reader, and the
  interface every field of a wire format implements: what was written is read back, and
  the reader is left at the first byte after it.
\<close>

subsection \<open>Integers as bytes\<close>

fun put_le :: "nat \<Rightarrow> nat \<Rightarrow> bytes" where
  "put_le 0 v = []"
| "put_le (Suc k) v = byte_of v # put_le k (v div 256)"

fun get_le :: "bytes \<Rightarrow> nat" where
  "get_le [] = 0"
| "get_le (b # bs) = byte_val b + 256 * get_le bs"

lemma length_put_le [simp]: "length (put_le k v) = k"
  by (induction k arbitrary: v) auto

lemma get_le_put_le [simp]: "get_le (put_le k v) = v mod 256 ^ k"
proof (induction k arbitrary: v)
  case (Suc k)
  have "v mod (256 * 256 ^ k) = 256 * (v div 256 mod 256 ^ k) + v mod 256"
    by (rule mod_mult2_eq)
  with Suc show ?case by simp
qed simp

lemma get_le_less: "get_le bs < 256 ^ length bs"
proof (induction bs)
  case (Cons b bs)
  have b: "byte_val b < 256" by (rule byte_val_less)
  have "get_le bs + 1 \<le> 256 ^ length bs" using Cons by simp
  then have "256 * get_le bs + 256 \<le> 256 * 256 ^ length bs"
    by (metis add.commute distrib_left mult.right_neutral mult_le_mono2)
  with b have "byte_val b + 256 * get_le bs < 256 * 256 ^ length bs" by linarith
  then show ?case by simp
qed simp

lemma put_le_get_le [simp]: "put_le (length bs) (get_le bs) = bs"
proof (induction bs)
  case (Cons b bs)
  have "byte_of (byte_val b + 256 * get_le bs) = b"
    by (metis byte_of_byte_val byte_of_mod mod_mult_self2)
  moreover have "(byte_val b + 256 * get_le bs) div 256 = get_le bs"
    using byte_val_less [of b] by simp
  ultimately show ?case using Cons by simp
qed simp

definition put_be :: "nat \<Rightarrow> nat \<Rightarrow> bytes" where
  "put_be k v = rev (put_le k v)"

definition get_be :: "bytes \<Rightarrow> nat" where
  "get_be bs = get_le (rev bs)"

lemma length_put_be [simp]: "length (put_be k v) = k"
  by (simp add: put_be_def)

lemma get_be_put_be [simp]: "get_be (put_be k v) = v mod 256 ^ k"
  by (simp add: get_be_def put_be_def)

lemma get_be_less: "get_be bs < 256 ^ length bs"
  using get_le_less [of "rev bs"] by (simp add: get_be_def)

lemma put_be_get_be [simp]: "put_be (length bs) (get_be bs) = bs"
  using put_le_get_le [of "rev bs"] by (simp add: get_be_def put_be_def)

subsection \<open>Reading from an in-memory reader\<close>

text \<open>
  \<open>io.ReadFull(r, buf)\<close> with \<open>len(buf) = n\<close>: the bytes stored at the front of
  \<open>buf\<close>, the error, and what is left in the reader. An empty reader gives \<open>io.EOF\<close>, a
  reader that ends early \<open>io.ErrUnexpectedEOF\<close>.
\<close>

definition ReadFull :: "nat \<Rightarrow> bytes \<Rightarrow> bytes \<times> go_error option \<times> bytes" where
  "ReadFull n r =
     (take n r,
      (if n \<le> length r then None else if r = [] then Some IoEOF else Some IoErrUnexpectedEOF),
      drop n r)"

lemma ReadFull_append [simp]: "length xs = n \<Longrightarrow> ReadFull n (xs @ r) = (xs, None, r)"
  by (simp add: ReadFull_def)

text \<open>A loop that reads \<open>n\<close> items one after the other.\<close>

fun read_n :: "(bytes \<Rightarrow> 'a \<times> bytes) \<Rightarrow> nat \<Rightarrow> bytes \<Rightarrow> 'a list \<times> bytes" where
  "read_n rd 0 r = ([], r)"
| "read_n rd (Suc n) r =
     (let (x, r1) = rd r; (xs, r2) = read_n rd n r1 in (x # xs, r2))"

subsection \<open>The interface of a wire field\<close>

locale wire_codec =
  fixes put :: "'a \<Rightarrow> bytes"
    and get :: "bytes \<Rightarrow> 'a \<times> bytes"
    and ok :: "'a \<Rightarrow> bool"
  assumes get_put: "ok x \<Longrightarrow> get (put x @ r) = (x, r)"
begin

lemma put_prefix_free:
  assumes "ok x" "ok y" "put x @ r = put y @ s"
  shows "x = y \<and> r = s"
proof -
  have "(x, r) = get (put x @ r)" using assms(1) by (simp add: get_put)
  also have "\<dots> = get (put y @ s)" using assms(3) by simp
  also have "\<dots> = (y, s)" using assms(2) by (simp add: get_put)
  finally show ?thesis by simp
qed

lemma get_put_end: "ok x \<Longrightarrow> get (put x) = (x, [])"
  using get_put [of x "[]"] by simp

lemma read_n_put:
  "list_all ok xs \<Longrightarrow> read_n get (length xs) (concat (map put xs) @ r) = (xs, r)"
  by (induction xs) (auto simp: get_put)

lemma read_n_put_end:
  "list_all ok xs \<Longrightarrow> read_n get (length xs) (concat (map put xs)) = (xs, [])"
  using read_n_put [of xs "[]"] by simp

end

end
