(* ===== verification/Go_Strings.thy ===== *)
theory Go_Strings
  imports Prelude
begin

text \<open>
  The operations of the Go packages \<open>strings\<close>, \<open>bytes\<close> and \<open>fmt\<close> that the program
  uses, on byte strings, with the laws the components rely on. \<open>TrimSpace\<close> and
  \<open>Fields\<close> treat every Unicode space, given by its UTF-8 encoding; \<open>ToLower\<close> is the
  ASCII case of the library function.
\<close>

subsection \<open>Prefixes, suffixes, searching\<close>

definition HasPrefix :: "bytes \<Rightarrow> bytes \<Rightarrow> bool" where
  "HasPrefix s p \<longleftrightarrow> take (length p) s = p"

definition TrimPrefix :: "bytes \<Rightarrow> bytes \<Rightarrow> bytes" where
  "TrimPrefix s p = (if HasPrefix s p then drop (length p) s else s)"

definition HasSuffix :: "bytes \<Rightarrow> bytes \<Rightarrow> bool" where
  "HasSuffix s p \<longleftrightarrow> length p \<le> length s \<and> drop (length s - length p) s = p"

definition TrimSuffix :: "bytes \<Rightarrow> bytes \<Rightarrow> bytes" where
  "TrimSuffix s p = (if HasSuffix s p then take (length s - length p) s else s)"

fun IndexByte :: "bytes \<Rightarrow> byte \<Rightarrow> nat option" where
  "IndexByte [] c = None"
| "IndexByte (x # xs) c = (if x = c then Some 0 else map_option Suc (IndexByte xs c))"

fun bytes_Index :: "bytes \<Rightarrow> bytes \<Rightarrow> nat option" where
  "bytes_Index [] p = (if p = [] then Some 0 else None)"
| "bytes_Index (x # xs) p =
     (if HasPrefix (x # xs) p then Some 0 else map_option Suc (bytes_Index xs p))"

definition Contains :: "bytes \<Rightarrow> bytes \<Rightarrow> bool" where
  "Contains s p \<longleftrightarrow> bytes_Index s p \<noteq> None"

lemma HasPrefix_append [simp]: "HasPrefix (p @ s) p"
  by (simp add: HasPrefix_def)

lemma HasPrefix_iff: "HasPrefix s p \<longleftrightarrow> (\<exists>r. s = p @ r)"
  by (metis HasPrefix_append HasPrefix_def append_take_drop_id)

lemma HasPrefix_Nil [simp]: "HasPrefix s []"
  by (simp add: HasPrefix_def)

lemma TrimPrefix_append [simp]: "TrimPrefix (p @ s) p = s"
  by (simp add: TrimPrefix_def)

lemma TrimSuffix_append [simp]: "TrimSuffix (s @ p) p = s"
  by (simp add: TrimSuffix_def HasSuffix_def)

lemma IndexByte_Some:
  "IndexByte s c = Some i \<longleftrightarrow> i < length s \<and> s ! i = c \<and> c \<notin> set (take i s)"
proof (induction s arbitrary: i)
  case (Cons x xs)
  then show ?case by (cases i) auto
qed simp

lemma IndexByte_None: "IndexByte s c = None \<longleftrightarrow> c \<notin> set s"
  by (induction s) auto

lemma IndexByte_append:
  "IndexByte (s @ t) c =
     (case IndexByte s c of
        Some i \<Rightarrow> Some i
      | None \<Rightarrow> map_option (\<lambda>i. length s + i) (IndexByte t c))"
  by (cases "IndexByte t c"; induction s) (auto split: option.splits)

text \<open>\<open>bytes.Index\<close> finds the first occurrence.\<close>

lemma bytes_Index_Some:
  "bytes_Index s p = Some i \<longleftrightarrow>
     i \<le> length s \<and> HasPrefix (drop i s) p \<and> (\<forall>j < i. \<not> HasPrefix (drop j s) p)"
proof (induction s arbitrary: i)
  case Nil
  then show ?case by (auto simp: HasPrefix_def)
next
  case (Cons x xs)
  show ?case
  proof (cases i)
    case 0
    then show ?thesis by auto
  next
    case (Suc k)
    then show ?thesis
      by (auto simp: Cons.IH less_Suc_eq_0_disj All_less_Suc2)
  qed
qed

lemma bytes_Index_None:
  "bytes_Index s p = None \<longleftrightarrow> (\<forall>j \<le> length s. \<not> HasPrefix (drop j s) p)"
proof (induction s)
  case Nil
  then show ?case by (auto simp: HasPrefix_def)
next
  case (Cons x xs)
  then show ?case
    by (auto simp: less_Suc_eq_le [symmetric] All_less_Suc2)
qed

lemma bytes_Index_split:
  assumes "bytes_Index s p = Some i"
  shows "s = take i s @ p @ drop (i + length p) s"
proof -
  from assms have "take (length p) (drop i s) = p"
    by (simp add: bytes_Index_Some HasPrefix_def)
  then have "drop i s = p @ drop (length p) (drop i s)"
    by (metis append_take_drop_id)
  then show ?thesis
    by (metis add.commute append_take_drop_id drop_drop)
qed

lemma HasPrefix_drop_append:
  "HasPrefix (drop j s) p \<Longrightarrow> HasPrefix (drop j (s @ t)) p"
  by (cases "j \<le> length s") (auto simp: HasPrefix_iff)

lemma HasPrefix_drop_append_short:
  "j + length p \<le> length s \<Longrightarrow> HasPrefix (drop j (s @ t)) p = HasPrefix (drop j s) p"
  by (auto simp: HasPrefix_def)

lemma bytes_Index_bound:
  assumes "bytes_Index s p = Some i"
  shows "i + length p \<le> length s"
proof -
  from assms have "length s = length (take i s @ p @ drop (i + length p) s)"
    using bytes_Index_split by metis
  moreover from assms have "i \<le> length s" by (simp add: bytes_Index_Some)
  ultimately show ?thesis by auto
qed

lemma bytes_Index_append:
  assumes "bytes_Index s p = Some i"
  shows "bytes_Index (s @ t) p = Some i"
proof -
  have b: "i + length p \<le> length s" using assms by (rule bytes_Index_bound)
  have "\<not> HasPrefix (drop j (s @ t)) p" if "j < i" for j
  proof -
    have "j + length p \<le> length s" using b that by simp
    then have "HasPrefix (drop j (s @ t)) p = HasPrefix (drop j s) p"
      by (rule HasPrefix_drop_append_short)
    with assms that show ?thesis by (simp add: bytes_Index_Some)
  qed
  moreover from assms have "HasPrefix (drop i (s @ t)) p"
    by (intro HasPrefix_drop_append) (simp add: bytes_Index_Some)
  ultimately show ?thesis
    using b unfolding bytes_Index_Some by simp
qed

subsection \<open>Joining and splitting\<close>

fun Join :: "bytes list \<Rightarrow> bytes \<Rightarrow> bytes" where
  "Join [] sep = []"
| "Join [x] sep = x"
| "Join (x # y # ys) sep = x @ sep @ Join (y # ys) sep"

text \<open>\<open>strings.Split\<close> with a separator of one byte: one piece more than separators.\<close>

fun Split :: "bytes \<Rightarrow> byte \<Rightarrow> bytes list" where
  "Split [] c = [[]]"
| "Split (x # xs) c =
     (if x = c then [] # Split xs c
      else (case Split xs c of [] \<Rightarrow> [[x]] | p # ps \<Rightarrow> (x # p) # ps))"

lemma Split_not_Nil [simp]: "Split s c \<noteq> []"
  by (induction s) (auto split: list.splits)

lemma Join_Cons: "xs \<noteq> [] \<Longrightarrow> Join (x # xs) sep = x @ sep @ Join xs sep"
  by (cases xs) auto

lemma Join_Split: "Join (Split s c) [c] = s"
proof (induction s)
  case (Cons x xs)
  show ?case
  proof (cases "x = c")
    case True
    then show ?thesis using Cons by (simp add: Join_Cons)
  next
    case False
    then obtain p ps where "Split xs c = p # ps" by (metis Split_not_Nil list.exhaust)
    with Cons False show ?thesis by (cases ps) auto
  qed
qed simp

lemma Split_no_sep: "p \<in> set (Split s c) \<Longrightarrow> c \<notin> set p"
  by (induction s arbitrary: p) (auto split: list.splits if_splits)

lemma Split_id: "c \<notin> set p \<Longrightarrow> Split p c = [p]"
  by (induction p) auto

lemma Split_append: "c \<notin> set p \<Longrightarrow> Split (p @ c # s) c = p # Split s c"
  by (induction p) auto

lemma Split_Join:
  "ps \<noteq> [] \<Longrightarrow> \<forall>p \<in> set ps. c \<notin> set p \<Longrightarrow> Split (Join ps [c]) c = ps"
  by (induction ps "[c]" rule: Join.induct) (auto simp: Split_id Split_append)

lemma Split_mem_set: "p \<in> set (Split s c) \<Longrightarrow> set p \<subseteq> set s"
proof (induction s arbitrary: p)
  case (Cons x xs)
  then show ?case by (fastforce split: list.splits if_splits)
qed simp

text \<open>\<open>strings.Cut\<close> around the first separator byte.\<close>

definition Cut :: "bytes \<Rightarrow> byte \<Rightarrow> bytes \<times> bytes \<times> bool" where
  "Cut s c = (case IndexByte s c of
     None \<Rightarrow> (s, [], False)
   | Some i \<Rightarrow> (take i s, drop (Suc i) s, True))"

text \<open>\<open>strings.ReplaceAll\<close> of a single byte.\<close>

definition ReplaceByte :: "bytes \<Rightarrow> byte \<Rightarrow> bytes \<Rightarrow> bytes" where
  "ReplaceByte s c r = concat (map (\<lambda>x. if x = c then r else [x]) s)"

lemma ReplaceByte_simps [simp]:
  "ReplaceByte [] c r = []"
  "ReplaceByte (x # xs) c r = (if x = c then r else [x]) @ ReplaceByte xs c r"
  by (simp_all add: ReplaceByte_def)

subsection \<open>Case and spaces\<close>

definition lower_byte :: "byte \<Rightarrow> byte" where
  "lower_byte c = (let n = byte_val c in if 65 \<le> n \<and> n \<le> 90 then byte_of (n + 32) else c)"

definition ToLower :: "bytes \<Rightarrow> bytes" where
  "ToLower s = map lower_byte s"

text \<open>The UTF-8 encodings of the runes for which \<open>unicode.IsSpace\<close> holds.\<close>

definition space_runes :: "bytes list" where
  "space_runes =
     [[CHR 0x09], [CHR 0x0A], [CHR 0x0B], [CHR 0x0C], [CHR 0x0D], [CHR 0x20],
      [CHR 0xC2, CHR 0x85], [CHR 0xC2, CHR 0xA0], [CHR 0xE1, CHR 0x9A, CHR 0x80],
      [CHR 0xE2, CHR 0x80, CHR 0x80], [CHR 0xE2, CHR 0x80, CHR 0x81],
      [CHR 0xE2, CHR 0x80, CHR 0x82], [CHR 0xE2, CHR 0x80, CHR 0x83],
      [CHR 0xE2, CHR 0x80, CHR 0x84], [CHR 0xE2, CHR 0x80, CHR 0x85],
      [CHR 0xE2, CHR 0x80, CHR 0x86], [CHR 0xE2, CHR 0x80, CHR 0x87],
      [CHR 0xE2, CHR 0x80, CHR 0x88], [CHR 0xE2, CHR 0x80, CHR 0x89],
      [CHR 0xE2, CHR 0x80, CHR 0x8A], [CHR 0xE2, CHR 0x80, CHR 0xA8],
      [CHR 0xE2, CHR 0x80, CHR 0xA9], [CHR 0xE2, CHR 0x80, CHR 0xAF],
      [CHR 0xE2, CHR 0x81, CHR 0x9F], [CHR 0xE3, CHR 0x80, CHR 0x80]]"

definition leading_space :: "bytes \<Rightarrow> nat" where
  "leading_space s = (case find (HasPrefix s) space_runes of None \<Rightarrow> 0 | Some r \<Rightarrow> length r)"

function trim_left_space :: "bytes \<Rightarrow> bytes" where
  "trim_left_space s =
     (if s = [] \<or> leading_space s = 0 then s else trim_left_space (drop (leading_space s) s))"
  by pat_completeness auto
termination
  by (relation "measure length") auto

declare trim_left_space.simps [simp del]

definition trailing_space :: "bytes \<Rightarrow> nat" where
  "trailing_space s = (case find (HasSuffix s) space_runes of None \<Rightarrow> 0 | Some r \<Rightarrow> length r)"

function trim_right_space :: "bytes \<Rightarrow> bytes" where
  "trim_right_space s =
     (if s = [] \<or> trailing_space s = 0 then s
      else trim_right_space (take (length s - trailing_space s) s))"
  by pat_completeness auto
termination
  by (relation "measure length") auto

declare trim_right_space.simps [simp del]

definition TrimSpace :: "bytes \<Rightarrow> bytes" where
  "TrimSpace s = trim_right_space (trim_left_space s)"

text \<open>\<open>strings.TrimRight\<close> with a set of ASCII bytes.\<close>

definition TrimRight :: "bytes \<Rightarrow> bytes \<Rightarrow> bytes" where
  "TrimRight s cs = rev (dropWhile (\<lambda>c. c \<in> set cs) (rev s))"

text \<open>\<open>strings.Fields\<close>: maximal runs of bytes that belong to no space.\<close>

function fields_from :: "bytes \<Rightarrow> bytes \<Rightarrow> bytes list" where
  "fields_from cur s =
     (if s = [] then (if cur = [] then [] else [cur])
      else if leading_space s = 0 then fields_from (cur @ [hd s]) (tl s)
      else (if cur = [] then [] else [cur]) @ fields_from [] (drop (leading_space s) s))"
  by pat_completeness auto
termination
  by (relation "measure (\<lambda>(cur, s). length s)") auto

declare fields_from.simps [simp del]

definition Fields :: "bytes \<Rightarrow> bytes list" where
  "Fields s = fields_from [] s"

lemma TrimSpace_Nil [simp]: "TrimSpace [] = []"
  by (simp add: TrimSpace_def trim_left_space.simps trim_right_space.simps)

lemmas TrimSpace_eval =
  TrimSpace_def trim_left_space.simps trim_right_space.simps leading_space_def trailing_space_def
  space_runes_def HasPrefix_def HasSuffix_def

lemma fields_from_nonempty: "f \<in> set (fields_from cur s) \<Longrightarrow> f \<noteq> []"
proof (induction cur s rule: fields_from.induct)
  case (1 cur s)
  show ?case
  proof (cases "s = []")
    case True
    with "1.prems" show ?thesis
      by (auto simp: fields_from.simps [of cur "[]"] split: if_splits)
  next
    case False
    with "1.prems" "1.IH" show ?thesis
      by (cases "leading_space s = 0") (auto simp: fields_from.simps [of cur s] split: if_splits)
  qed
qed

subsection \<open>Decimal output\<close>

definition digit_char :: "nat \<Rightarrow> byte" where
  "digit_char d = byte_of (48 + d)"

fun string_of_nat :: "nat \<Rightarrow> bytes" where
  "string_of_nat n =
     (if n < 10 then [digit_char n] else string_of_nat (n div 10) @ [digit_char (n mod 10)])"

declare string_of_nat.simps [simp del]

text \<open>\<open>%7d\<close> pads on the left with blanks.\<close>

definition pad_left :: "nat \<Rightarrow> bytes \<Rightarrow> bytes" where
  "pad_left w s = replicate (w - length s) (CHR '' '') @ s"

fun nat_of_digits :: "nat \<Rightarrow> bytes \<Rightarrow> nat" where
  "nat_of_digits n [] = n"
| "nat_of_digits n (c # cs) = nat_of_digits (n * 10 + (byte_val c - 48)) cs"

lemma nat_of_digits_append: "nat_of_digits n (s @ t) = nat_of_digits (nat_of_digits n s) t"
  by (induction s arbitrary: n) auto

lemma byte_val_digit_char: "d < 10 \<Longrightarrow> byte_val (digit_char d) = 48 + d"
  by (simp add: digit_char_def)

lemma nat_of_digits_string_of_nat: "nat_of_digits 0 (string_of_nat n) = n"
proof (induction n rule: string_of_nat.induct)
  case (1 n)
  show ?case
  proof (cases "n < 10")
    case True
    then show ?thesis by (simp add: string_of_nat.simps [of n] byte_val_digit_char)
  next
    case False
    with 1 show ?thesis
      by (simp add: string_of_nat.simps [of n] nat_of_digits_append byte_val_digit_char)
  qed
qed

lemma string_of_nat_digits: "c \<in> set (string_of_nat n) \<Longrightarrow> 48 \<le> byte_val c \<and> byte_val c \<le> 57"
proof (induction n rule: string_of_nat.induct)
  case (1 n)
  show ?case
  proof (cases "n < 10")
    case True
    with "1.prems" show ?thesis by (simp add: string_of_nat.simps [of n] byte_val_digit_char)
  next
    case False
    have "n mod 10 < 10" by simp
    with 1 False show ?thesis
      by (auto simp: string_of_nat.simps [of n] byte_val_digit_char)
  qed
qed

end
