(* ===== verification/Ninep_Codec.thy ===== *)
theory Ninep_Codec
  imports Go_Binary Go_Strings
begin

text \<open>
  The 9P2000 messages of \<open>internal/ninep\<close>: the types of \<open>types.go\<close>, \<open>Marshal\<close> and
  \<open>Unmarshal\<close> of \<open>codec.go\<close>, directory entries of \<open>dir.go\<close>. A decoder works on the
  bytes that are left and never fails inside a field: a short integer reads as zero, a
  short string is padded with zero bytes, as the source's readers ignore their errors.
\<close>

subsection \<open>types.go\<close>

definition TVERSION :: u8 where "TVERSION = 100"
definition RVERSION :: u8 where "RVERSION = 101"
definition TATTACH :: u8 where "TATTACH = 104"
definition RATTACH :: u8 where "RATTACH = 105"
definition RERROR :: u8 where "RERROR = 107"
definition TWALK :: u8 where "TWALK = 110"
definition RWALK :: u8 where "RWALK = 111"
definition TOPEN :: u8 where "TOPEN = 112"
definition ROPEN :: u8 where "ROPEN = 113"
definition TCREATE :: u8 where "TCREATE = 114"
definition RCREATE :: u8 where "RCREATE = 115"
definition TREAD :: u8 where "TREAD = 116"
definition RREAD :: u8 where "RREAD = 117"
definition TWRITE :: u8 where "TWRITE = 118"
definition RWRITE :: u8 where "RWRITE = 119"
definition TCLUNK :: u8 where "TCLUNK = 120"
definition RCLUNK :: u8 where "RCLUNK = 121"
definition TREMOVE :: u8 where "TREMOVE = 122"
definition RREMOVE :: u8 where "RREMOVE = 123"
definition TSTAT :: u8 where "TSTAT = 124"
definition RSTAT :: u8 where "RSTAT = 125"
definition TWSTAT :: u8 where "TWSTAT = 126"
definition RWSTAT :: u8 where "RWSTAT = 127"
definition NOFID :: u32 where "NOFID = - 1"
definition NOTAG :: u16 where "NOTAG = - 1"

lemmas msg_types =
  TVERSION_def RVERSION_def TATTACH_def RATTACH_def RERROR_def TWALK_def RWALK_def TOPEN_def
  ROPEN_def TCREATE_def RCREATE_def TREAD_def RREAD_def TWRITE_def RWRITE_def TCLUNK_def
  RCLUNK_def TREMOVE_def RREMOVE_def TSTAT_def RSTAT_def TWSTAT_def RWSTAT_def

record qid =
  qtype :: u8
  qversion :: u32
  qpath :: u64

record dir =
  dtype :: u16
  ddev :: u32
  dqid :: qid
  dmode :: u32
  datime :: u32
  dmtime :: u32
  dlength :: u64
  dname :: string
  duid :: string
  dgid :: string
  dmuid :: string

record fcall =
  ftype :: u8
  ftag :: u16
  fmsize :: u32
  fversion :: string
  ffid :: u32
  fnewfid :: u32
  fafid :: u32
  funame :: string
  faname :: string
  fwnames :: "string list"
  fwqids :: "qid list"
  fmode :: u8
  fname :: string
  fperm :: u32
  foffset :: u64
  fcount :: u32
  fdata :: bytes
  fqid :: qid
  fiounit :: u32
  fdir :: "dir option"
  fename :: string

text \<open>The zero values of the Go types.\<close>

definition zero_qid :: qid where
  "zero_qid = \<lparr>qtype = 0, qversion = 0, qpath = 0\<rparr>"

definition zero_dir :: dir where
  "zero_dir = \<lparr>dtype = 0, ddev = 0, dqid = zero_qid, dmode = 0, datime = 0, dmtime = 0,
     dlength = 0, dname = [], duid = [], dgid = [], dmuid = []\<rparr>"

definition zero_fcall :: fcall where
  "zero_fcall = \<lparr>ftype = 0, ftag = 0, fmsize = 0, fversion = [], ffid = 0, fnewfid = 0,
     fafid = 0, funame = [], faname = [], fwnames = [], fwqids = [], fmode = 0, fname = [],
     fperm = 0, foffset = 0, fcount = 0, fdata = [], fqid = zero_qid, fiounit = 0,
     fdir = None, fename = []\<rparr>"

text \<open>\<open>Dir.ModTime\<close>: nanoseconds since the zero time of Go, from Unix seconds.\<close>

definition unix_time :: "int \<Rightarrow> int" where
  "unix_time s = (s + 62135596800) * 1000000000"

definition ModTime :: "dir \<Rightarrow> int" where
  "ModTime d = unix_time (uint (dmtime d))"

subsection \<open>Field writers and readers\<close>

definition write8 :: "u8 \<Rightarrow> bytes" where "write8 v = put_le 1 (unat v)"
definition write16 :: "u16 \<Rightarrow> bytes" where "write16 v = put_le 2 (unat v)"
definition write32 :: "u32 \<Rightarrow> bytes" where "write32 v = put_le 4 (unat v)"
definition write64 :: "u64 \<Rightarrow> bytes" where "write64 v = put_le 8 (unat v)"

definition writeString :: "string \<Rightarrow> bytes" where
  "writeString s = write16 (of_nat (length s)) @ s"

definition writeQID :: "qid \<Rightarrow> bytes" where
  "writeQID q = write8 (qtype q) @ write32 (qversion q) @ write64 (qpath q)"

definition read_uint :: "nat \<Rightarrow> bytes \<Rightarrow> nat \<times> bytes" where
  "read_uint k r = (case ReadFull k r of
     (bs, None, r') \<Rightarrow> (get_le bs, r')
   | (bs, Some e, r') \<Rightarrow> (0, r'))"

definition read8 :: "bytes \<Rightarrow> u8 \<times> bytes" where
  "read8 r = (let (n, r') = read_uint 1 r in (of_nat n, r'))"

definition read16 :: "bytes \<Rightarrow> u16 \<times> bytes" where
  "read16 r = (let (n, r') = read_uint 2 r in (of_nat n, r'))"

definition read32 :: "bytes \<Rightarrow> u32 \<times> bytes" where
  "read32 r = (let (n, r') = read_uint 4 r in (of_nat n, r'))"

definition read64 :: "bytes \<Rightarrow> u64 \<times> bytes" where
  "read64 r = (let (n, r') = read_uint 8 r in (of_nat n, r'))"

definition readString :: "bytes \<Rightarrow> string \<times> bytes" where
  "readString r =
     (let (n16, r1) = read16 r;
          n = unat n16;
          (bs, e, r2) = ReadFull n r1
      in (bs @ replicate (n - length bs) (byte_of 0), r2))"

definition readQID :: "bytes \<Rightarrow> qid \<times> bytes" where
  "readQID r =
     (let (t, r1) = read8 r; (v, r2) = read32 r1; (p, r3) = read64 r2
      in (\<lparr>qtype = t, qversion = v, qpath = p\<rparr>, r3))"

subsection \<open>Directory entries\<close>

definition dir_body :: "dir \<Rightarrow> bytes" where
  "dir_body d = write16 (dtype d) @ write32 (ddev d) @ writeQID (dqid d) @ write32 (dmode d) @
     write32 (datime d) @ write32 (dmtime d) @ write64 (dlength d) @ writeString (dname d) @
     writeString (duid d) @ writeString (dgid d) @ writeString (dmuid d)"

definition marshalDir :: "dir option \<Rightarrow> bytes result" where
  "marshalDir od = (case od of
     None \<Rightarrow> Inr []
   | Some d \<Rightarrow>
       (let buf = write16 0 @ dir_body d
        in Inr (write16 (of_nat (length buf - 2)) @ drop 2 buf)))"

definition unmarshalDir :: "bytes \<Rightarrow> dir result" where
  "unmarshalDir buf =
     (let (_, r) = read16 buf;
          (ty, r) = read16 r;
          (dev, r) = read32 r;
          (q, r) = readQID r;
          (mode, r) = read32 r;
          (atime, r) = read32 r;
          (mtime, r) = read32 r;
          (len, r) = read64 r;
          (nm, r) = readString r;
          (u, r) = readString r;
          (g, r) = readString r;
          (m, r) = readString r
      in Inr \<lparr>dtype = ty, ddev = dev, dqid = q, dmode = mode, datime = atime, dmtime = mtime,
           dlength = len, dname = nm, duid = u, dgid = g, dmuid = m\<rparr>)"

function ParseDirEntries_from :: "dir list \<Rightarrow> bytes \<Rightarrow> dir list result" where
  "ParseDirEntries_from dirs data =
     (if data = [] then Inr dirs
      else if length data < 2 then Inl IoErrUnexpectedEOF
      else (let size = get_le (take 2 data) in
        if length data < 2 + size
        then Inl (ErrorString (''truncated dir entry: need '' @ string_of_nat (2 + size) @
               '' bytes, have '' @ string_of_nat (length data)))
        else (case unmarshalDir (take (2 + size) data) of
               Inl e \<Rightarrow> Inl e
             | Inr d \<Rightarrow> ParseDirEntries_from (dirs @ [d]) (drop (2 + size) data))))"
  by pat_completeness auto
termination
  by (relation "measure (\<lambda>(dirs, data). length data)") auto

declare ParseDirEntries_from.simps [simp del]

definition ParseDirEntries :: "bytes \<Rightarrow> dir list result" where
  "ParseDirEntries data = ParseDirEntries_from [] data"

definition EncodeDir :: "dir option \<Rightarrow> bytes result" where
  "EncodeDir d = marshalDir d"

subsection \<open>Messages\<close>

definition unsupported_fcall :: "u8 \<Rightarrow> go_error" where
  "unsupported_fcall t = ErrorString (''unsupported fcall type '' @ string_of_nat (unat t))"

text \<open>The \<open>switch\<close> of \<open>Marshal\<close>: what follows type and tag in the body.\<close>

definition marshal_fields :: "fcall \<Rightarrow> bytes result" where
  "marshal_fields f =
     (let t = ftype f in
      if t = TVERSION \<or> t = RVERSION then Inr (write32 (fmsize f) @ writeString (fversion f))
      else if t = TATTACH then
        Inr (write32 (ffid f) @ write32 (fafid f) @ writeString (funame f) @ writeString (faname f))
      else if t = RATTACH then Inr (writeQID (fqid f))
      else if t = TWALK then
        Inr (write32 (ffid f) @ write32 (fnewfid f) @ write16 (of_nat (length (fwnames f))) @
             concat (map writeString (fwnames f)))
      else if t = RWALK then
        Inr (write16 (of_nat (length (fwqids f))) @ concat (map writeQID (fwqids f)))
      else if t = TOPEN then Inr (write32 (ffid f) @ write8 (fmode f))
      else if t = ROPEN then Inr (writeQID (fqid f) @ write32 (fiounit f))
      else if t = TCREATE then
        Inr (write32 (ffid f) @ writeString (fname f) @ write32 (fperm f) @ write8 (fmode f))
      else if t = RCREATE then Inr (writeQID (fqid f) @ write32 (fiounit f))
      else if t = TREAD then Inr (write32 (ffid f) @ write64 (foffset f) @ write32 (fcount f))
      else if t = RREAD then Inr (write32 (of_nat (length (fdata f))) @ fdata f)
      else if t = TWRITE then
        Inr (write32 (ffid f) @ write64 (foffset f) @ write32 (of_nat (length (fdata f))) @ fdata f)
      else if t = RWRITE then Inr (write32 (fcount f))
      else if t = TCLUNK \<or> t = TREMOVE \<or> t = TSTAT then Inr (write32 (ffid f))
      else if t = TWSTAT then
        bind_result (marshalDir (fdir f))
          (\<lambda>d. Inr (write32 (ffid f) @ write16 (of_nat (length d)) @ d))
      else if t = RSTAT then
        bind_result (marshalDir (fdir f)) (\<lambda>d. Inr (write16 (of_nat (length d)) @ d))
      else if t = RCLUNK \<or> t = RREMOVE \<or> t = RWSTAT then Inr []
      else if t = RERROR then Inr (writeString (fename f))
      else Inl (unsupported_fcall t))"

definition Marshal :: "fcall \<Rightarrow> bytes result" where
  "Marshal f =
     bind_result (marshal_fields f) (\<lambda>fields.
       let body = write8 (ftype f) @ write16 (ftag f) @ fields
       in Inr (write32 (of_nat (4 + length body)) @ body))"

definition read_data :: "bytes \<Rightarrow> bytes result" where
  "read_data r =
     (let (n, r1) = read32 r in
      (case ReadFull (unat n) r1 of (bs, Some e, _) \<Rightarrow> Inl e | (bs, None, _) \<Rightarrow> Inr bs))"

definition read_dir :: "bytes \<Rightarrow> dir result" where
  "read_dir r =
     (let (n, r1) = read16 r in
      (case ReadFull (unat n) r1 of (bs, Some e, _) \<Rightarrow> Inl e | (bs, None, _) \<Rightarrow> unmarshalDir bs))"

text \<open>The \<open>switch\<close> of \<open>Unmarshal\<close>, on the reader after type and tag.\<close>

definition unmarshal_fields :: "fcall \<Rightarrow> bytes \<Rightarrow> fcall result" where
  "unmarshal_fields f r =
     (let t = ftype f in
      if t = TVERSION \<or> t = RVERSION then
        (let (m, r) = read32 r; (v, r) = readString r in Inr (f\<lparr>fmsize := m, fversion := v\<rparr>))
      else if t = TATTACH then
        (let (i, r) = read32 r; (a, r) = read32 r; (u, r) = readString r; (n, r) = readString r
         in Inr (f\<lparr>ffid := i, fafid := a, funame := u, faname := n\<rparr>))
      else if t = RATTACH then (let (q, r) = readQID r in Inr (f\<lparr>fqid := q\<rparr>))
      else if t = TWALK then
        (let (i, r) = read32 r; (j, r) = read32 r; (n, r) = read16 r;
             (ns, r) = read_n readString (unat n) r
         in Inr (f\<lparr>ffid := i, fnewfid := j, fwnames := ns\<rparr>))
      else if t = RWALK then
        (let (n, r) = read16 r; (qs, r) = read_n readQID (unat n) r in Inr (f\<lparr>fwqids := qs\<rparr>))
      else if t = TOPEN then
        (let (i, r) = read32 r; (m, r) = read8 r in Inr (f\<lparr>ffid := i, fmode := m\<rparr>))
      else if t = ROPEN \<or> t = RCREATE then
        (let (q, r) = readQID r; (u, r) = read32 r in Inr (f\<lparr>fqid := q, fiounit := u\<rparr>))
      else if t = TCREATE then
        (let (i, r) = read32 r; (n, r) = readString r; (p, r) = read32 r; (m, r) = read8 r
         in Inr (f\<lparr>ffid := i, fname := n, fperm := p, fmode := m\<rparr>))
      else if t = TREAD then
        (let (i, r) = read32 r; (off, r) = read64 r; (c, r) = read32 r
         in Inr (f\<lparr>ffid := i, foffset := off, fcount := c\<rparr>))
      else if t = RREAD then bind_result (read_data r) (\<lambda>bs. Inr (f\<lparr>fdata := bs\<rparr>))
      else if t = TWRITE then
        (let (i, r) = read32 r; (off, r) = read64 r
         in bind_result (read_data r) (\<lambda>bs. Inr (f\<lparr>ffid := i, foffset := off, fdata := bs\<rparr>)))
      else if t = RWRITE then (let (c, r) = read32 r in Inr (f\<lparr>fcount := c\<rparr>))
      else if t = TCLUNK \<or> t = TREMOVE \<or> t = TSTAT then
        (let (i, r) = read32 r in Inr (f\<lparr>ffid := i\<rparr>))
      else if t = TWSTAT then
        (let (i, r) = read32 r
         in bind_result (read_dir r) (\<lambda>d. Inr (f\<lparr>ffid := i, fdir := Some d\<rparr>)))
      else if t = RSTAT then bind_result (read_dir r) (\<lambda>d. Inr (f\<lparr>fdir := Some d\<rparr>))
      else if t = RERROR then (let (e, r) = readString r in Inr (f\<lparr>fename := e\<rparr>))
      else if t = RCLUNK \<or> t = RREMOVE \<or> t = RWSTAT then Inr f
      else Inl (unsupported_fcall t))"

definition Unmarshal :: "bytes \<Rightarrow> fcall result" where
  "Unmarshal data =
     (if length data < 7 then Inl IoErrUnexpectedEOF
      else if get_le (take 4 data) \<noteq> length data
      then Inl (ErrorString (''invalid size '' @ string_of_nat (length data)))
      else (let (t, r) = read8 (drop 4 data); (tag, r) = read16 r
            in unmarshal_fields (zero_fcall\<lparr>ftype := t, ftag := tag\<rparr>) r))"


subsection \<open>Every field can be read back\<close>

definition str_ok :: "string \<Rightarrow> bool" where
  "str_ok s \<longleftrightarrow> length s < 65536"

lemma read_uint_put_le [wire_simps]:
  "read_uint k (put_le k v @ r) = (v mod 256 ^ k, r)"
  by (simp add: read_uint_def)

interpretation w8: wire_codec write8 read8 "\<lambda>_. True"
  by unfold_locales (simp add: read8_def write8_def read_uint_put_le del: put_le.simps)

interpretation w16: wire_codec write16 read16 "\<lambda>_. True"
  by unfold_locales (simp add: read16_def write16_def read_uint_put_le)

interpretation w32: wire_codec write32 read32 "\<lambda>_. True"
  by unfold_locales (simp add: read32_def write32_def read_uint_put_le)

interpretation w64: wire_codec write64 read64 "\<lambda>_. True"
  by unfold_locales (simp add: read64_def write64_def read_uint_put_le)

lemmas word_fields [wire_simps] =
  w8.get_put w16.get_put w32.get_put w64.get_put
  w8.get_put_end w16.get_put_end w32.get_put_end w64.get_put_end

lemma length_writes [simp]:
  "length (write8 a) = 1" "length (write16 b) = 2" "length (write32 c) = 4"
  "length (write64 d) = 8" "length (writeQID q) = 13" "length (writeString s) = 2 + length s"
  by (simp_all add: write8_def write16_def write32_def write64_def writeQID_def writeString_def)

lemma write16_not_Nil [simp]: "write16 b \<noteq> []"
  using length_writes(2) [of b] by fastforce

lemma unat_of_nat_len16: "n < 65536 \<Longrightarrow> unat (of_nat n :: u16) = n"
  by (simp add: unat_of_nat_mod)

lemma unat_of_nat_len32: "n < 4294967296 \<Longrightarrow> unat (of_nat n :: u32) = n"
  by (simp add: unat_of_nat_mod)

lemmas field_lengths = unat_of_nat_len16 unat_of_nat_len32

interpretation wstr: wire_codec writeString readString str_ok
  by unfold_locales
    (simp add: readString_def writeString_def str_ok_def w16.get_put unat_of_nat_len16)

interpretation wqid: wire_codec writeQID readQID "\<lambda>_. True"
  by unfold_locales (simp add: readQID_def writeQID_def w8.get_put w32.get_put w64.get_put)

lemmas compound_fields [wire_simps] =
  wstr.get_put wqid.get_put wstr.get_put_end wqid.get_put_end
  wstr.read_n_put wstr.read_n_put_end

lemma read_n_QIDs [wire_simps]:
  "read_n readQID (length qs) (concat (map writeQID qs) @ r) = (qs, r)"
  "read_n readQID (length qs) (concat (map writeQID qs)) = (qs, [])"
  by (simp_all add: wqid.read_n_put wqid.read_n_put_end list_all_iff)

subsection \<open>Directory entries are read back\<close>

definition dir_ok :: "dir \<Rightarrow> bool" where
  "dir_ok d \<longleftrightarrow> str_ok (dname d) \<and> str_ok (duid d) \<and> str_ok (dgid d) \<and> str_ok (dmuid d) \<and>
     length (dir_body d) < 65536"

lemma marshalDir_Some: "marshalDir (Some d) = Inr (write16 (of_nat (length (dir_body d))) @ dir_body d)"
  by (simp add: marshalDir_def)

lemma unmarshalDir_body [wire_simps]:
  assumes "dir_ok d"
  shows "unmarshalDir (write16 n @ dir_body d) = Inr d"
  using assms by (simp add: unmarshalDir_def dir_body_def dir_ok_def wire_simps)


lemma ParseDirEntries_entry:
  assumes "dir_ok d"
  shows "ParseDirEntries_from ds (write16 (of_nat (length (dir_body d))) @ dir_body d @ rest) =
    ParseDirEntries_from (ds @ [d]) rest"
proof -
  let ?h = "write16 (of_nat (length (dir_body d)))"
  have "get_le (take 2 (?h @ dir_body d @ rest)) = length (dir_body d)"
    using assms by (simp add: write16_def dir_ok_def unat_of_nat_len16 del: put_le.simps)
  moreover have "take (2 + length (dir_body d)) (?h @ dir_body d @ rest) = ?h @ dir_body d"
    and "drop (2 + length (dir_body d)) (?h @ dir_body d @ rest) = rest"
    by simp_all
  ultimately show ?thesis
    using assms by (subst ParseDirEntries_from.simps) (simp add: unmarshalDir_body)
qed

definition encode_dirs :: "dir list \<Rightarrow> bytes" where
  "encode_dirs ds = concat (map (\<lambda>d. projr (EncodeDir (Some d))) ds)"

lemma encode_dirs_simps [simp]:
  "encode_dirs [] = []"
  "encode_dirs (d # ds) = write16 (of_nat (length (dir_body d))) @ dir_body d @ encode_dirs ds"
  by (simp_all add: encode_dirs_def EncodeDir_def marshalDir_Some)

lemma ParseDirEntries_from_encode_dirs:
  "list_all dir_ok ds \<Longrightarrow>
   ParseDirEntries_from acc (encode_dirs ds @ rest) = ParseDirEntries_from (acc @ ds) rest"
  by (induction ds arbitrary: acc) (simp_all add: ParseDirEntries_entry)

lemma ParseDirEntries_truncated:
  assumes "dir_ok d" and "0 < k" and "k < 2 + length (dir_body d)"
  shows "\<exists>e. ParseDirEntries_from acc
    (take k (write16 (of_nat (length (dir_body d))) @ dir_body d)) = Inl e"
proof (cases "k < 2")
  case True
  with assms(2) show ?thesis by (subst ParseDirEntries_from.simps) auto
next
  case False
  let ?h = "write16 (of_nat (length (dir_body d)))"
  have t: "take k (?h @ dir_body d) = ?h @ take (k - 2) (dir_body d)"
    using False by simp
  have "get_le (take 2 (?h @ take (k - 2) (dir_body d))) = length (dir_body d)"
    using assms(1) by (simp add: write16_def dir_ok_def unat_of_nat_len16 del: put_le.simps)
  moreover have "k - 2 < length (dir_body d)"
    using assms(3) False by simp
  ultimately show ?thesis
    unfolding t by (subst ParseDirEntries_from.simps) (simp add: Let_def)
qed

subsection \<open>Messages are read back\<close>

text \<open>
  The fields a message of each type carries; every other field has its zero value. A
  missing directory entry is sent as no bytes at all and comes back as the zero entry.
\<close>

definition wire_view :: "fcall \<Rightarrow> fcall" where
  "wire_view f =
     (let t = ftype f; z = zero_fcall\<lparr>ftype := t, ftag := ftag f\<rparr> in
      if t = TVERSION \<or> t = RVERSION then z\<lparr>fmsize := fmsize f, fversion := fversion f\<rparr>
      else if t = TATTACH then
        z\<lparr>ffid := ffid f, fafid := fafid f, funame := funame f, faname := faname f\<rparr>
      else if t = RATTACH then z\<lparr>fqid := fqid f\<rparr>
      else if t = TWALK then z\<lparr>ffid := ffid f, fnewfid := fnewfid f, fwnames := fwnames f\<rparr>
      else if t = RWALK then z\<lparr>fwqids := fwqids f\<rparr>
      else if t = TOPEN then z\<lparr>ffid := ffid f, fmode := fmode f\<rparr>
      else if t = ROPEN \<or> t = RCREATE then z\<lparr>fqid := fqid f, fiounit := fiounit f\<rparr>
      else if t = TCREATE then
        z\<lparr>ffid := ffid f, fname := fname f, fperm := fperm f, fmode := fmode f\<rparr>
      else if t = TREAD then z\<lparr>ffid := ffid f, foffset := foffset f, fcount := fcount f\<rparr>
      else if t = RREAD then z\<lparr>fdata := fdata f\<rparr>
      else if t = TWRITE then z\<lparr>ffid := ffid f, foffset := foffset f, fdata := fdata f\<rparr>
      else if t = RWRITE then z\<lparr>fcount := fcount f\<rparr>
      else if t = TCLUNK \<or> t = TREMOVE \<or> t = TSTAT then z\<lparr>ffid := ffid f\<rparr>
      else if t = TWSTAT then
        z\<lparr>ffid := ffid f, fdir := Some (case fdir f of None \<Rightarrow> zero_dir | Some d \<Rightarrow> d)\<rparr>
      else if t = RSTAT then z\<lparr>fdir := Some (case fdir f of None \<Rightarrow> zero_dir | Some d \<Rightarrow> d)\<rparr>
      else if t = RERROR then z\<lparr>fename := fename f\<rparr>
      else z)"

definition sent_dir_ok :: "dir option \<Rightarrow> bool" where
  "sent_dir_ok od = (case od of None \<Rightarrow> True | Some d \<Rightarrow> dir_ok d \<and> length (dir_body d) + 2 < 65536)"

text \<open>The length limits that the 16-bit counts of the format impose on each type.\<close>

definition fcall_ok :: "fcall \<Rightarrow> bool" where
  "fcall_ok f =
     (let t = ftype f in
      if t = TVERSION \<or> t = RVERSION then str_ok (fversion f)
      else if t = TATTACH then str_ok (funame f) \<and> str_ok (faname f)
      else if t = TWALK then length (fwnames f) < 65536 \<and> list_all str_ok (fwnames f)
      else if t = RWALK then length (fwqids f) < 65536
      else if t = TCREATE then str_ok (fname f)
      else if t = TWSTAT \<or> t = RSTAT then sent_dir_ok (fdir f)
      else if t = RERROR then str_ok (fename f)
      else True)"

lemma read_data_written [wire_simps]:
  "length bs < 4294967296 \<Longrightarrow> read_data (write32 (of_nat (length bs)) @ bs) = Inr bs"
  using ReadFull_append [of bs "length bs" "[]"]
  by (simp add: read_data_def w32.get_put unat_of_nat_len32 del: ReadFull_append)

lemma unmarshalDir_Nil: "unmarshalDir [] = Inr zero_dir"
  by (simp add: unmarshalDir_def zero_dir_def zero_qid_def read16_def read32_def read64_def read8_def
      readQID_def readString_def read_uint_def ReadFull_def)

lemma read_dir_written:
  assumes "sent_dir_ok od" and "marshalDir od = Inr bs"
  shows "read_dir (write16 (of_nat (length bs)) @ bs) =
    Inr (case od of None \<Rightarrow> zero_dir | Some d \<Rightarrow> d)"
proof (cases od)
  case None
  with assms show ?thesis
    by (simp add: marshalDir_def read_dir_def w16.get_put_end ReadFull_def unmarshalDir_Nil)
next
  case (Some d)
  with assms have bs: "bs = write16 (of_nat (length (dir_body d))) @ dir_body d"
    and ok: "dir_ok d" and len: "length bs < 65536"
    by (auto simp: marshalDir_Some sent_dir_ok_def)
  have "ReadFull (length bs) bs = (bs, None, [])"
    by (simp add: ReadFull_def)
  with Some ok len show ?thesis
    by (simp add: read_dir_def w16.get_put unat_of_nat_len16) (simp add: bs unmarshalDir_body)
qed

lemma marshalDir_Inr: "\<exists>bs. marshalDir od = Inr bs"
  by (cases od) (simp_all add: marshalDir_def Let_def)

text \<open>Every message has one of the types of \<open>types.go\<close> or is unsupported.\<close>

definition supported_types :: "u8 list" where
  "supported_types = [TVERSION, RVERSION, TATTACH, RATTACH, RERROR, TWALK, RWALK, TOPEN, ROPEN,
     TCREATE, RCREATE, TREAD, RREAD, TWRITE, RWRITE, TCLUNK, RCLUNK, TREMOVE, RREMOVE, TSTAT,
     RSTAT, TWSTAT, RWSTAT]"

lemma marshal_fields_unsupported:
  "ftype f \<notin> set supported_types \<Longrightarrow> marshal_fields f = Inl (unsupported_fcall (ftype f))"
  by (simp add: marshal_fields_def supported_types_def Let_def)

lemma unmarshal_fields_unsupported:
  "ftype f \<notin> set supported_types \<Longrightarrow> unmarshal_fields f r = Inl (unsupported_fcall (ftype f))"
  by (simp add: unmarshal_fields_def supported_types_def Let_def)

lemma zero_fcall_type [simp]: "ftype (zero_fcall\<lparr>ftype := t, ftag := g\<rparr>) = t"
  by simp

lemmas message_defs =
  marshal_fields_def unmarshal_fields_def wire_view_def fcall_ok_def msg_types

lemma unmarshal_fields_dir:
  assumes "ftype f = TWSTAT \<or> ftype f = RSTAT" and "fcall_ok f" and "marshal_fields f = Inr bs"
  shows "unmarshal_fields (zero_fcall\<lparr>ftype := ftype f, ftag := ftag f\<rparr>) bs = Inr (wire_view f)"
proof -
  obtain d where d: "marshalDir (fdir f) = Inr d" using marshalDir_Inr by blast
  from assms(1,2) have ok: "sent_dir_ok (fdir f)"
    by (auto simp: fcall_ok_def msg_types)
  from assms(1) show ?thesis
  proof
    assume t: "ftype f = TWSTAT"
    with assms(3) d have "bs = write32 (ffid f) @ write16 (of_nat (length d)) @ d"
      by (simp add: marshal_fields_def msg_types)
    with t show ?thesis
      by (simp add: unmarshal_fields_def wire_view_def msg_types w32.get_put read_dir_written [OF ok d])
  next
    assume t: "ftype f = RSTAT"
    with assms(3) d have "bs = write16 (of_nat (length d)) @ d"
      by (simp add: marshal_fields_def msg_types)
    with t show ?thesis
      by (simp add: unmarshal_fields_def wire_view_def msg_types read_dir_written [OF ok d])
  qed
qed

lemma unmarshal_fields_data:
  assumes "ftype f = RREAD \<or> ftype f = TWRITE" and "marshal_fields f = Inr bs"
    and "length bs < 4294967296"
  shows "unmarshal_fields (zero_fcall\<lparr>ftype := ftype f, ftag := ftag f\<rparr>) bs = Inr (wire_view f)"
  using assms(1)
proof
  assume t: "ftype f = RREAD"
  with assms(2) have bs: "bs = write32 (of_nat (length (fdata f))) @ fdata f"
    by (simp add: marshal_fields_def msg_types)
  with assms(3) have "read_data bs = Inr (fdata f)" by (simp add: read_data_written)
  with t show ?thesis
    by (simp add: unmarshal_fields_def wire_view_def msg_types)
next
  assume t: "ftype f = TWRITE"
  with assms(2) have bs: "bs = write32 (ffid f) @ write64 (foffset f) @
      write32 (of_nat (length (fdata f))) @ fdata f"
    by (simp add: marshal_fields_def msg_types)
  with assms(3) t show ?thesis
    by (simp add: unmarshal_fields_def wire_view_def msg_types w32.get_put w64.get_put read_data_written)
qed

lemma unmarshal_fields_written:
  assumes "fcall_ok f" and "marshal_fields f = Inr bs" and "length bs < 4294967296"
  shows "unmarshal_fields (zero_fcall\<lparr>ftype := ftype f, ftag := ftag f\<rparr>) bs = Inr (wire_view f)"
proof -
  have "ftype f \<in> set supported_types"
    using assms(2) marshal_fields_unsupported [of f] by auto
  then consider "ftype f = TWSTAT \<or> ftype f = RSTAT" | "ftype f = RREAD \<or> ftype f = TWRITE"
    | "ftype f \<in> {TVERSION, RVERSION, TATTACH, RATTACH, RERROR, TWALK, RWALK, TOPEN}"
    | "ftype f \<in> {ROPEN, TCREATE, RCREATE, TREAD, RWRITE, TCLUNK, RCLUNK}"
    | "ftype f \<in> {TREMOVE, RREMOVE, TSTAT, RWSTAT}"
    unfolding supported_types_def by auto
  then show ?thesis
  proof cases
    case 1
    then show ?thesis using assms(1,2) by (rule unmarshal_fields_dir)
  next
    case 2
    then show ?thesis using assms(2,3) by (rule unmarshal_fields_data)
  next
    case 3
    then show ?thesis using assms(1,2) unfolding insert_iff empty_iff simp_thms
      by (elim disjE) (auto simp: message_defs wire_simps unat_of_nat_len16)
  next
    case 4
    then show ?thesis using assms(1,2) unfolding insert_iff empty_iff simp_thms
      by (elim disjE) (auto simp: message_defs wire_simps)
  next
    case 5
    then show ?thesis using assms(1,2) unfolding insert_iff empty_iff simp_thms
      by (elim disjE) (auto simp: message_defs wire_simps)
  qed
qed


lemma Marshal_Inr:
  "Marshal f = Inr d \<longleftrightarrow>
     (\<exists>bs. marshal_fields f = Inr bs \<and>
        d = write32 (of_nat (7 + length bs)) @ write8 (ftype f) @ write16 (ftag f) @ bs)"
  by (auto simp: Marshal_def bind_result_eq_Inr Let_def add.commute)

lemma marshal_fields_supported:
  assumes "ftype f \<in> set supported_types"
  shows "\<exists>bs. marshal_fields f = Inr bs"
proof -
  obtain d where "marshalDir (fdir f) = Inr d" using marshalDir_Inr by blast
  with assms show ?thesis
    unfolding supported_types_def list.set insert_iff empty_iff simp_thms
    by (elim disjE) (simp_all add: marshal_fields_def msg_types)
qed

lemma Marshal_length: "Marshal f = Inr d \<Longrightarrow> 7 \<le> length d"
  by (auto simp: Marshal_Inr)

lemma Marshal_size_prefix:
  "Marshal f = Inr d \<Longrightarrow> length d < 4294967296 \<Longrightarrow> get_le (take 4 d) = length d"
  by (auto simp: Marshal_Inr write32_def unat_of_nat_len32 simp del: put_le.simps of_nat_add)

lemma Unmarshal_Marshal:
  assumes "fcall_ok f" and "Marshal f = Inr d" and "length d < 4294967296"
  shows "Unmarshal d = Inr (wire_view f)"
proof -
  from assms(2) obtain bs where bs: "marshal_fields f = Inr bs"
    and d: "d = write32 (of_nat (7 + length bs)) @ write8 (ftype f) @ write16 (ftag f) @ bs"
    by (auto simp: Marshal_Inr)
  from assms(3) d have "length bs < 4294967296" by simp
  with assms(1) bs have "unmarshal_fields (zero_fcall\<lparr>ftype := ftype f, ftag := ftag f\<rparr>) bs =
      Inr (wire_view f)"
    by (rule unmarshal_fields_written)
  moreover have "drop 4 d = write8 (ftype f) @ write16 (ftag f) @ bs"
    by (simp add: d)
  ultimately show ?thesis
    using Marshal_length [OF assms(2)] Marshal_size_prefix [OF assms(2,3)]
    by (simp add: Unmarshal_def w8.get_put w16.get_put)
qed

subsection \<open>Properties\<close>

text \<open>
  Property C12: \<open>Unmarshal\<close> inverts \<open>Marshal\<close>. A message whose strings and counts fit
  their 16-bit length fields and whose encoding fits the 32-bit size field is decoded to
  exactly the fields its type carries, with the same type and tag.
\<close>

theorem unmarshal_marshal_roundtrip:
  assumes "fcall_ok f" and "Marshal f = Inr d" and "length d < 2 ^ 32"
  shows "Unmarshal d = Inr (wire_view f)"
  using assms by (simp add: Unmarshal_Marshal)

definition example_walk :: fcall where
  "example_walk = zero_fcall\<lparr>ftype := TWALK, ftag := 7, ffid := 1, fnewfid := 2,
     fwnames := [''lib'', ''profile'']\<rparr>"

theorem unmarshal_marshal_roundtrip_witness:
  "\<exists>d. Marshal example_walk = Inr d \<and> Unmarshal d = Inr (wire_view example_walk) \<and>
     wire_view example_walk = example_walk"
proof -
  have ok: "fcall_ok example_walk"
    by (simp add: fcall_ok_def example_walk_def msg_types str_ok_def)
  have m: "Marshal example_walk = Inr (write32 31 @ write8 TWALK @ write16 7 @ write32 1 @ write32 2 @
      write16 2 @ writeString ''lib'' @ writeString ''profile'')" (is "_ = Inr ?d")
    by (simp add: Marshal_def marshal_fields_def example_walk_def msg_types)
  have "length ?d < 2 ^ 32" by simp
  from unmarshal_marshal_roundtrip [OF ok m this] m show ?thesis
    by (simp add: wire_view_def example_walk_def msg_types zero_fcall_def)
qed

text \<open>
  The frame of every message. \<open>Marshal\<close> fails exactly on the types it does
  not know, and otherwise the first four bytes hold the total length, which is at least
  seven, so a reader that trusts them reads exactly the message.
\<close>

lemma marshal_frame:
  "(if ftype f \<in> set supported_types
    then \<exists>d. Marshal f = Inr d \<and> 7 \<le> length d \<and> get_le (take 4 d) = length d mod 2 ^ 32
    else Marshal f = Inl (unsupported_fcall (ftype f)))"
proof (cases "ftype f \<in> set supported_types")
  case True
  then obtain bs where bs: "marshal_fields f = Inr bs" using marshal_fields_supported by blast
  let ?d = "write32 (of_nat (7 + length bs)) @ write8 (ftype f) @ write16 (ftag f) @ bs"
  have "Marshal f = Inr ?d" using bs by (simp add: Marshal_Inr)
  moreover have "get_le (take 4 ?d) = (7 + length bs) mod 2 ^ 32"
    by (simp add: write32_def unat_of_nat_mod del: put_le.simps of_nat_add)
  moreover have "length ?d = 7 + length bs" by simp
  ultimately show ?thesis using True by (metis le_add1)
next
  case False
  then show ?thesis by (simp add: Marshal_def marshal_fields_unsupported)
qed

text \<open>
  Property C24: \<open>ParseDirEntries\<close> reads a directory back. The concatenation of encoded
  entries parses to the entries in order, and if the data stops inside a further entry the
  call fails instead of returning a shorter listing.
\<close>

theorem parse_dir_entries_encoded:
  assumes "list_all dir_ok ds" and "dir_ok d" and "EncodeDir (Some d) = Inr enc"
    and "0 < k" and "k < length enc"
  shows "ParseDirEntries (encode_dirs ds) = Inr ds \<and>
    (\<exists>e. ParseDirEntries (encode_dirs ds @ take k enc) = Inl e)"
proof -
  from assms(3) have enc: "enc = write16 (of_nat (length (dir_body d))) @ dir_body d"
    by (simp add: EncodeDir_def marshalDir_Some)
  have "\<exists>e. ParseDirEntries_from ds (take k enc) = Inl e"
    unfolding enc using assms(2,4,5) by (intro ParseDirEntries_truncated) (simp_all add: enc)
  moreover have "ParseDirEntries (encode_dirs ds @ rest) = ParseDirEntries_from ds rest" for rest
    using assms(1) by (simp add: ParseDirEntries_def ParseDirEntries_from_encode_dirs)
  ultimately show ?thesis
    by (metis ParseDirEntries_from.simps append_Nil2)
qed

definition example_dir :: dir where
  "example_dir = zero_dir\<lparr>dmode := 0x800001ED, dlength := 5, dname := ''src'', duid := ''glenda''\<rparr>"

theorem parse_dir_entries_encoded_witness:
  "\<exists>enc. EncodeDir (Some example_dir) = Inr enc \<and>
     ParseDirEntries (encode_dirs [example_dir, example_dir]) = Inr [example_dir, example_dir] \<and>
     (\<exists>e. ParseDirEntries (encode_dirs [example_dir, example_dir] @ take 20 enc) = Inl e)"
proof -
  have ok: "dir_ok example_dir"
    by (simp add: dir_ok_def example_dir_def zero_dir_def str_ok_def dir_body_def)
  then have oks: "list_all dir_ok [example_dir, example_dir]" by simp
  obtain enc where enc: "EncodeDir (Some example_dir) = Inr enc"
    by (simp add: EncodeDir_def marshalDir_Some)
  then have "20 < length enc"
    by (auto simp: EncodeDir_def marshalDir_Some dir_body_def)
  with parse_dir_entries_encoded [OF oks ok enc, of 20] enc show ?thesis by simp
qed

text \<open>
  What a string field does to any string. The 16-bit length field wraps, so
  the reader returns the first \<open>len(s) mod 65536\<close> bytes and leaves the rest of the string
  in the stream to be read as the next field.
\<close>

lemma write_string_wraps:
  "readString (writeString s @ r) =
     (take (length s mod 65536) s, drop (length s mod 65536) s @ r)"
  by (simp add: readString_def writeString_def w16.get_put unat_of_nat_mod ReadFull_def Let_def)

end
