(* ===== verification/Go_Conn.thy ===== *)
theory Go_Conn
  imports Go_Binary
begin

text \<open>
  A byte-stream connection (\<open>net.Conn\<close>, \<open>io.ReadWriteCloser\<close>) together with the
  \<open>bufio.Reader\<close> in front of it. The program at the other end is not part of the
  repository: it is a parameter, a function from its state and the bytes of one write to
  the outcome of that write and the bytes it sends back. The bytes the peer has sent and
  the program has not consumed yet are \<open>inbuf\<close>; a read that finds too few of them ends
  with \<open>rderr\<close>, which is \<open>io.EOF\<close> after an orderly close. A peer that neither answers
  nor closes leaves the real program blocked in the read, a case the model does not have.
\<close>

record 'p conn =
  peer :: 'p
  inbuf :: bytes
  rderr :: go_error
  closed :: bool

type_synonym 'p peer_fn = "'p \<Rightarrow> bytes \<Rightarrow> go_error option \<times> bytes \<times> 'p"

definition conn_write :: "'p peer_fn \<Rightarrow> bytes \<Rightarrow> 'p conn \<Rightarrow> go_error option \<times> 'p conn" where
  "conn_write react data c =
     (if closed c then (Some NetErrClosed, c)
      else (let (e, out, p) = react (peer c) data
            in (e, c\<lparr>peer := p, inbuf := inbuf c @ out\<rparr>)))"

definition conn_ReadFull :: "nat \<Rightarrow> 'p conn \<Rightarrow> bytes result \<times> 'p conn" where
  "conn_ReadFull n c =
     (if n \<le> length (inbuf c) then (Inr (take n (inbuf c)), c\<lparr>inbuf := drop n (inbuf c)\<rparr>)
      else if closed c then (Inl NetErrClosed, c)
      else (Inl (if rderr c = IoEOF \<and> inbuf c \<noteq> [] then IoErrUnexpectedEOF else rderr c),
            c\<lparr>inbuf := []\<rparr>))"

definition conn_close :: "'p conn \<Rightarrow> 'p conn" where
  "conn_close c = c\<lparr>closed := True\<rparr>"

lemma conn_close_simps [simp]:
  "closed (conn_close c)" "peer (conn_close c) = peer c"
  by (simp_all add: conn_close_def)

lemma conn_write_closed [simp]: "closed c \<Longrightarrow> conn_write react d c = (Some NetErrClosed, c)"
  by (simp add: conn_write_def)

lemma conn_ReadFull_exact:
  "inbuf c = bs @ r \<Longrightarrow> length bs = n \<Longrightarrow> conn_ReadFull n c = (Inr bs, c\<lparr>inbuf := r\<rparr>)"
  by (simp add: conn_ReadFull_def)

lemma conn_write_keeps_closed [simp]: "closed (snd (conn_write react d c)) = closed c"
  by (simp add: conn_write_def split: prod.splits)

lemma conn_ReadFull_keeps [simp]:
  "closed (snd (conn_ReadFull n c)) = closed c" "peer (snd (conn_ReadFull n c)) = peer c"
  by (simp_all add: conn_ReadFull_def)

text \<open>A read consumes a prefix of what the peer has sent, never more.\<close>

lemma conn_ReadFull_Inr:
  assumes "conn_ReadFull n c = (Inr bs, c')"
  shows "length bs = n \<and> inbuf c = bs @ inbuf c' \<and> closed c' = closed c \<and> peer c' = peer c"
  using assms by (auto simp: conn_ReadFull_def split: if_splits)

end
