(* ===== verification/Ninep_Client.thy ===== *)
theory Ninep_Client
  imports Ninep_Codec Go_Conn
begin

text \<open>
  The 9P client of \<open>internal/ninep/client.go\<close>: one connection, a fid and a tag
  allocator, and one remote procedure call per operation. Every operation takes the state
  of the client and returns it updated; the context argument is the value of
  \<open>ctx.Err()\<close> when the call is made. The mutex makes each allocation and each call
  atomic, so a run of the client is a sequence of these operations.
\<close>

unbundle bit_operations_syntax

record 'p nclient =
  rw :: "'p conn"
  msize :: u32
  tag :: u16
  fid :: u32

type_synonym ctx = "go_error option"

definition NewClient :: "'p conn \<Rightarrow> 'p nclient" where
  "NewClient c = \<lparr>rw = c, msize = 8192, tag = 1, fid = 2\<rparr>"

definition Close :: "'p nclient \<Rightarrow> 'p nclient" where
  "Close c = c\<lparr>rw := conn_close (rw c)\<rparr>"

definition AllocFID :: "'p nclient \<Rightarrow> u32 \<times> 'p nclient" where
  "AllocFID c =
     (let f = fid c; c1 = c\<lparr>fid := fid c + 1\<rparr>;
          c2 = (if fid c1 = NOFID then c1\<lparr>fid := 2\<rparr> else c1)
      in (f, c2))"

definition nextTag :: "'p nclient \<Rightarrow> u16 \<times> 'p nclient" where
  "nextTag c =
     (let t = tag c; c1 = c\<lparr>tag := tag c + 1\<rparr>;
          c2 = (if tag c1 = NOTAG then c1\<lparr>tag := 1\<rparr> else c1)
      in (t, c2))"

text \<open>The size prefix, assembled from its four bytes as the source does.\<close>

definition frame_size :: "bytes \<Rightarrow> u32" where
  "frame_size b =
     (of_nat (byte_val (b ! 0)) OR push_bit 8 (of_nat (byte_val (b ! 1)))
      OR push_bit 16 (of_nat (byte_val (b ! 2))) OR push_bit 24 (of_nat (byte_val (b ! 3))))"

definition rpc :: "'p peer_fn \<Rightarrow> ctx \<Rightarrow> fcall \<Rightarrow> 'p nclient \<Rightarrow> fcall result \<times> 'p nclient" where
  "rpc react ctx req c =
     (case ctx of Some e \<Rightarrow> (Inl e, c) | None \<Rightarrow>
      (case Marshal req of Inl e \<Rightarrow> (Inl e, c) | Inr data \<Rightarrow>
       (case conn_write react data (rw c) of (Some e, k) \<Rightarrow> (Inl e, c\<lparr>rw := k\<rparr>) | (None, k) \<Rightarrow>
        (case conn_ReadFull 4 k of (Inl e, k) \<Rightarrow> (Inl e, c\<lparr>rw := k\<rparr>) | (Inr sizeBuf, k) \<Rightarrow>
         (let size = unat (frame_size sizeBuf) in
          if size < 4 then (Inl (Panic ''makeslice: len out of range''), c\<lparr>rw := k\<rparr>)
          else (case conn_ReadFull (size - 4) k of
             (Inl e, k) \<Rightarrow> (Inl e, c\<lparr>rw := k\<rparr>)
           | (Inr body, k) \<Rightarrow>
              (case Unmarshal (sizeBuf @ body) of
                 Inl e \<Rightarrow> (Inl e, c\<lparr>rw := k\<rparr>)
               | Inr resp \<Rightarrow>
                   (if ftype resp = RERROR
                    then (Inl (ErrorString (''9p error: '' @ fename resp)), c\<lparr>rw := k\<rparr>)
                    else (Inr resp, c\<lparr>rw := k\<rparr>)))))))))"

subsection \<open>One operation per message\<close>

definition tagged_rpc ::
  "'p peer_fn \<Rightarrow> ctx \<Rightarrow> (u16 \<Rightarrow> fcall) \<Rightarrow> 'p nclient \<Rightarrow> fcall result \<times> 'p nclient" where
  "tagged_rpc react ctx mk c = (let (t, c1) = nextTag c in rpc react ctx (mk t) c1)"

definition map_reply :: "(fcall \<Rightarrow> 'a) \<Rightarrow> fcall result \<times> 'p nclient \<Rightarrow> 'a result \<times> 'p nclient" where
  "map_reply g = (\<lambda>(r, c). (case r of Inl e \<Rightarrow> Inl e | Inr f \<Rightarrow> Inr (g f), c))"

definition version_msg :: "u32 \<Rightarrow> string \<Rightarrow> fcall" where
  "version_msg m v = zero_fcall\<lparr>ftype := TVERSION, ftag := NOTAG, fmsize := m, fversion := v\<rparr>"

definition Version :: "'p peer_fn \<Rightarrow> ctx \<Rightarrow> string \<Rightarrow> 'p nclient \<Rightarrow> unit result \<times> 'p nclient" where
  "Version react ctx v c = map_reply (\<lambda>_. ()) (rpc react ctx (version_msg (msize c) v) c)"

definition attach_msg :: "u32 \<Rightarrow> string \<Rightarrow> string \<Rightarrow> u16 \<Rightarrow> fcall" where
  "attach_msg i user aname t = zero_fcall\<lparr>ftype := TATTACH, ftag := t, ffid := i, fafid := NOFID,
     funame := user, faname := aname\<rparr>"

definition Attach ::
  "'p peer_fn \<Rightarrow> ctx \<Rightarrow> u32 \<Rightarrow> string \<Rightarrow> string \<Rightarrow> 'p nclient \<Rightarrow> unit result \<times> 'p nclient" where
  "Attach react ctx i user aname c =
     map_reply (\<lambda>_. ()) (tagged_rpc react ctx (attach_msg i user aname) c)"

definition walk_msg :: "u32 \<Rightarrow> u32 \<Rightarrow> string list \<Rightarrow> u16 \<Rightarrow> fcall" where
  "walk_msg i j names t =
     zero_fcall\<lparr>ftype := TWALK, ftag := t, ffid := i, fnewfid := j, fwnames := names\<rparr>"

definition Walk ::
  "'p peer_fn \<Rightarrow> ctx \<Rightarrow> u32 \<Rightarrow> u32 \<Rightarrow> string list \<Rightarrow> 'p nclient \<Rightarrow> qid list result \<times> 'p nclient" where
  "Walk react ctx i j names c = map_reply fwqids (tagged_rpc react ctx (walk_msg i j names) c)"

definition open_msg :: "u32 \<Rightarrow> u8 \<Rightarrow> u16 \<Rightarrow> fcall" where
  "open_msg i m t = zero_fcall\<lparr>ftype := TOPEN, ftag := t, ffid := i, fmode := m\<rparr>"

definition Open ::
  "'p peer_fn \<Rightarrow> ctx \<Rightarrow> u32 \<Rightarrow> u8 \<Rightarrow> 'p nclient \<Rightarrow> (qid \<times> u32) result \<times> 'p nclient" where
  "Open react ctx i m c =
     map_reply (\<lambda>f. (fqid f, fiounit f)) (tagged_rpc react ctx (open_msg i m) c)"

definition create_msg :: "u32 \<Rightarrow> string \<Rightarrow> u32 \<Rightarrow> u8 \<Rightarrow> u16 \<Rightarrow> fcall" where
  "create_msg i name perm m t =
     zero_fcall\<lparr>ftype := TCREATE, ftag := t, ffid := i, fname := name, fperm := perm, fmode := m\<rparr>"

definition Create ::
  "'p peer_fn \<Rightarrow> ctx \<Rightarrow> u32 \<Rightarrow> string \<Rightarrow> u32 \<Rightarrow> u8 \<Rightarrow> 'p nclient \<Rightarrow> (qid \<times> u32) result \<times> 'p nclient" where
  "Create react ctx i name perm m c =
     map_reply (\<lambda>f. (fqid f, fiounit f)) (tagged_rpc react ctx (create_msg i name perm m) c)"

definition read_msg :: "u32 \<Rightarrow> u64 \<Rightarrow> u32 \<Rightarrow> u16 \<Rightarrow> fcall" where
  "read_msg i off count t =
     zero_fcall\<lparr>ftype := TREAD, ftag := t, ffid := i, foffset := off, fcount := count\<rparr>"

definition Read ::
  "'p peer_fn \<Rightarrow> ctx \<Rightarrow> u32 \<Rightarrow> u64 \<Rightarrow> u32 \<Rightarrow> 'p nclient \<Rightarrow> bytes result \<times> 'p nclient" where
  "Read react ctx i off count c = map_reply fdata (tagged_rpc react ctx (read_msg i off count) c)"

definition write_msg :: "u32 \<Rightarrow> u64 \<Rightarrow> bytes \<Rightarrow> u16 \<Rightarrow> fcall" where
  "write_msg i off data t =
     zero_fcall\<lparr>ftype := TWRITE, ftag := t, ffid := i, foffset := off, fdata := data\<rparr>"

definition Write ::
  "'p peer_fn \<Rightarrow> ctx \<Rightarrow> u32 \<Rightarrow> u64 \<Rightarrow> bytes \<Rightarrow> 'p nclient \<Rightarrow> u32 result \<times> 'p nclient" where
  "Write react ctx i off data c = map_reply fcount (tagged_rpc react ctx (write_msg i off data) c)"

definition fid_msg :: "u8 \<Rightarrow> u32 \<Rightarrow> u16 \<Rightarrow> fcall" where
  "fid_msg ty i t = zero_fcall\<lparr>ftype := ty, ftag := t, ffid := i\<rparr>"

definition Clunk :: "'p peer_fn \<Rightarrow> ctx \<Rightarrow> u32 \<Rightarrow> 'p nclient \<Rightarrow> unit result \<times> 'p nclient" where
  "Clunk react ctx i c = map_reply (\<lambda>_. ()) (tagged_rpc react ctx (fid_msg TCLUNK i) c)"

definition Remove :: "'p peer_fn \<Rightarrow> ctx \<Rightarrow> u32 \<Rightarrow> 'p nclient \<Rightarrow> unit result \<times> 'p nclient" where
  "Remove react ctx i c = map_reply (\<lambda>_. ()) (tagged_rpc react ctx (fid_msg TREMOVE i) c)"

definition Stat :: "'p peer_fn \<Rightarrow> ctx \<Rightarrow> u32 \<Rightarrow> 'p nclient \<Rightarrow> dir option result \<times> 'p nclient" where
  "Stat react ctx i c = map_reply fdir (tagged_rpc react ctx (fid_msg TSTAT i) c)"

definition wstat_msg :: "u32 \<Rightarrow> dir option \<Rightarrow> u16 \<Rightarrow> fcall" where
  "wstat_msg i d t = zero_fcall\<lparr>ftype := TWSTAT, ftag := t, ffid := i, fdir := d\<rparr>"

definition Wstat ::
  "'p peer_fn \<Rightarrow> ctx \<Rightarrow> u32 \<Rightarrow> dir option \<Rightarrow> 'p nclient \<Rightarrow> unit result \<times> 'p nclient" where
  "Wstat react ctx i d c = map_reply (\<lambda>_. ()) (tagged_rpc react ctx (wstat_msg i d) c)"

subsection \<open>Identifier allocation\<close>

text \<open>The interface of a wrapping allocator that skips the largest value of its type.\<close>

fun run_alloc :: "('s \<Rightarrow> 'i \<times> 's) \<Rightarrow> nat \<Rightarrow> 's \<Rightarrow> 'i list \<times> 's" where
  "run_alloc alloc 0 s = ([], s)"
| "run_alloc alloc (Suc n) s =
     (let (i, s1) = alloc s; (is, s2) = run_alloc alloc n s1 in (i # is, s2))"

locale id_allocator =
  fixes alloc :: "'s \<Rightarrow> 'w::len word \<times> 's"
    and cur :: "'s \<Rightarrow> 'w word"
    and lowest :: "'w word"
  assumes alloc_id: "fst (alloc s) = cur s"
    and alloc_next: "cur (snd (alloc s)) = (if cur s + 1 = - 1 then lowest else cur s + 1)"
    and lowest_less: "lowest < - 1"
begin

lemma next_unat:
  assumes "lowest \<le> cur s" "cur s < - 1"
  shows "unat (cur (snd (alloc s))) =
     unat lowest + (Suc (unat (cur s)) - unat lowest) mod (unat (- 1 :: 'w word) - unat lowest)"
proof -
  let ?L = "unat lowest" and ?M = "unat (- 1 :: 'w word)" and ?c = "unat (cur s)"
  have lt: "?L \<le> ?c" "?c < ?M" "?L < ?M"
    using assms lowest_less by (auto simp: word_le_nat_alt word_less_nat_alt)
  have "1 + cur s \<noteq> 0"
    using assms(2) by (metis add.commute add.right_inverse add_left_cancel order_less_irrefl)
  then have suc: "unat (cur s + 1) = Suc ?c" using unatSuc by (metis add.commute)
  show ?thesis
  proof (cases "cur s + 1 = - 1")
    case True
    then have "Suc ?c = ?M" using suc by metis
    then show ?thesis using True lt by (simp add: alloc_next)
  next
    case False
    then have "Suc ?c \<noteq> ?M" using suc by (metis word_unat_eq_iff)
    then have "Suc ?c - ?L < ?M - ?L" using lt by simp
    then show ?thesis using False lt suc by (simp add: alloc_next)
  qed
qed

lemma alloc_keeps:
  assumes "lowest \<le> cur s" "cur s < - 1"
  shows "lowest \<le> cur (snd (alloc s)) \<and> cur (snd (alloc s)) < - 1"
proof -
  let ?L = "unat lowest" and ?M = "unat (- 1 :: 'w word)"
  have "?L < ?M" using lowest_less by (simp add: word_less_nat_alt)
  then have "(Suc (unat (cur s)) - ?L) mod (?M - ?L) < ?M - ?L" by simp
  with \<open>?L < ?M\<close> have "?L + (Suc (unat (cur s)) - ?L) mod (?M - ?L) < ?M" by linarith
  with next_unat [OF assms] show ?thesis
    by (simp add: word_le_nat_alt word_less_nat_alt)
qed

lemma run_alloc_length: "length (fst (run_alloc alloc n s)) = n"
  by (induction n arbitrary: s) (auto split: prod.splits, metis fst_conv)

lemma run_alloc_nth:
  assumes "lowest \<le> cur s" "cur s < - 1" "k < n"
  shows "unat (fst (run_alloc alloc n s) ! k) =
    unat lowest + (unat (cur s) - unat lowest + k) mod (unat (- 1 :: 'w word) - unat lowest)"
  using assms
proof (induction n arbitrary: s k)
  case (Suc n)
  let ?L = "unat lowest" and ?P = "unat (- 1 :: 'w word) - unat lowest" and ?s = "snd (alloc s)"
  have run: "fst (run_alloc alloc (Suc n) s) = cur s # fst (run_alloc alloc n ?s)"
    by (simp add: alloc_id [symmetric] split: prod.splits)
  have lt: "?L \<le> unat (cur s)" "unat (cur s) - ?L < ?P"
    using Suc.prems(1,2) lowest_less by (auto simp: word_le_nat_alt word_less_nat_alt)
  show ?case
  proof (cases k)
    case 0
    with lt show ?thesis unfolding run by simp
  next
    case (Suc j)
    have "unat (fst (run_alloc alloc n ?s) ! j) = ?L + (unat (cur ?s) - ?L + j) mod ?P"
      using Suc.IH [of ?s j] alloc_keeps [OF Suc.prems(1,2)] Suc.prems(3) Suc by simp
    also have "unat (cur ?s) - ?L = (Suc (unat (cur s)) - ?L) mod ?P"
      using next_unat [OF Suc.prems(1,2)] by simp
    finally show ?thesis
      using lt Suc unfolding run by (simp add: mod_add_left_eq Suc_diff_le)
  qed
qed simp

lemma run_alloc_in_range:
  assumes "lowest \<le> cur s" "cur s < - 1" "i \<in> set (fst (run_alloc alloc n s))"
  shows "lowest \<le> i \<and> i < - 1"
proof -
  from assms(3) obtain k where k: "k < n" "i = fst (run_alloc alloc n s) ! k"
    by (metis in_set_conv_nth run_alloc_length)
  let ?L = "unat lowest" and ?M = "unat (- 1 :: 'w word)"
  have "?L < ?M" using lowest_less by (simp add: word_less_nat_alt)
  then have "(unat (cur s) - ?L + k) mod (?M - ?L) < ?M - ?L" by simp
  with \<open>?L < ?M\<close> have "?L + (unat (cur s) - ?L + k) mod (?M - ?L) < ?M" by linarith
  with run_alloc_nth [OF assms(1,2) k(1)] k(2) show ?thesis
    by (simp add: word_le_nat_alt word_less_nat_alt)
qed

lemma run_alloc_distinct:
  assumes "lowest \<le> cur s" "cur s < - 1" "n \<le> unat (- 1 :: 'w word) - unat lowest"
  shows "distinct (fst (run_alloc alloc n s))"
proof (rule distinct_conv_nth [THEN iffD2], intro allI impI notI)
  let ?ids = "fst (run_alloc alloc n s)" and ?P = "unat (- 1 :: 'w word) - unat lowest"
  fix i j
  assume ij: "i < length ?ids" "j < length ?ids" "i \<noteq> j" "?ids ! i = ?ids ! j"
  then have "(unat (cur s) - unat lowest + i) mod ?P = (unat (cur s) - unat lowest + j) mod ?P"
    using run_alloc_nth [OF assms(1,2), of i n] run_alloc_nth [OF assms(1,2), of j n]
    by (simp add: run_alloc_length)
  then have "i mod ?P = j mod ?P" by (rule nat_mod_add_left_cancel)
  with ij assms(3) show False by (simp add: run_alloc_length)
qed

end

interpretation fids: id_allocator AllocFID fid 2
  by unfold_locales (simp_all add: AllocFID_def NOFID_def Let_def)

interpretation tags: id_allocator nextTag tag 1
  by unfold_locales
    (simp_all add: nextTag_def NOTAG_def Let_def word_order.not_eq_extremum [symmetric])

subsection \<open>A call against a server\<close>

text \<open>The size assembled by shifts is the little-endian value of the four bytes.\<close>

lemma frame_size_get_le:
  assumes "length b = 4"
  shows "unat (frame_size b) = get_le b"
proof -
  from assms obtain b0 b1 b2 b3 where b: "b = [b0, b1, b2, b3]"
    by (auto simp: numeral_eq_Suc length_Suc_conv)
  let ?v = byte_val
  have small: "?v x < 2 ^ 8" and "take_bit 32 (?v x) = ?v x" for x
    using byte_val_less [of x] by (simp_all add: take_bit_nat_eq_self_iff del: byte_val_less)
  moreover have "take_bit 32 (push_bit k (?v x)) = push_bit k (?v x)" if "k \<le> 24" for k x
  proof -
    have "(2 :: nat) ^ k \<le> 2 ^ 24" using that by (rule power_increasing) simp
    then have "?v x * 2 ^ k \<le> 255 * 2 ^ 24" using byte_val_less [of x] by (intro mult_le_mono) simp_all
    then show ?thesis by (intro take_bit_nat_eq_self) (simp add: push_bit_eq_mult)
  qed
  ultimately have "unat (frame_size b) = or (?v b0) (or (push_bit 8 (?v b1))
      (or (push_bit 16 (?v b2)) (push_bit 24 (?v b3))))"
    by (simp add: frame_size_def b unsigned_or_eq unsigned_push_bit_eq unsigned_of_nat)
  also have "\<dots> = or (?v b0) (push_bit 8 (or (?v b1) (push_bit 8 (or (?v b2) (push_bit 8 (?v b3))))))"
    by (simp add: push_bit_or)
  also have "\<dots> = get_le b"
    using small by (simp add: or_push_bit_add b)
  finally show ?thesis .
qed

text \<open>
  A server that answers each request with one message, seen through the wire format: it
  decodes what it is sent and encodes its reply.
\<close>

definition server_peer :: "('p \<Rightarrow> fcall \<Rightarrow> fcall \<times> 'p) \<Rightarrow> 'p peer_fn" where
  "server_peer serve p data =
     (case Unmarshal data of
        Inl e \<Rightarrow> (None, [], p)
      | Inr f \<Rightarrow> (let (r, p') = serve p f in
          (case Marshal r of Inl e \<Rightarrow> (None, [], p') | Inr d \<Rightarrow> (None, d, p'))))"

definition sendable :: "fcall \<Rightarrow> bool" where
  "sendable f \<longleftrightarrow> fcall_ok f \<and> (case Marshal f of Inl e \<Rightarrow> False | Inr d \<Rightarrow> length d < 2 ^ 32)"

definition reply_result :: "fcall \<Rightarrow> fcall result" where
  "reply_result r = (if ftype r = RERROR then Inl (ErrorString (''9p error: '' @ fename r))
     else Inr (wire_view r))"

lemma wire_view_type [simp]: "ftype (wire_view f) = ftype f"
  by (simp add: wire_view_def Let_def)

lemma wire_view_ename: "ftype f = RERROR \<Longrightarrow> fename (wire_view f) = fename f"
  by (simp add: wire_view_def msg_types)

lemma rpc_server:
  assumes "sendable req" and "serve (peer (rw c)) (wire_view req) = (r, p')" and "sendable r"
    and "\<not> closed (rw c)" and "inbuf (rw c) = []"
  shows "rpc (server_peer serve) None req c =
    (reply_result r, c\<lparr>rw := (rw c)\<lparr>peer := p', inbuf := []\<rparr>\<rparr>)"
proof -
  from assms(1,3) obtain d rd where d: "Marshal req = Inr d" "length d < 2 ^ 32"
    and rd: "Marshal r = Inr rd" "length rd < 2 ^ 32" and ok: "fcall_ok req" "fcall_ok r"
    by (auto simp: sendable_def split: sum.splits)
  have react: "server_peer serve (peer (rw c)) d = (None, rd, p')"
    using d rd ok assms(2) by (simp add: server_peer_def Unmarshal_Marshal)
  let ?k = "(rw c)\<lparr>peer := p', inbuf := rd\<rparr>"
  have split: "rd = take 4 rd @ drop 4 rd" and len: "length (take 4 rd) = 4"
    using Marshal_length [OF rd(1)] by simp_all
  have r1: "conn_ReadFull 4 ?k = (Inr (take 4 rd), ?k\<lparr>inbuf := drop 4 rd\<rparr>)"
    using split len by (intro conn_ReadFull_exact) simp_all
  have size: "unat (frame_size (take 4 rd)) = length rd"
    using Marshal_size_prefix [OF rd(1)] rd(2) len by (simp add: frame_size_get_le)
  have r2: "conn_ReadFull (length rd - 4) (?k\<lparr>inbuf := drop 4 rd\<rparr>) =
      (Inr (drop 4 rd), ?k\<lparr>inbuf := []\<rparr>)"
    by (simp add: conn_ReadFull_def)
  have u: "Unmarshal rd = Inr (wire_view r)"
    using rd ok by (simp add: Unmarshal_Marshal)
  show ?thesis
    using d(1) react assms(4,5) r1 size r2 u Marshal_length [OF rd(1)]
    by (simp add: rpc_def conn_write_def reply_result_def wire_view_ename)
qed


subsection \<open>Runs of the client\<close>

text \<open>
  The states a client goes through: it is made by \<open>NewClient\<close>, and then fids are
  allocated, tags are taken, calls are made and the client is closed, in any order and
  with any behaviour of the peer.
\<close>

inductive client_reach :: "'p peer_fn \<Rightarrow> 'p nclient \<Rightarrow> bool" for react where
  new: "client_reach react (NewClient k)"
| alloc: "client_reach react c \<Longrightarrow> client_reach react (snd (AllocFID c))"
| tag: "client_reach react c \<Longrightarrow> client_reach react (snd (nextTag c))"
| call: "client_reach react c \<Longrightarrow> client_reach react (snd (rpc react ctx req c))"
| close: "client_reach react c \<Longrightarrow> client_reach react (Close c)"

lemma rpc_counters [simp]:
  "fid (snd (rpc react ctx req c)) = fid c" "tag (snd (rpc react ctx req c)) = tag c"
  by (simp_all add: rpc_def Let_def split: option.splits sum.splits prod.splits)

lemma alloc_counters [simp]:
  "tag (snd (AllocFID c)) = tag c" "fid (snd (nextTag c)) = fid c"
  by (simp_all add: AllocFID_def nextTag_def Let_def)

lemma close_counters [simp]: "fid (Close c) = fid c" "tag (Close c) = tag c"
  by (simp_all add: Close_def)

lemma NewClient_counters [simp]: "fid (NewClient k) = 2" "tag (NewClient k) = 1"
  by (simp_all add: NewClient_def)

lemma tagged_rpc_counters:
  "fid (snd (tagged_rpc react ctx mk c)) = fid c"
  "tag (snd (tagged_rpc react ctx mk c)) = tag (snd (nextTag c))"
  by (simp_all add: tagged_rpc_def case_prod_beta)

definition counters_ok :: "'p nclient \<Rightarrow> bool" where
  "counters_ok c \<longleftrightarrow> 2 \<le> fid c \<and> fid c < - 1 \<and> 1 \<le> tag c \<and> tag c < - 1"

lemma client_reach_counters: "client_reach react c \<Longrightarrow> counters_ok c"
proof (induction rule: client_reach.induct)
  case (new k)
  then show ?case
    using fids.lowest_less tags.lowest_less by (simp add: counters_ok_def)
next
  case (alloc c)
  then show ?case using fids.alloc_keeps [of c] by (simp add: counters_ok_def)
next
  case (tag c)
  then show ?case using tags.alloc_keeps [of c] by (simp add: counters_ok_def)
qed (simp_all add: counters_ok_def)

lemma not_all_ones: "(x :: 'w::len word) < - 1 \<Longrightarrow> x \<noteq> - 1"
  by (rule less_imp_neq)

lemma two_le_word32: "(2 :: u32) \<le> x \<Longrightarrow> x \<noteq> 0 \<and> x \<noteq> 1"
  by (auto simp: word_le_nat_alt)

lemma one_le_word16: "(1 :: u16) \<le> x \<Longrightarrow> x \<noteq> 0"
  by (auto simp: word_le_nat_alt)

subsection \<open>Properties\<close>

text \<open>
  Property C15: a call over the wire is a procedure call to the server. For any server that
  answers a request with one message, a call that finds no unread bytes returns exactly the
  server's reply (an error when the reply is \<open>Rerror\<close>), the server has handled exactly the
  request's message, and no bytes are left unread, so the next call is again in step.
\<close>

theorem rpc_implements_call:
  assumes "sendable req" and "serve (peer (rw c)) (wire_view req) = (r, p')" and "sendable r"
    and "\<not> closed (rw c)" and "inbuf (rw c) = []"
  shows "rpc (server_peer serve) None req c =
    (reply_result r, c\<lparr>rw := (rw c)\<lparr>peer := p', inbuf := []\<rparr>\<rparr>)"
  using assms by (rule rpc_server)

text \<open>An example server: it counts requests and answers every clunk and refuses the rest.\<close>

definition example_server :: "nat \<Rightarrow> fcall \<Rightarrow> fcall \<times> nat" where
  "example_server n f =
     (if ftype f = TCLUNK then (zero_fcall\<lparr>ftype := RCLUNK, ftag := ftag f\<rparr>, Suc n)
      else (zero_fcall\<lparr>ftype := RERROR, ftag := ftag f, fename := ''permission denied''\<rparr>, n))"

definition example_client :: "nat nclient" where
  "example_client = NewClient \<lparr>peer = 0, inbuf = [], rderr = IoEOF, closed = False\<rparr>"

theorem rpc_implements_call_witness:
  "fst (rpc (server_peer example_server) None (fid_msg TCLUNK 5 9) example_client) =
     Inr (zero_fcall\<lparr>ftype := RCLUNK, ftag := 9\<rparr>) \<and>
   fst (rpc (server_peer example_server) None (fid_msg TREMOVE 5 9) example_client) =
     Inl (ErrorString ''9p error: permission denied'')"
proof -
  have s: "sendable (fid_msg TCLUNK 5 9)" "sendable (fid_msg TREMOVE 5 9)"
    "sendable (zero_fcall\<lparr>ftype := RCLUNK, ftag := 9\<rparr>)"
    "sendable (zero_fcall\<lparr>ftype := RERROR, ftag := 9, fename := ''permission denied''\<rparr>)"
    by (simp_all add: sendable_def fcall_ok_def fid_msg_def Marshal_def marshal_fields_def msg_types
        str_ok_def)
  have v: "example_server 0 (wire_view (fid_msg TCLUNK 5 9)) =
      (zero_fcall\<lparr>ftype := RCLUNK, ftag := 9\<rparr>, 1)"
    "example_server 0 (wire_view (fid_msg TREMOVE 5 9)) =
      (zero_fcall\<lparr>ftype := RERROR, ftag := 9, fename := ''permission denied''\<rparr>, 0)"
    by (simp_all add: example_server_def wire_view_def fid_msg_def msg_types)
  have c: "peer (rw example_client) = 0" "\<not> closed (rw example_client)"
    "inbuf (rw example_client) = []"
    by (simp_all add: example_client_def NewClient_def)
  have "rpc (server_peer example_server) None (fid_msg TCLUNK 5 9) example_client =
      (reply_result (zero_fcall\<lparr>ftype := RCLUNK, ftag := 9\<rparr>),
       example_client\<lparr>rw := (rw example_client)\<lparr>peer := 1, inbuf := []\<rparr>\<rparr>)"
    using s v c by (intro rpc_implements_call) simp_all
  moreover have "rpc (server_peer example_server) None (fid_msg TREMOVE 5 9) example_client =
      (reply_result (zero_fcall\<lparr>ftype := RERROR, ftag := 9, fename := ''permission denied''\<rparr>),
       example_client\<lparr>rw := (rw example_client)\<lparr>peer := 0, inbuf := []\<rparr>\<rparr>)"
    using s v c by (intro rpc_implements_call) simp_all
  ultimately show ?thesis
    by (simp add: reply_result_def wire_view_def msg_types)
qed

text \<open>
  Property C25: identifiers. In every state a client can reach, with any peer, the next
  fid handed out is neither \<open>NOFID\<close> nor 0 nor the root fid 1, and the next tag is neither
  \<open>NOTAG\<close> nor 0; and no fid repeats within \<open>2^32 - 3\<close> allocations, no tag within
  65534.
\<close>

theorem identifiers_safe:
  assumes "client_reach react c"
  shows "fst (AllocFID c) \<notin> {NOFID, 0, 1} \<and> fst (nextTag c) \<notin> {NOTAG, 0} \<and>
    distinct (fst (run_alloc AllocFID (2 ^ 32 - 3) c)) \<and>
    distinct (fst (run_alloc nextTag (2 ^ 16 - 2) c))"
proof -
  from assms have ok: "counters_ok c" by (rule client_reach_counters)
  have "unat (- 1 :: u32) = 2 ^ 32 - 1" "unat (- 1 :: u16) = 2 ^ 16 - 1"
    by (simp_all add: unsigned_minus_1_eq_mask mask_eq_exp_minus_1)
  with ok have "distinct (fst (run_alloc AllocFID (2 ^ 32 - 3) c))"
    and "distinct (fst (run_alloc nextTag (2 ^ 16 - 2) c))"
    by (auto simp: counters_ok_def intro: fids.run_alloc_distinct tags.run_alloc_distinct)
  moreover from ok have "fid c \<noteq> - 1" and "tag c \<noteq> - 1"
    by (auto simp: counters_ok_def dest: not_all_ones)
  ultimately show ?thesis
    using ok two_le_word32 [of "fid c"] one_le_word16 [of "tag c"]
    by (simp add: counters_ok_def fids.alloc_id tags.alloc_id NOFID_def NOTAG_def)
qed

theorem identifiers_safe_witness:
  "fst (AllocFID example_client) = 2 \<and> fst (nextTag example_client) = 1 \<and>
   distinct (fst (run_alloc AllocFID (2 ^ 32 - 3) example_client))"
proof -
  have "client_reach (server_peer example_server) example_client"
    unfolding example_client_def by (rule client_reach.new)
  from identifiers_safe [OF this] show ?thesis
    by (simp add: fids.alloc_id tags.alloc_id example_client_def)
qed

text \<open>
  Property C26: a size prefix below four ends the program. If the reply's size field is
  less than the four bytes of the field itself, the client asks for a buffer of negative
  length and panics, whatever the request was.
\<close>

theorem rpc_short_size_panics:
  assumes "Marshal req = Inr d" and "conn_write react d (rw c) = (None, k)"
    and "4 \<le> length (inbuf k)" and "get_le (take 4 (inbuf k)) < 4"
  shows "\<exists>e. fst (rpc react None req c) = Inl e \<and> is_panic e"
proof -
  have "conn_ReadFull 4 k = (Inr (take 4 (inbuf k)), k\<lparr>inbuf := drop 4 (inbuf k)\<rparr>)"
    using assms(3) by (simp add: conn_ReadFull_def)
  with assms show ?thesis
    by (simp add: rpc_def frame_size_get_le)
qed

definition short_peer :: "nat peer_fn" where
  "short_peer n data = (None, write32 3 @ data, n)"

theorem rpc_short_size_panics_witness:
  "\<exists>e. fst (rpc short_peer None (fid_msg TCLUNK 5 9) example_client) = Inl e \<and> is_panic e"
proof -
  let ?k = "(rw example_client)\<lparr>peer := 0, inbuf := write32 3 @ write32 11 @ write8 TCLUNK @
      write16 9 @ write32 5\<rparr>"
  have m: "Marshal (fid_msg TCLUNK 5 9) = Inr (write32 11 @ write8 TCLUNK @ write16 9 @ write32 5)"
    by (simp add: Marshal_def marshal_fields_def fid_msg_def msg_types)
  have w: "conn_write short_peer (write32 11 @ write8 TCLUNK @ write16 9 @ write32 5)
      (rw example_client) = (None, ?k)"
    by (simp add: conn_write_def short_peer_def example_client_def NewClient_def)
  show ?thesis
    by (rule rpc_short_size_panics [OF m w]) (simp_all add: write32_def del: put_le.simps)
qed

end
