(* ===== verification/Go_Path.thy ===== *)
theory Go_Path
  imports Go_Strings
begin

text \<open>
  The operations of Go's packages \<open>path\<close> and \<open>path/filepath\<close> (on Unix) that the
  program uses. \<open>Clean\<close> is written over the elements of the path: the library function
  processes the elements from left to right with a buffer of the elements kept so far,
  and a \<open>..\<close> removes the last kept element unless that is itself a \<open>..\<close> or there is
  none. The lemmas describe what a cleaned rooted path looks like: elements that are
  proper names, separated by single slashes.
\<close>

definition slash :: byte where
  "slash = CHR ''/''"

definition clean_step :: "bool \<Rightarrow> bytes list \<Rightarrow> bytes \<Rightarrow> bytes list" where
  "clean_step rooted acc e =
     (if e = [] \<or> e = ''.'' then acc
      else if e = ''..'' then
        (if acc \<noteq> [] \<and> last acc \<noteq> ''..'' then butlast acc
         else if rooted then acc
         else acc @ [e])
      else acc @ [e])"

definition clean_elems :: "bool \<Rightarrow> bytes list \<Rightarrow> bytes list" where
  "clean_elems rooted es = foldl (clean_step rooted) [] es"

definition Clean :: "bytes \<Rightarrow> bytes" where
  "Clean p =
     (if p = [] then ''.''
      else (let rooted = (hd p = slash);
                out = (if rooted then [slash] else []) @
                  Join (clean_elems rooted (Split p slash)) [slash]
            in if out = [] then ''.'' else out))"

definition path_Join :: "bytes list \<Rightarrow> bytes" where
  "path_Join es =
     (let es' = dropWhile (\<lambda>e. e = []) es
      in if es' = [] then [] else Clean (Join es' [slash]))"

text \<open>\<open>path.Split\<close>: the directory up to and including the last slash, and the rest.\<close>

definition path_Split :: "bytes \<Rightarrow> bytes \<times> bytes" where
  "path_Split p =
     (let base = rev (takeWhile (\<lambda>c. c \<noteq> slash) (rev p))
      in (take (length p - length base) p, base))"

definition Base :: "bytes \<Rightarrow> bytes" where
  "Base p =
     (if p = [] then ''.''
      else (let q = TrimRight p [slash] in
            if q = [] then [slash] else snd (path_Split q)))"

definition path_Dir :: "bytes \<Rightarrow> bytes" where
  "path_Dir p = Clean (fst (path_Split p))"

subsection \<open>Names\<close>

text \<open>A proper name: what an element of a cleaned rooted path is.\<close>

definition path_name :: "bytes \<Rightarrow> bool" where
  "path_name e \<longleftrightarrow> e \<noteq> [] \<and> e \<noteq> ''.'' \<and> e \<noteq> ''..'' \<and> slash \<notin> set e"

lemma clean_step_name [simp]: "path_name e \<Longrightarrow> clean_step r acc e = acc @ [e]"
  by (simp add: clean_step_def path_name_def)

lemma clean_step_skip [simp]: "clean_step r acc [] = acc" "clean_step r acc ''.'' = acc"
  by (simp_all add: clean_step_def)

lemma foldl_clean_names:
  "list_all path_name es \<Longrightarrow> foldl (clean_step r) acc es = acc @ es"
  by (induction es arbitrary: acc) simp_all

lemma clean_elems_names [simp]: "list_all path_name es \<Longrightarrow> clean_elems r es = es"
  by (simp add: clean_elems_def foldl_clean_names)

lemma clean_elems_append:
  "clean_elems r (es @ fs) = foldl (clean_step r) (clean_elems r es) fs"
  by (simp add: clean_elems_def)

lemma clean_elems_snoc [simp]:
  "clean_elems r (es @ [e]) = clean_step r (clean_elems r es) e"
  by (simp add: clean_elems_def)

lemma clean_elems_Nil [simp]: "clean_elems r [] = []"
  by (simp add: clean_elems_def)

lemma clean_elems_empty_Cons [simp]: "clean_elems r ([] # es) = clean_elems r es"
  by (simp add: clean_elems_def)

lemma list_all_butlast: "list_all P xs \<Longrightarrow> list_all P (butlast xs)"
  by (induction xs) auto

lemma clean_elems_rooted:
  "\<forall>e \<in> set es. slash \<notin> set e \<Longrightarrow> list_all path_name (clean_elems True es)"
proof (induction es rule: rev_induct)
  case (snoc e es)
  then show ?case by (auto simp: clean_step_def path_name_def list_all_butlast)
qed simp

text \<open>The names of a path, taken as rooted.\<close>

definition path_names :: "bytes \<Rightarrow> bytes list" where
  "path_names p = clean_elems True (Split p slash)"

lemma path_names_name: "list_all path_name (path_names p)"
  unfolding path_names_def by (rule clean_elems_rooted) (auto dest: Split_no_sep)

lemma path_names_no_slash: "e \<in> set (path_names p) \<Longrightarrow> slash \<notin> set e"
  using path_names_name [of p] by (auto simp: list_all_iff path_name_def)

lemma path_names_slash_Cons [simp]: "path_names (slash # p) = path_names p"
  by (simp add: path_names_def)

lemma path_names_Nil [simp]: "path_names [] = []"
  by (simp add: path_names_def)

lemma Split_append_sep: "Split (p @ c # s) c = Split p c @ Split s c"
  by (induction p) (auto split: list.splits)

lemma path_names_append:
  "path_names (p @ slash # q) = foldl (clean_step True) (path_names p) (Split q slash)"
  by (simp add: path_names_def Split_append_sep clean_elems_append)

lemma path_names_extend:
  assumes "path_name n"
  shows "path_names (p @ slash # n) = path_names p @ [n]"
  using assms by (simp add: path_names_append Split_id path_name_def [of n] clean_step_def)

lemma path_names_single: "path_name n \<Longrightarrow> path_names n = [n]"
  by (simp add: path_names_def Split_id path_name_def clean_elems_def clean_step_def)

text \<open>The written form of a list of names, and back.\<close>

definition rooted_path :: "bytes list \<Rightarrow> bytes" where
  "rooted_path ns = slash # Join ns [slash]"

lemma Clean_rooted: "Clean (slash # p) = rooted_path (path_names p)"
  by (simp add: Clean_def rooted_path_def path_names_def)

lemma path_names_rooted_path:
  assumes "list_all path_name ns"
  shows "path_names (rooted_path ns) = ns"
proof (cases "ns = []")
  case True
  then show ?thesis by (simp add: rooted_path_def)
next
  case False
  have "\<forall>e \<in> set ns. slash \<notin> set e" using assms by (auto simp: list_all_iff path_name_def)
  with False assms show ?thesis
    by (simp add: rooted_path_def path_names_def [of "Join ns [slash]"] Split_Join)
qed

lemma rooted_path_inject:
  "list_all path_name ns \<Longrightarrow> list_all path_name ms \<Longrightarrow>
   rooted_path ns = rooted_path ms \<longleftrightarrow> ns = ms"
  by (metis path_names_rooted_path)

lemma Clean_rooted_idem: "Clean (Clean (slash # p)) = Clean (slash # p)"
proof -
  have "Clean (rooted_path ns) = rooted_path (path_names (rooted_path ns))" for ns
    unfolding rooted_path_def Clean_rooted by (simp add: rooted_path_def)
  then show ?thesis
    by (simp add: Clean_rooted path_names_rooted_path path_names_name)
qed

lemma rooted_path_eq_root:
  "list_all path_name ns \<Longrightarrow> rooted_path ns = [slash] \<longleftrightarrow> ns = []"
  by (auto simp: rooted_path_def path_name_def elim!: Join.elims)

lemma rooted_path_split:
  assumes "list_all path_name ns" "ns \<noteq> []"
  shows "Split (TrimPrefix (rooted_path ns) [slash]) slash = ns"
proof -
  have "\<forall>e \<in> set ns. slash \<notin> set e" using assms by (auto simp: list_all_iff path_name_def)
  with assms(2) show ?thesis
    using TrimPrefix_append [of "[slash]" "Join ns [slash]"]
    by (simp add: rooted_path_def Split_Join del: TrimPrefix_append)
qed

lemma Join_snoc: "xs \<noteq> [] \<Longrightarrow> Join (xs @ [x]) sep = Join xs sep @ sep @ x"
  by (induction xs sep rule: Join.induct) (simp_all add: Join_Cons)

lemma path_Split_last:
  assumes "slash \<notin> set b"
  shows "path_Split (d @ slash # b) = (d @ [slash], b)"
proof -
  have "takeWhile (\<lambda>c. c \<noteq> slash) (rev (d @ slash # b)) = rev b"
    using assms by (auto simp: takeWhile_append)
  then show ?thesis by (simp add: path_Split_def)
qed

lemma path_Split_rooted:
  assumes "list_all path_name (ns @ [n])"
  shows "snd (path_Split (rooted_path (ns @ [n]))) = n"
    and "path_names (fst (path_Split (rooted_path (ns @ [n])))) = ns"
proof -
  let ?d = "if ns = [] then [] else rooted_path ns"
  have "rooted_path (ns @ [n]) = ?d @ slash # n"
    by (simp add: rooted_path_def Join_snoc)
  then have s: "path_Split (rooted_path (ns @ [n])) = (?d @ [slash], n)"
    using assms by (simp add: path_Split_last path_name_def)
  then show "snd (path_Split (rooted_path (ns @ [n]))) = n" by simp
  have "path_names (?d @ [slash]) = path_names ?d"
    using path_names_append [of ?d "[]"] by simp
  with s assms show "path_names (fst (path_Split (rooted_path (ns @ [n])))) = ns"
    by (auto simp: path_names_rooted_path)
qed

lemma path_Split_root: "path_Split [slash] = ([slash], [])"
  by (simp add: path_Split_def)

lemma path_Join_names:
  assumes "list_all path_name ns" "path_name n"
  shows "path_Join [rooted_path ns, n] = rooted_path (ns @ [n])"
proof -
  have "path_Join [rooted_path ns, n] = Clean (slash # Join ns [slash] @ slash # n)"
    by (simp add: path_Join_def rooted_path_def)
  also have "\<dots> = rooted_path (path_names (rooted_path ns) @ [n])"
    using path_names_extend [OF assms(2), of "Join ns [slash]"]
    by (simp add: Clean_rooted rooted_path_def)
  finally show ?thesis using assms by (simp add: path_names_rooted_path)
qed

end
