(* ===== verification/Exportfs.thy ===== *)
theory Exportfs
  imports Ninep_Client Go_Path "HOL-Library.While_Combinator"
begin

text \<open>
  The remote file system client of \<open>internal/exportfs/client.go\<close>: it opens the 9P
  connection on first use, walks to cleaned paths, turns server errors into the portable
  errors of package \<open>os\<close>, and gives up the connection for good when it breaks.

  The 9P clients live in a heap, a list indexed by address, because an open file keeps a
  pointer to the client it was opened on after the \<open>Client\<close> has dropped it. The opener
  of the transport is a parameter with a state of its own. An operation is a function
  from the state to a result and a new state; the context is the value of
  \<open>ctx.Err()\<close> during the operation.
\<close>

record ('o, 'p) xclient =
  opener :: 'o
  remoteRoot :: string
  heap :: "'p nclient list"
  client :: "nat option"
  unhealthy :: "go_error option"

type_synonym ('o, 'p) opener_fn = "'o \<Rightarrow> ctx \<Rightarrow> string \<Rightarrow> 'p conn result \<times> 'o"
type_synonym ('o, 'p, 'a) xop = "('o, 'p) xclient \<Rightarrow> 'a result \<times> ('o, 'p) xclient"
type_synonym file_mode = u32

record entry =
  ePath :: string
  eMode :: file_mode
  eSize :: u64
  eModTime :: int
  eLinkname :: string

definition ModeDir :: file_mode where
  "ModeDir = 0x80000000"

definition Perm :: "file_mode \<Rightarrow> file_mode" where
  "Perm m = m AND 0x1FF"

definition fs_New :: "'o \<Rightarrow> string \<Rightarrow> ('o, 'p) xclient" where
  "fs_New op root = \<lparr>opener = op, remoteRoot = root, heap = [], client = None, unhealthy = None\<rparr>"

subsection \<open>Errors\<close>

definition normalizeRemoteError :: "go_error \<Rightarrow> go_error option" where
  "normalizeRemoteError err =
     (let msg = ToLower (error_text err) in
      if Contains msg ''directory entry not found'' \<or> Contains msg ''does not exist''
         \<or> Contains msg ''not found''
      then Some (WrapError (error_text OsErrNotExist @ '': '' @ error_text err) OsErrNotExist)
      else if Contains msg ''permission denied''
      then Some (WrapError (error_text OsErrPermission @ '': '' @ error_text err) OsErrPermission)
      else if Contains msg ''file exists'' \<or> Contains msg ''already exists''
      then Some (WrapError (error_text OsErrExist @ '': '' @ error_text err) OsErrExist)
      else None)"

definition isDisconnectError :: "go_error \<Rightarrow> bool" where
  "isDisconnectError err \<longleftrightarrow>
     errors_Is err IoEOF \<or> errors_Is err IoErrUnexpectedEOF \<or> errors_Is err OsErrClosed \<or>
     errors_Is err (Errno EPIPE) \<or> errors_Is err (Errno ECONNRESET)"

definition close_at :: "nat \<Rightarrow> ('o, 'p) xclient \<Rightarrow> ('o, 'p) xclient" where
  "close_at a x = x\<lparr>heap := (heap x)[a := Close (heap x ! a)]\<rparr>"

definition drop_connection :: "('o, 'p) xclient \<Rightarrow> ('o, 'p) xclient" where
  "drop_connection x =
     (let x1 = x\<lparr>unhealthy := Some ErrDisconnected\<rparr> in
      case client x1 of None \<Rightarrow> x1 | Some a \<Rightarrow> (close_at a x1)\<lparr>client := None\<rparr>)"

text \<open>A Go \<open>error\<close> that is \<open>nil\<close> is the value \<open>Inr\<close> of a result.\<close>

fun recordError :: "'a result \<Rightarrow> ('o, 'p, 'a) xop" where
  "recordError (Inr v) x = (Inr v, x)"
| "recordError (Inl err) x =
     (if errors_Is err ErrNotSupported \<or> errors_Is err ErrDisconnected then (Inl err, x)
      else if errors_Is err CtxCanceled \<or> errors_Is err CtxDeadlineExceeded then (Inl err, x)
      else (case normalizeRemoteError err of
              Some n \<Rightarrow> (Inl n, x)
            | None \<Rightarrow>
                (if \<not> isDisconnectError err then (Inl err, x)
                 else (Inl ErrDisconnected, drop_connection x))))"

subsection \<open>Control flow\<close>

text \<open>
  \<open>attempt m k\<close> is \<open>v, err := m; if err != nil { return recordError(err) }; k\<close>;
  \<open>deferred d m\<close> runs \<open>m\<close> and then the deferred call \<open>d\<close>, whose result is dropped;
  \<open>recorded m\<close> is \<open>return recordError(m)\<close>; \<open>call a f\<close> runs an operation of the 9P
  client at address \<open>a\<close>.
\<close>

definition attempt :: "('o, 'p, 'a) xop \<Rightarrow> ('a \<Rightarrow> ('o, 'p, 'b) xop) \<Rightarrow> ('o, 'p, 'b) xop" where
  "attempt m k x = (case m x of (Inl e, x1) \<Rightarrow> recordError (Inl e) x1 | (Inr v, x1) \<Rightarrow> k v x1)"

definition deferred :: "('o, 'p, 'a) xop \<Rightarrow> ('o, 'p, 'b) xop \<Rightarrow> ('o, 'p, 'b) xop" where
  "deferred d m x = (let (r, x1) = m x; (_, x2) = d x1 in (r, x2))"

definition recorded :: "('o, 'p, 'a) xop \<Rightarrow> ('o, 'p, 'a) xop" where
  "recorded m x = (let (r, x1) = m x in recordError r x1)"

definition call ::
  "nat \<Rightarrow> ('p nclient \<Rightarrow> 'a result \<times> 'p nclient) \<Rightarrow> ('o, 'p, 'a) xop" where
  "call a f x = (let (r, c) = f (heap x ! a) in (r, x\<lparr>heap := (heap x)[a := c]\<rparr>))"

definition alloc_fid :: "nat \<Rightarrow> ('o, 'p, u32) xop" where
  "alloc_fid a x = (let (i, c) = AllocFID (heap x ! a) in (Inr i, x\<lparr>heap := (heap x)[a := c]\<rparr>))"

definition ret :: "'a result \<Rightarrow> ('o, 'p, 'a) xop" where
  "ret r x = (r, x)"

subsection \<open>Connecting\<close>

text \<open>
  \<open>connect\<close> has three parts: a look at the state under the lock, the dialling without
  the lock, and the installation of the new client under the lock again. Other calls may
  run between the parts, so each is a definition of its own.
\<close>

definition connect_check :: "('o, 'p) xclient \<Rightarrow> nat result option" where
  "connect_check x =
     (case unhealthy x of
        Some err \<Rightarrow> Some (Inl err)
      | None \<Rightarrow> (case client x of Some a \<Rightarrow> Some (Inr a) | None \<Rightarrow> None))"

definition open_stream :: "('o, 'p) opener_fn \<Rightarrow> ctx \<Rightarrow> ('o, 'p, nat) xop" where
  "open_stream openfs ctx x =
     (case openfs (opener x) ctx (remoteRoot x) of
        (Inl e, op) \<Rightarrow> (Inl e, x\<lparr>opener := op\<rparr>)
      | (Inr stream, op) \<Rightarrow>
          (Inr (length (heap x)), x\<lparr>opener := op, heap := heap x @ [NewClient stream]\<rparr>))"

text \<open>\<open>if err := m; err != nil { _ = cli.Close(); return recordError(err) }; k\<close>.\<close>

definition or_close :: "nat \<Rightarrow> ('o, 'p, unit) xop \<Rightarrow> ('o, 'p, 'b) xop \<Rightarrow> ('o, 'p, 'b) xop" where
  "or_close a m k x =
     (case m x of (Inl e, x1) \<Rightarrow> recordError (Inl e) (close_at a x1) | (Inr _, x1) \<Rightarrow> k x1)"

definition dial :: "'p peer_fn \<Rightarrow> ('o, 'p) opener_fn \<Rightarrow> ctx \<Rightarrow> ('o, 'p, nat) xop" where
  "dial react openfs ctx =
     attempt (open_stream openfs ctx) (\<lambda>a.
       or_close a (call a (Version react ctx ''9P2000''))
         (or_close a (call a (Attach react ctx 1 [] []))
           (ret (Inr a))))"

definition install :: "nat \<Rightarrow> ('o, 'p, nat) xop" where
  "install a x =
     (case unhealthy x of
        Some err \<Rightarrow> (Inl err, close_at a x)
      | None \<Rightarrow>
          (case client x of
             Some b \<Rightarrow> (Inr b, close_at a x)
           | None \<Rightarrow> (Inr a, x\<lparr>client := Some a\<rparr>)))"

definition connect :: "'p peer_fn \<Rightarrow> ('o, 'p) opener_fn \<Rightarrow> ctx \<Rightarrow> ('o, 'p, nat) xop" where
  "connect react openfs ctx x =
     (case connect_check x of
        Some r \<Rightarrow> (r, x)
      | None \<Rightarrow>
          (case dial react openfs ctx x of
             (Inl e, x1) \<Rightarrow> (Inl e, x1)
           | (Inr a, x1) \<Rightarrow> install a x1))"

subsection \<open>Paths and entries\<close>

definition cleanPath :: "string \<Rightarrow> string" where
  "cleanPath p = (if p = [] then [slash] else Clean (slash # p))"

definition walk_names :: "string \<Rightarrow> string list" where
  "walk_names clean = (if clean = [slash] then [] else Split (TrimPrefix clean [slash]) slash)"

definition walkTo ::
  "'p peer_fn \<Rightarrow> ('o, 'p) opener_fn \<Rightarrow> ctx \<Rightarrow> string \<Rightarrow> ('o, 'p, nat \<times> u32 \<times> dir option) xop" where
  "walkTo react openfs ctx p =
     attempt (connect react openfs ctx) (\<lambda>cli.
     attempt (alloc_fid cli) (\<lambda>i.
     attempt (call cli (Walk react ctx 1 i (walk_names (cleanPath p)))) (\<lambda>_ x.
       (case call cli (Stat react ctx i) x of
          (Inl e, x1) \<Rightarrow> recordError (Inl e) (snd (call cli (Clunk react None i) x1))
        | (Inr d, x1) \<Rightarrow> (Inr (cli, i, d), x1)))))"

text \<open>
  \<open>entryFromDir\<close> and the copies of \<open>*dir\<close> dereference the pointer, which is nil when the
  reply to \<open>Tstat\<close> was of another type.
\<close>

definition nil_deref :: go_error where
  "nil_deref = Panic ''invalid memory address or nil pointer dereference''"

definition deref :: "dir option \<Rightarrow> dir result" where
  "deref d = (case d of None \<Rightarrow> Inl nil_deref | Some d \<Rightarrow> Inr d)"

definition entryFromDir :: "string \<Rightarrow> dir \<Rightarrow> entry" where
  "entryFromDir p d =
     (let mode = dmode d AND 0x1FF;
          mode = (if dmode d AND 0x80000000 \<noteq> 0 then mode OR ModeDir else mode)
      in \<lparr>ePath = p, eMode = mode, eSize = dlength d, eModTime = ModTime d, eLinkname = []\<rparr>)"

definition permBits :: "file_mode \<Rightarrow> u32" where
  "permBits mode =
     (let perm = Perm mode in if mode AND ModeDir \<noteq> 0 then perm OR 0x80000000 else perm)"

definition open_mode :: "u32 \<Rightarrow> u8" where
  "open_mode flags =
     (let mode = 0; mode = (if flags AND 1 \<noteq> 0 then 1 else mode)
      in if flags AND 2 \<noteq> 0 then 2 else mode)"

subsection \<open>Operations on paths\<close>

definition fs_Stat :: "'p peer_fn \<Rightarrow> ('o, 'p) opener_fn \<Rightarrow> ctx \<Rightarrow> string \<Rightarrow> ('o, 'p, entry) xop" where
  "fs_Stat react openfs ctx p =
     attempt (walkTo react openfs ctx p) (\<lambda>(cli, i, d).
       deferred (call cli (Clunk react None i))
         (ret (bind_result (deref d) (\<lambda>d. Inr (entryFromDir p d)))))"

text \<open>
  One round of the loop of \<open>List\<close>: from the offset, the entries so far and the state to
  the next round (\<open>Inl\<close>) or to what \<open>List\<close> returns (\<open>Inr\<close>).
\<close>

type_synonym ('o, 'p) list_state =
  "(u64 \<times> entry list \<times> ('o, 'p) xclient) + (entry list result \<times> ('o, 'p) xclient)"

fun list_round ::
  "'p peer_fn \<Rightarrow> ctx \<Rightarrow> string \<Rightarrow> nat \<Rightarrow> u32 \<Rightarrow> ('o, 'p) list_state \<Rightarrow> ('o, 'p) list_state" where
  "list_round react ctx p cli i (Inr r) = Inr r"
| "list_round react ctx p cli i (Inl (offset, entries, x)) =
     (case call cli (Read react ctx i offset 8192) x of
        (Inl e, x1) \<Rightarrow> Inr (recordError (Inl e) x1)
      | (Inr data, x1) \<Rightarrow>
          (if length data = 0 then Inr (Inr entries, x1)
           else (case ParseDirEntries data of
                   Inl e \<Rightarrow> Inr (recordError (Inl e) x1)
                 | Inr dirs \<Rightarrow>
                     Inl (offset + of_nat (length data),
                       entries @ map (\<lambda>d. entryFromDir (path_Join [cleanPath p, dname d]) d) dirs,
                       x1))))"

definition list_loop ::
  "'p peer_fn \<Rightarrow> ctx \<Rightarrow> string \<Rightarrow> nat \<Rightarrow> u32 \<Rightarrow> ('o, 'p) list_state \<Rightarrow>
   (entry list result \<times> ('o, 'p) xclient) option" where
  "list_loop react ctx p cli i s = map_option projr (while_option isl (list_round react ctx p cli i) s)"

text \<open>\<open>None\<close> is a listing that never ends: the server keeps sending entries.\<close>

definition fs_List ::
  "'p peer_fn \<Rightarrow> ('o, 'p) opener_fn \<Rightarrow> ctx \<Rightarrow> string \<Rightarrow> ('o, 'p) xclient \<Rightarrow>
   (entry list result \<times> ('o, 'p) xclient) option" where
  "fs_List react openfs ctx p x =
     (case walkTo react openfs ctx p x of
        (Inl e, x1) \<Rightarrow> Some (recordError (Inl e) x1)
      | (Inr (cli, i, _), x1) \<Rightarrow>
          map_option (\<lambda>(r, x2). (r, snd (call cli (Clunk react None i) x2)))
            (case call cli (Open react ctx i 0) x1 of
               (Inl e, x2) \<Rightarrow> Some (recordError (Inl e) x2)
             | (Inr _, x2) \<Rightarrow> list_loop react ctx p cli i (Inl (0, [], x2))))"

record remoteFile =
  rf_client :: nat
  rf_fid :: u32

definition or_clunk ::
  "'p peer_fn \<Rightarrow> nat \<Rightarrow> u32 \<Rightarrow> ('o, 'p, 'a) xop \<Rightarrow> ('a \<Rightarrow> ('o, 'p, 'b) xop) \<Rightarrow> ('o, 'p, 'b) xop" where
  "or_clunk react cli i m k x =
     (case m x of
        (Inl e, x1) \<Rightarrow> recordError (Inl e) (snd (call cli (Clunk react None i) x1))
      | (Inr v, x1) \<Rightarrow> k v x1)"

definition fs_Open ::
  "'p peer_fn \<Rightarrow> ('o, 'p) opener_fn \<Rightarrow> ctx \<Rightarrow> string \<Rightarrow> u32 \<Rightarrow> ('o, 'p, remoteFile \<times> entry) xop" where
  "fs_Open react openfs ctx p flags =
     attempt (walkTo react openfs ctx p) (\<lambda>(cli, i, d).
       or_clunk react cli i (call cli (Open react ctx i (open_mode flags))) (\<lambda>_.
         ret (bind_result (deref d) (\<lambda>d.
           Inr (\<lparr>rf_client = cli, rf_fid = i\<rparr>, entryFromDir p d)))))"

text \<open>\<open>now\<close> is the value of \<open>time.Now()\<close>.\<close>

definition fs_Create ::
  "'p peer_fn \<Rightarrow> ('o, 'p) opener_fn \<Rightarrow> int \<Rightarrow> ctx \<Rightarrow> string \<Rightarrow> file_mode \<Rightarrow> u32 \<Rightarrow>
   ('o, 'p, remoteFile \<times> entry) xop" where
  "fs_Create react openfs now ctx p perm flags =
     (let (dirName, base) = path_Split (cleanPath p) in
      attempt (walkTo react openfs ctx dirName) (\<lambda>(cli, dirFID, _).
        or_clunk react cli dirFID
          (call cli (Create react ctx dirFID base (permBits perm) (open_mode flags))) (\<lambda>_.
            ret (Inr (\<lparr>rf_client = cli, rf_fid = dirFID\<rparr>,
              \<lparr>ePath = p, eMode = perm, eSize = 0, eModTime = now, eLinkname = []\<rparr>)))))"

definition fs_Remove :: "'p peer_fn \<Rightarrow> ('o, 'p) opener_fn \<Rightarrow> ctx \<Rightarrow> string \<Rightarrow> ('o, 'p, unit) xop" where
  "fs_Remove react openfs ctx p =
     attempt (walkTo react openfs ctx p) (\<lambda>(cli, i, _).
       recorded (call cli (Remove react ctx i)))"

text \<open>\<open>Rename\<close>, \<open>Chmod\<close> and \<open>Truncate\<close> change one field of the entry and write it back.\<close>

definition update_dir ::
  "'p peer_fn \<Rightarrow> ('o, 'p) opener_fn \<Rightarrow> ctx \<Rightarrow> string \<Rightarrow> (dir \<Rightarrow> dir) \<Rightarrow> ('o, 'p, unit) xop" where
  "update_dir react openfs ctx p f =
     attempt (walkTo react openfs ctx p) (\<lambda>(cli, i, d).
       deferred (call cli (Clunk react None i))
         (case deref d of
            Inl e \<Rightarrow> ret (Inl e)
          | Inr d \<Rightarrow> recorded (call cli (Wstat react ctx i (Some (f d))))))"

definition fs_Rename ::
  "'p peer_fn \<Rightarrow> ('o, 'p) opener_fn \<Rightarrow> ctx \<Rightarrow> string \<Rightarrow> string \<Rightarrow> ('o, 'p, unit) xop" where
  "fs_Rename react openfs ctx oldPath newPath =
     update_dir react openfs ctx oldPath (\<lambda>d. d\<lparr>dname := Base newPath\<rparr>)"

definition fs_Chmod ::
  "'p peer_fn \<Rightarrow> ('o, 'p) opener_fn \<Rightarrow> ctx \<Rightarrow> string \<Rightarrow> file_mode \<Rightarrow> ('o, 'p, unit) xop" where
  "fs_Chmod react openfs ctx p mode = update_dir react openfs ctx p (\<lambda>d. d\<lparr>dmode := Perm mode\<rparr>)"

definition fs_Truncate ::
  "'p peer_fn \<Rightarrow> ('o, 'p) opener_fn \<Rightarrow> ctx \<Rightarrow> string \<Rightarrow> u64 \<Rightarrow> ('o, 'p, unit) xop" where
  "fs_Truncate react openfs ctx p sz = update_dir react openfs ctx p (\<lambda>d. d\<lparr>dlength := sz\<rparr>)"

definition fs_Symlink :: "ctx \<Rightarrow> string \<Rightarrow> string \<Rightarrow> ('o, 'p, unit) xop" where
  "fs_Symlink ctx target newPath = ret (Inl ErrNotSupported)"

definition fs_Readlink :: "ctx \<Rightarrow> string \<Rightarrow> ('o, 'p, string) xop" where
  "fs_Readlink ctx p = ret (Inl ErrNotSupported)"

definition fs_String :: "('o, 'p) xclient \<Rightarrow> string" where
  "fs_String x = ''exportfs('' @ remoteRoot x @ '')''"

subsection \<open>Open files\<close>

definition maxIOChunk :: nat where
  "maxIOChunk = 8000"

text \<open>The number of bytes of the next request: the rest, at most \<open>maxIOChunk\<close>.\<close>

definition io_chunk :: "nat \<Rightarrow> nat \<Rightarrow> nat" where
  "io_chunk len total_n =
     (let chunk = len - total_n in if chunk > maxIOChunk then maxIOChunk else chunk)"

lemma io_chunk_bounds:
  "io_chunk len n \<le> maxIOChunk" "n \<le> len \<Longrightarrow> n + io_chunk len n \<le> len"
  "n < len \<Longrightarrow> 0 < io_chunk len n"
  by (auto simp: io_chunk_def maxIOChunk_def Let_def)

text \<open>Go's \<open>copy(p[total:], data)\<close>: the new buffer and the number of bytes copied.\<close>

definition copy_at :: "bytes \<Rightarrow> nat \<Rightarrow> bytes \<Rightarrow> nat \<times> bytes" where
  "copy_at p total_n data =
     (let n = min (length p - total_n) (length data)
      in (n, take total_n p @ take n data @ drop (total_n + n) p))"

lemma copy_at_progress:
  "copy_at p t data = (n, q) \<Longrightarrow> t < length p \<Longrightarrow> n \<noteq> 0 \<Longrightarrow>
   length q = length p \<and> 0 < n \<and> n \<le> length p - t"
  by (auto simp: copy_at_def Let_def)

text \<open>
  \<open>ReadAt\<close> returns the number of bytes read and the error; the model returns the buffer
  too. The loop runs while \<open>total\<close> grows.
\<close>

type_synonym read_result = "nat \<times> bytes \<times> go_error option"

definition read_end :: "nat \<Rightarrow> bytes \<Rightarrow> read_result" where
  "read_end total_n p = (if total_n = 0 then (0, p, Some IoEOF) else (total_n, p, None))"

function readat_loop ::
  "'p peer_fn \<Rightarrow> remoteFile \<Rightarrow> u64 \<Rightarrow> nat \<Rightarrow> bytes \<Rightarrow> ('o, 'p) xclient \<Rightarrow>
   read_result \<times> ('o, 'p) xclient" where
  "readat_loop react f off total_n p x =
     (if \<not> total_n < length p then (read_end total_n p, x)
      else
        (let chunk = io_chunk (length p) total_n in
         case call (rf_client f)
             (Read react None (rf_fid f) (off + of_nat total_n) (of_nat chunk)) x of
           (Inl e, x1) \<Rightarrow>
             (if total_n > 0 then ((total_n, p, None), x1)
              else (case recordError (Inl e :: unit result) x1 of
                      (Inl e', x2) \<Rightarrow> ((0, p, Some e'), x2)
                    | (Inr _, x2) \<Rightarrow> ((0, p, None), x2)))
         | (Inr data, x1) \<Rightarrow>
             (let (n, p1) = copy_at p total_n data in
              if n = 0 \<or> length data < chunk then (read_end (total_n + n) p1, x1)
              else readat_loop react f off (total_n + n) p1 x1)))"
  by pat_completeness auto
termination
proof (relation "measure (\<lambda>(react, f, off, total_n, p, x). length p - total_n)", goal_cases)
  case (2 react f off total_n p x chunk r x1 data y n p1)
  then have "copy_at p total_n data = (n, p1)" "total_n < length p" "n \<noteq> 0" by simp_all
  from copy_at_progress [OF this] this(2) show ?case by auto
qed simp

declare readat_loop.simps [simp del]

definition ReadAt ::
  "'p peer_fn \<Rightarrow> remoteFile \<Rightarrow> bytes \<Rightarrow> u64 \<Rightarrow> ('o, 'p) xclient \<Rightarrow> read_result \<times> ('o, 'p) xclient" where
  "ReadAt react f p off x = readat_loop react f off 0 p x"

text \<open>\<open>WriteAt\<close> goes on only after a full chunk was written.\<close>

function writeat_loop ::
  "'p peer_fn \<Rightarrow> remoteFile \<Rightarrow> u64 \<Rightarrow> nat \<Rightarrow> bytes \<Rightarrow> ('o, 'p) xclient \<Rightarrow>
   (nat \<times> go_error option) \<times> ('o, 'p) xclient" where
  "writeat_loop react f off total_n p x =
     (if \<not> total_n < length p then ((total_n, None), x)
      else
        (let chunk = io_chunk (length p) total_n in
         case call (rf_client f)
             (Write react None (rf_fid f) (off + of_nat total_n) (take chunk (drop total_n p))) x of
           (Inl e, x1) \<Rightarrow>
             (case recordError (Inl e :: unit result) x1 of
                (Inl e', x2) \<Rightarrow> ((total_n, Some e'), x2)
              | (Inr _, x2) \<Rightarrow> ((total_n, None), x2))
         | (Inr n, x1) \<Rightarrow>
             (if unat n \<noteq> chunk then ((total_n + unat n, Some IoErrShortWrite), x1)
              else writeat_loop react f off (total_n + unat n) p x1)))"
  by pat_completeness auto
termination
  by (relation "measure (\<lambda>(react, f, off, total_n, p, x). length p - total_n)")
    (auto simp: io_chunk_def maxIOChunk_def Let_def)

declare writeat_loop.simps [simp del]

definition WriteAt ::
  "'p peer_fn \<Rightarrow> remoteFile \<Rightarrow> bytes \<Rightarrow> u64 \<Rightarrow> ('o, 'p) xclient \<Rightarrow>
   (nat \<times> go_error option) \<times> ('o, 'p) xclient" where
  "WriteAt react f p off x = writeat_loop react f off 0 p x"

definition remoteFile_Close :: "'p peer_fn \<Rightarrow> remoteFile \<Rightarrow> ('o, 'p, unit) xop" where
  "remoteFile_Close react f = recorded (call (rf_client f) (Clunk react None (rf_fid f)))"

definition remoteFile_Flush :: "remoteFile \<Rightarrow> ('o, 'p, unit) xop" where
  "remoteFile_Flush f = ret (Inr ())"

definition fs_Mkdir ::
  "'p peer_fn \<Rightarrow> ('o, 'p) opener_fn \<Rightarrow> int \<Rightarrow> ctx \<Rightarrow> string \<Rightarrow> file_mode \<Rightarrow> ('o, 'p, unit) xop" where
  "fs_Mkdir react openfs now ctx p perm =
     attempt (fs_Create react openfs now ctx p (perm OR ModeDir) 0) (\<lambda>(handle, _).
       remoteFile_Close react handle)"

end
