(* ===== verification/Exportfs_Safety.thy ===== *)
theory Exportfs_Safety
  imports Exportfs
begin

text \<open>
  What holds in every state of the remote file system client, with any opener and any
  peer: which connections are open, what a broken connection leaves behind, where walks
  lead, and how errors are classified. The operations are all built from calls on a 9P
  client, error recording and connecting, so a predicate kept by these is kept by every
  operation; the locale \<open>client_invariant\<close> proves this once.
\<close>

declare recordError.simps(2) [simp del]

subsection \<open>Predicates kept by every operation\<close>

definition keeps_conn :: "('p nclient \<Rightarrow> 'a \<times> 'p nclient) \<Rightarrow> bool" where
  "keeps_conn f \<longleftrightarrow> (\<forall>c. closed (rw (snd (f c))) = closed (rw c))"

lemma rpc_keeps_closed [simp]: "closed (rw (snd (rpc react ctx req c))) = closed (rw c)"
proof -
  have w: "closed k = closed (rw c)" if "conn_write react d (rw c) = (e, k)" for d e k
    using that conn_write_keeps_closed [of react d "rw c"] by simp
  have r: "closed k' = closed k" if "conn_ReadFull n k = (e, k')" for n k k' and e :: "bytes result"
    using that conn_ReadFull_keeps(1) [of n k] by simp
  show ?thesis
    by (auto simp: rpc_def Let_def dest: w r split: option.splits sum.splits prod.splits)
qed

lemma tagged_rpc_keeps_closed [simp]:
  "closed (rw (snd (tagged_rpc react ctx mk c))) = closed (rw c)"
  by (simp add: tagged_rpc_def nextTag_def Let_def case_prod_beta)

lemma map_reply_snd [simp]: "snd (map_reply g m) = snd m"
  by (simp add: map_reply_def case_prod_beta)

lemma keeps_conn_ops [simp, intro]:
  "keeps_conn (Version react ctx v)" "keeps_conn (Attach react ctx i u an)"
  "keeps_conn (Walk react ctx i j ns)" "keeps_conn (Open react ctx i m)"
  "keeps_conn (Create react ctx i b perm m)" "keeps_conn (Read react ctx i off n)"
  "keeps_conn (Write react ctx i off d)" "keeps_conn (Clunk react ctx i)"
  "keeps_conn (Remove react ctx i)" "keeps_conn (Stat react ctx i)"
  "keeps_conn (Wstat react ctx i dir)"
  by (simp_all add: keeps_conn_def Version_def Attach_def Walk_def Open_def Create_def Read_def
      Write_def Clunk_def Remove_def Stat_def Wstat_def)

definition kept :: "('s \<Rightarrow> bool) \<Rightarrow> ('s \<Rightarrow> 'a \<times> 's) \<Rightarrow> bool" where
  "kept I m \<longleftrightarrow> (\<forall>x. I x \<longrightarrow> I (snd (m x)))"

lemma keptI: "(\<And>x. I x \<Longrightarrow> I (snd (m x))) \<Longrightarrow> kept I m"
  by (simp add: kept_def)

lemma keptD: "kept I m \<Longrightarrow> I x \<Longrightarrow> m x = (r, x') \<Longrightarrow> I x'"
  by (auto simp: kept_def)

locale client_invariant =
  fixes react :: "'p peer_fn" and openfs :: "('o, 'p) opener_fn"
    and I :: "('o, 'p) xclient \<Rightarrow> bool"
  assumes update_kept:
      "I x \<Longrightarrow> closed (rw c) = closed (rw (heap x ! a)) \<Longrightarrow> I (x\<lparr>heap := (heap x)[a := c]\<rparr>)"
    and drop_kept: "I x \<Longrightarrow> I (drop_connection x)"
    and connect_kept: "I x \<Longrightarrow> I (snd (connect react openfs ctx x))"
begin

lemma call_kept: "keeps_conn f \<Longrightarrow> I x \<Longrightarrow> I (snd (call a f x))"
  by (simp add: call_def keeps_conn_def case_prod_beta update_kept)

lemma record_kept: "I x \<Longrightarrow> I (snd (recordError r x))"
  by (cases r) (simp_all add: drop_kept recordError.simps split: option.splits)

lemma recordD: "recordError r x = (q, x') \<Longrightarrow> I x \<Longrightarrow> I x'"
  using record_kept [of x r] by simp

lemma ret_kept: "kept I (ret r)"
  by (simp add: kept_def ret_def)

lemma kept_call: "keeps_conn f \<Longrightarrow> kept I (call a f)"
  by (simp add: kept_def call_kept)

lemma kept_connect: "kept I (connect react openfs ctx)"
  by (simp add: kept_def connect_kept)

lemma alloc_is_call:
  "alloc_fid a = call a (\<lambda>c. (Inr (fst (AllocFID c)), snd (AllocFID c)))"
  by (simp add: fun_eq_iff alloc_fid_def call_def case_prod_beta)

lemma kept_alloc: "kept I (alloc_fid a)"
  unfolding alloc_is_call by (intro kept_call) (simp add: keeps_conn_def AllocFID_def Let_def)

lemma kept_attempt: "kept I m \<Longrightarrow> (\<And>v. kept I (k v)) \<Longrightarrow> kept I (attempt m k)"
  by (auto simp: kept_def attempt_def split: prod.splits sum.splits intro: record_kept)
    (metis snd_conv record_kept)+

lemma kept_deferred: "kept I d \<Longrightarrow> kept I m \<Longrightarrow> kept I (deferred d m)"
  by (auto simp: kept_def deferred_def Let_def case_prod_beta)

lemma kept_recorded: "kept I m \<Longrightarrow> kept I (recorded m)"
  by (auto simp: kept_def recorded_def Let_def case_prod_beta intro: record_kept)

lemma kept_or_clunk:
  assumes "kept I m" "\<And>v. kept I (k v)"
  shows "kept I (or_clunk react a i m k)"
proof (rule keptI)
  fix x assume "I x"
  with assms(1) have "I (snd (m x))" by (simp add: kept_def)
  moreover from this have "I (snd (call a (Clunk react None i) (snd (m x))))"
    by (intro call_kept) simp_all
  ultimately show "I (snd (or_clunk react a i m k x))"
    using assms(2) by (auto simp: or_clunk_def kept_def intro: record_kept split: prod.splits sum.splits)
qed

lemmas kept_rules = ret_kept kept_call kept_connect kept_alloc kept_attempt kept_deferred
  kept_recorded kept_or_clunk keeps_conn_ops

lemma kept_stat_or_clunk:
  "kept I (\<lambda>x. case call a (Stat react ctx i) x of
     (Inl e, x1) \<Rightarrow> recordError (Inl e) (snd (call a (Clunk react None i) x1))
   | (Inr d, x1) \<Rightarrow> (Inr (a, i, d), x1))"
proof -
  have "kept I (or_clunk react a i (call a (Stat react ctx i)) (\<lambda>d. ret (Inr (a, i, d))))"
    by (intro kept_rules)
  then show ?thesis unfolding or_clunk_def ret_def .
qed

lemma kept_walkTo: "kept I (walkTo react openfs ctx p)"
  unfolding walkTo_def by (intro kept_rules kept_stat_or_clunk)

lemma kept_update_dir: "kept I (update_dir react openfs ctx p f)"
  unfolding update_dir_def
  by (auto intro!: kept_rules kept_walkTo split: sum.splits)

lemma kept_Close: "kept I (remoteFile_Close react f)"
  unfolding remoteFile_Close_def by (intro kept_rules)

lemma kept_fs_Create: "kept I (fs_Create react openfs now ctx p perm flags)"
  unfolding fs_Create_def Let_def case_prod_beta by (intro kept_rules kept_walkTo)

lemma kept_operations:
  "kept I (fs_Stat react openfs ctx p)"
  "kept I (fs_Open react openfs ctx p flags)"
  "kept I (fs_Create react openfs now ctx p perm flags)"
  "kept I (fs_Mkdir react openfs now ctx p perm)"
  "kept I (fs_Remove react openfs ctx p)"
  "kept I (fs_Rename react openfs ctx p q)"
  "kept I (fs_Chmod react openfs ctx p perm)"
  "kept I (fs_Truncate react openfs ctx p sz)"
  "kept I (remoteFile_Close react f)"
  unfolding fs_Stat_def fs_Open_def fs_Mkdir_def fs_Remove_def fs_Rename_def fs_Chmod_def
    fs_Truncate_def case_prod_beta
  by (intro kept_rules kept_walkTo kept_update_dir kept_Close kept_fs_Create)+

lemma kept_readat_loop: "I x \<Longrightarrow> I (snd (readat_loop re f off n p x))"
proof (induction re f off n p x rule: readat_loop.induct)
  case (1 re f off n p x)
  let ?chunk = "io_chunk (length p) n"
  obtain r x1 where c: "call (rf_client f) (Read re None (rf_fid f) (off + of_nat n) (of_nat ?chunk)) x = (r, x1)"
    by fastforce
  then have I1: "I x1" using call_kept [OF keeps_conn_ops(6) "1.prems"] by (metis snd_conv)
  show ?case
  proof (cases r)
    case (Inl e)
    show ?thesis
      using "1.prems" I1 record_kept [OF I1, of "Inl e :: unit result"] c Inl
      by (subst readat_loop.simps) (auto split: prod.splits sum.splits)
  next
    case (Inr d)
    show ?thesis
      using "1.prems" I1 c Inr "1.IH" [OF _ refl c [symmetric] Inr refl]
      by (subst readat_loop.simps) (auto split: prod.splits)
  qed
qed

lemma kept_writeat_loop: "I x \<Longrightarrow> I (snd (writeat_loop re f off n p x))"
proof (induction re f off n p x rule: writeat_loop.induct)
  case (1 re f off n p x)
  let ?chunk = "io_chunk (length p) n"
  obtain r x1 where c: "call (rf_client f)
      (Write re None (rf_fid f) (off + of_nat n) (take ?chunk (drop n p))) x = (r, x1)"
    by fastforce
  then have I1: "I x1" using call_kept [OF keeps_conn_ops(7) "1.prems"] by (metis snd_conv)
  show ?case
  proof (cases r)
    case (Inl e)
    show ?thesis
      using "1.prems" I1 record_kept [OF I1, of "Inl e :: unit result"] c Inl
      by (subst writeat_loop.simps) (auto split: prod.splits sum.splits)
  next
    case (Inr d)
    show ?thesis
      using "1.prems" I1 c Inr "1.IH" [OF _ refl c [symmetric] Inr]
      by (subst writeat_loop.simps) auto
  qed
qed

definition list_ok :: "('o, 'p) list_state \<Rightarrow> bool" where
  "list_ok s = (case s of Inl (_, _, x) \<Rightarrow> I x | Inr (_, x) \<Rightarrow> I x)"

lemma list_round_ok: "list_ok s \<Longrightarrow> list_ok (list_round re ctx p a i s)"
proof (induction re ctx p a i s rule: list_round.induct)
  case (2 re ctx p a i off es x)
  obtain d x1 where c: "call a (Read re ctx i off 8192) x = (d, x1)" by fastforce
  have "I x" using 2 by (simp add: list_ok_def)
  then have "I x1" using keptD [OF kept_call [OF keeps_conn_ops(6)] _ c] by blast
  then show ?case
    by (auto simp: list_ok_def c dest: recordD split: sum.splits prod.splits)
qed simp

lemma kept_list_loop:
  assumes "list_loop re ctx p a i (Inl (off, es, x)) = Some (r, x')" "I x"
  shows "I x'"
proof -
  from assms(1) obtain t where t: "while_option isl (list_round re ctx p a i) (Inl (off, es, x)) = Some t"
    and r: "projr t = (r, x')" by (auto simp: list_loop_def)
  have "list_ok t"
    using while_option_rule [where P = list_ok, OF _ t] assms(2) list_round_ok
    by (auto simp: list_ok_def)
  moreover have "\<not> isl t" using while_option_stop [OF t] .
  ultimately show ?thesis using r by (cases t) (auto simp: list_ok_def)
qed

lemma kept_fs_List:
  assumes "fs_List react openfs ctx p x = Some (r, x')" "I x"
  shows "I x'"
proof -
  obtain w x1 where w: "walkTo react openfs ctx p x = (w, x1)" by fastforce
  have I1: "I x1" using kept_walkTo assms(2) w by (rule keptD)
  show ?thesis
  proof (cases w)
    case (Inl e)
    with assms(1) w I1 show ?thesis
      by (auto simp: fs_List_def dest: recordD)
  next
    case (Inr v)
    obtain a i d where v: "v = (a, i, d)" by (cases v)
    obtain q x2 where o: "call a (Open react ctx i 0) x1 = (q, x2)" by fastforce
    have I2: "I x2" using kept_call [OF keeps_conn_ops(4)] I1 o by (rule keptD)
    have "I x3" if "(case q of Inl e \<Rightarrow> Some (recordError (Inl e) x2)
        | Inr _ \<Rightarrow> list_loop react ctx p a i (Inl (0, [], x2))) = Some (r2, x3)" for r2 x3
      using that I2 by (auto split: sum.splits dest: kept_list_loop recordD)
    with assms(1) w Inr v o show ?thesis
      by (auto simp: fs_List_def intro!: call_kept)
  qed
qed

end

subsection \<open>Which connections are open\<close>

text \<open>
  \<open>conn_inv H x\<close>: every 9P client ever made is the current one, or one of those that
  calls of \<open>connect\<close> are still setting up (the addresses \<open>H\<close>), or closed; and a client
  that is unhealthy has no current connection.
\<close>

definition conn_inv :: "nat set \<Rightarrow> ('o, 'p) xclient \<Rightarrow> bool" where
  "conn_inv H x \<longleftrightarrow>
     (unhealthy x = None \<or> unhealthy x = Some ErrDisconnected \<and> client x = None) \<and>
     (\<forall>a. client x = Some a \<longrightarrow> a < length (heap x) \<and> a \<notin> H) \<and>
     H \<subseteq> {..<length (heap x)} \<and>
     (\<forall>b < length (heap x). client x \<noteq> Some b \<and> b \<notin> H \<longrightarrow> closed (rw (heap x ! b)))"

lemma closed_Close [simp]: "closed (rw (Close c))"
  by (simp add: Close_def)

lemma conn_inv_update:
  "conn_inv H x \<Longrightarrow> closed (rw c) = closed (rw (heap x ! a)) \<Longrightarrow> conn_inv H (x\<lparr>heap := (heap x)[a := c]\<rparr>)"
  by (auto simp: conn_inv_def nth_list_update_if)

lemma conn_inv_close:
  "conn_inv H x \<Longrightarrow> client x \<noteq> Some a \<Longrightarrow> conn_inv (H - {a}) (close_at a x)"
  by (auto simp: conn_inv_def close_at_def nth_list_update_if)

lemma conn_inv_drop: "conn_inv H x \<Longrightarrow> conn_inv H (drop_connection x)"
  by (auto simp: conn_inv_def drop_connection_def close_at_def nth_list_update_if Let_def split: option.splits)

lemma conn_inv_call: "keeps_conn f \<Longrightarrow> conn_inv H x \<Longrightarrow> conn_inv H (snd (call a f x))"
  by (simp add: call_def keeps_conn_def case_prod_beta conn_inv_update)

lemma conn_inv_record: "conn_inv H x \<Longrightarrow> conn_inv H (snd (recordError r x))"
  by (cases r) (simp_all add: conn_inv_drop recordError.simps split: option.splits)

lemma conn_inv_opened:
  "conn_inv H x \<Longrightarrow> open_stream openfs ctx x = (Inr a, x') \<Longrightarrow>
   conn_inv (insert a H) x' \<and> a \<notin> H \<and> client x' = client x"
  by (auto simp: conn_inv_def open_stream_def nth_append less_Suc_eq split: sum.splits prod.splits)

lemma conn_inv_open_failed:
  "conn_inv H x \<Longrightarrow> open_stream openfs ctx x = (Inl e, x') \<Longrightarrow> conn_inv H x'"
  by (auto simp: conn_inv_def open_stream_def split: sum.splits prod.splits)

lemma conn_inv_install:
  "conn_inv H x \<Longrightarrow> a \<in> H \<Longrightarrow> conn_inv (H - {a}) (snd (install a x))"
  by (auto simp: install_def conn_inv_def close_at_def nth_list_update_if split: option.splits)

lemma conn_inv_or_close:
  assumes "conn_inv H x" "a \<in> H" "keeps_conn f" "or_close a (call a f) k x = (r, x')"
    and "\<And>y. conn_inv H y \<Longrightarrow> k y = (r, x') \<Longrightarrow>
        (case r of Inl _ \<Rightarrow> conn_inv (H - {a}) x' | Inr b \<Rightarrow> b = a \<and> conn_inv H x')"
  shows "case r of Inl _ \<Rightarrow> conn_inv (H - {a}) x' | Inr b \<Rightarrow> b = a \<and> conn_inv H x'"
proof -
  obtain q y where c: "call a f x = (q, y)" by fastforce
  then have y: "conn_inv H y" using conn_inv_call [OF assms(3,1), of a] by simp
  show ?thesis
  proof (cases q)
    case (Inl e)
    have "conn_inv (H - {a}) (close_at a y)"
      using y assms(2) by (intro conn_inv_close) (auto simp: conn_inv_def)
    then have "conn_inv (H - {a}) (snd (recordError (Inl e :: nat result) (close_at a y)))"
      by (rule conn_inv_record)
    then show ?thesis
      using assms(4) c Inl by (auto simp: or_close_def recordError.simps split: sum.splits option.splits if_splits)
  next
    case (Inr v)
    with assms(4,5) c y show ?thesis by (simp add: or_close_def)
  qed
qed

lemma conn_inv_dial:
  assumes "conn_inv H x" "dial react openfs ctx x = (r, x')"
  shows "case r of Inl _ \<Rightarrow> conn_inv H x' | Inr a \<Rightarrow> a \<notin> H \<and> conn_inv (insert a H) x'"
proof (cases "open_stream openfs ctx x")
  case (Pair q y)
  show ?thesis
  proof (cases q)
    case (Inl e)
    then have "conn_inv H y" using conn_inv_open_failed assms(1) Pair by blast
    then have "conn_inv H (snd (recordError (Inl e :: nat result) y))" by (rule conn_inv_record)
    with assms(2) Pair Inl show ?thesis
      by (auto simp: dial_def attempt_def recordError.simps split: sum.splits option.splits if_splits)
  next
    case (Inr a)
    then have y: "conn_inv (insert a H) y" "a \<notin> H" using conn_inv_opened assms(1) Pair by blast+
    from assms(2) Pair Inr have d: "or_close a (call a (Version react ctx ''9P2000''))
         (or_close a (call a (Attach react ctx 1 [] [])) (ret (Inr a))) y = (r, x')"
      by (simp add: dial_def attempt_def)
    have "case r of Inl _ \<Rightarrow> conn_inv (insert a H - {a}) x' | Inr b \<Rightarrow> b = a \<and> conn_inv (insert a H) x'"
      by (rule conn_inv_or_close [OF y(1) _ _ d], simp, simp, erule conn_inv_or_close)
        (auto simp: ret_def)
    with y(2) show ?thesis by (auto split: sum.splits)
  qed
qed

lemma conn_inv_connect:
  assumes "conn_inv H x"
  shows "conn_inv H (snd (connect react openfs ctx x))"
proof (cases "connect_check x")
  case None
  obtain r y where d: "dial react openfs ctx x = (r, y)" by fastforce
  note i = conn_inv_dial [OF assms d]
  show ?thesis
  proof (cases r)
    case (Inr a)
    with i have "conn_inv (insert a H - {a}) (snd (install a y))"
      by (intro conn_inv_install) simp_all
    with None d i Inr show ?thesis by (simp add: connect_def)
  qed (use None d i in \<open>simp add: connect_def\<close>)
qed (use assms in \<open>simp add: connect_def\<close>)

interpretation conn: client_invariant react openfs "conn_inv H"
  by unfold_locales (simp_all add: conn_inv_update conn_inv_drop conn_inv_connect)

text \<open>
  A client that lost its connection: nothing opens a new one, and the heap keeps its size.
\<close>

definition lost :: "'o \<Rightarrow> nat \<Rightarrow> ('o, 'p) xclient \<Rightarrow> bool" where
  "lost op n x \<longleftrightarrow> unhealthy x = Some ErrDisconnected \<and> client x = None \<and> opener x = op \<and>
     length (heap x) = n"

interpretation lost_for_good: client_invariant react openfs "lost op n"
  by unfold_locales (simp_all add: lost_def drop_connection_def Let_def connect_def connect_check_def)

subsection \<open>Reachable states\<close>

text \<open>The states of a client that one thread uses, with any opener and any peer.\<close>

inductive fs_reach :: "'p peer_fn \<Rightarrow> ('o, 'p) opener_fn \<Rightarrow> ('o, 'p) xclient \<Rightarrow> bool"
  for react openfs where
  new: "fs_reach react openfs (fs_New op root)"
| stat: "fs_reach react openfs x \<Longrightarrow> fs_reach react openfs (snd (fs_Stat react openfs ctx p x))"
| list_dir: "fs_reach react openfs x \<Longrightarrow> fs_List react openfs ctx p x = Some (r, x') \<Longrightarrow>
    fs_reach react openfs x'"
| open_file: "fs_reach react openfs x \<Longrightarrow>
    fs_reach react openfs (snd (fs_Open react openfs ctx p flags x))"
| create: "fs_reach react openfs x \<Longrightarrow>
    fs_reach react openfs (snd (fs_Create react openfs now ctx p perm flags x))"
| mkdir: "fs_reach react openfs x \<Longrightarrow>
    fs_reach react openfs (snd (fs_Mkdir react openfs now ctx p perm x))"
| remove: "fs_reach react openfs x \<Longrightarrow> fs_reach react openfs (snd (fs_Remove react openfs ctx p x))"
| rename: "fs_reach react openfs x \<Longrightarrow>
    fs_reach react openfs (snd (fs_Rename react openfs ctx p q x))"
| chmod: "fs_reach react openfs x \<Longrightarrow>
    fs_reach react openfs (snd (fs_Chmod react openfs ctx p perm x))"
| truncate: "fs_reach react openfs x \<Longrightarrow>
    fs_reach react openfs (snd (fs_Truncate react openfs ctx p sz x))"
| read_at: "fs_reach react openfs x \<Longrightarrow> fs_reach react openfs (snd (ReadAt react f buf off x))"
| write_at: "fs_reach react openfs x \<Longrightarrow> fs_reach react openfs (snd (WriteAt react f buf off x))"
| close_file: "fs_reach react openfs x \<Longrightarrow> fs_reach react openfs (snd (remoteFile_Close react f x))"

text \<open>Every predicate of \<open>client_invariant\<close> that holds at first holds always.\<close>

lemma fs_reach_conn_inv: "fs_reach react openfs x \<Longrightarrow> conn_inv {} x"
proof (induction rule: fs_reach.induct)
  case (new op root)
  then show ?case by (simp add: fs_New_def conn_inv_def)
next
  case (list_dir x ctx p r x')
  then show ?case by (blast intro: conn.kept_fs_List)
qed (simp_all add: ReadAt_def WriteAt_def conn.kept_readat_loop conn.kept_writeat_loop
    conn.kept_operations [unfolded kept_def, rule_format])

lemma unhealthy_connect:
  "unhealthy x = Some e \<Longrightarrow> connect react openfs ctx x = (Inl e, x)"
  by (simp add: connect_def connect_check_def)

lemma record_disconnected [simp]:
  "recordError (Inl ErrDisconnected) x = (Inl ErrDisconnected, x)"
  by (simp add: recordError.simps)

lemma unhealthy_walkTo:
  "unhealthy x = Some ErrDisconnected \<Longrightarrow>
   walkTo react openfs ctx p x = (Inl ErrDisconnected, x)"
  by (simp add: walkTo_def attempt_def unhealthy_connect)

subsection \<open>Interleavings of connect\<close>

text \<open>
  Several threads in \<open>connect\<close> at once: what each holds, and the steps between the
  points where the mutex is taken. A thread that found no client opens a stream, runs the
  handshake on its own 9P client, and installs it or, after a failure, closes it. At any
  time other threads call operations on any 9P client and record errors.
\<close>

datatype phase = Idle | Opening | Dialing nat

inductive conn_step ::
  "('o, 'p) opener_fn \<Rightarrow> ('o, 'p) xclient \<times> (nat \<Rightarrow> phase) \<Rightarrow>
   ('o, 'p) xclient \<times> (nat \<Rightarrow> phase) \<Rightarrow> bool"
  for openfs where
  check: "ph t = Idle \<Longrightarrow> connect_check x = None \<Longrightarrow> conn_step openfs (x, ph) (x, ph(t := Opening))"
| opened: "ph t = Opening \<Longrightarrow> open_stream openfs ctx x = (Inr a, x') \<Longrightarrow>
    conn_step openfs (x, ph) (x', ph(t := Dialing a))"
| open_failed: "ph t = Opening \<Longrightarrow> open_stream openfs ctx x = (Inl e, x') \<Longrightarrow>
    conn_step openfs (x, ph) (x', ph(t := Idle))"
| handshake_failed: "ph t = Dialing a \<Longrightarrow> conn_step openfs (x, ph) (close_at a x, ph(t := Idle))"
| installed: "ph t = Dialing a \<Longrightarrow> conn_step openfs (x, ph) (snd (install a x), ph(t := Idle))"
| called: "keeps_conn (f :: 'p nclient \<Rightarrow> fcall result \<times> 'p nclient) \<Longrightarrow>
    conn_step openfs (x, ph) (snd (call b f x), ph)"
| recorded: "conn_step openfs (x, ph) (snd (recordError (Inl e :: unit result) x), ph)"

inductive conn_run ::
  "('o, 'p) opener_fn \<Rightarrow> ('o, 'p) xclient \<times> (nat \<Rightarrow> phase) \<Rightarrow> bool" for openfs where
  start: "conn_run openfs (fs_New op root, \<lambda>_. Idle)"
| step: "conn_run openfs s \<Longrightarrow> conn_step openfs s s' \<Longrightarrow> conn_run openfs s'"

definition held :: "(nat \<Rightarrow> phase) \<Rightarrow> nat set" where
  "held ph = {a. \<exists>t. ph t = Dialing a}"

definition own_phase :: "(nat \<Rightarrow> phase) \<Rightarrow> bool" where
  "own_phase ph \<longleftrightarrow> (\<forall>t u a. ph t = Dialing a \<and> ph u = Dialing a \<longrightarrow> t = u)"

lemma held_release:
  "own_phase ph \<Longrightarrow> ph t = Dialing a \<Longrightarrow>
   held (ph(t := Idle)) = held ph - {a} \<and> own_phase (ph(t := Idle))"
  unfolding held_def own_phase_def by (auto split: if_splits) (metis phase.inject)

lemma held_take:
  "own_phase ph \<Longrightarrow> \<forall>b. ph t \<noteq> Dialing b \<Longrightarrow> a \<notin> held ph \<Longrightarrow>
   held (ph(t := Dialing a)) = insert a (held ph) \<and> own_phase (ph(t := Dialing a))"
  by (auto simp: held_def own_phase_def split: if_splits)

lemma held_same:
  "\<forall>b. ph t \<noteq> Dialing b \<Longrightarrow> \<forall>b. q \<noteq> Dialing b \<Longrightarrow>
   held (ph(t := q)) = held ph \<and> own_phase (ph(t := q)) = own_phase ph"
  by (auto simp: held_def own_phase_def split: if_splits) metis+

definition run_inv :: "('o, 'p) xclient \<times> (nat \<Rightarrow> phase) \<Rightarrow> bool" where
  "run_inv s \<longleftrightarrow> conn_inv (held (snd s)) (fst s) \<and> own_phase (snd s)"

lemma conn_step_inv:
  assumes "conn_step openfs s s'" "run_inv s"
  shows "run_inv s'"
  using assms
proof (induction rule: conn_step.induct)
  case (opened ph t ctx x a x')
  then have "conn_inv (insert a (held ph)) x' \<and> a \<notin> held ph"
    using conn_inv_opened by (fastforce simp: run_inv_def)
  with opened held_take [of ph t a] show ?case by (simp add: run_inv_def)
next
  case (open_failed ph t ctx x e x')
  then have "conn_inv (held ph) x'" using conn_inv_open_failed by (fastforce simp: run_inv_def)
  with open_failed held_same [of ph t Idle] show ?case by (simp add: run_inv_def)
next
  case (handshake_failed ph t a x)
  then have "a \<in> held ph" by (auto simp: held_def)
  with handshake_failed have "conn_inv (held ph - {a}) (close_at a x)"
    by (intro conn_inv_close) (auto simp: run_inv_def conn_inv_def)
  with handshake_failed held_release [of ph t a] show ?case by (simp add: run_inv_def)
next
  case (installed ph t a x)
  then have "conn_inv (held ph - {a}) (snd (install a x))"
    by (intro conn_inv_install) (auto simp: run_inv_def held_def)
  with installed held_release [of ph t a] show ?case by (simp add: run_inv_def)
qed (simp_all add: run_inv_def conn_inv_call conn_inv_record held_same)

lemma conn_run_inv: "conn_run openfs s \<Longrightarrow> run_inv s"
proof (induction rule: conn_run.induct)
  case (start op root)
  then show ?case by (auto simp: run_inv_def fs_New_def conn_inv_def held_def own_phase_def)
qed (rule conn_step_inv)

subsection \<open>Where walks lead\<close>

lemma cleanPath_eq: "cleanPath p = rooted_path (path_names p)"
  by (simp add: cleanPath_def Clean_rooted rooted_path_def)

lemma walk_names_cleanPath: "walk_names (cleanPath p) = path_names p"
proof (cases "path_names p = []")
  case True
  then show ?thesis by (simp add: walk_names_def cleanPath_eq rooted_path_def)
next
  case False
  then show ?thesis
    by (simp add: walk_names_def cleanPath_eq rooted_path_eq_root rooted_path_split path_names_name)
qed

lemma create_names:
  assumes "path_names p = ns @ [n]"
  shows "snd (path_Split (cleanPath p)) = n"
    and "walk_names (cleanPath (fst (path_Split (cleanPath p)))) = ns"
proof -
  have ns: "list_all path_name (ns @ [n])" using path_names_name [of p] assms by simp
  show "snd (path_Split (cleanPath p)) = n"
    using path_Split_rooted(1) [OF ns] by (simp add: cleanPath_eq assms)
  show "walk_names (cleanPath (fst (path_Split (cleanPath p)))) = ns"
    unfolding walk_names_cleanPath using path_Split_rooted(2) [OF ns] by (simp add: cleanPath_eq assms)
qed

subsection \<open>Classification of errors\<close>

lemma Contains_Nil: "Contains [] p \<longleftrightarrow> p = []"
  by (simp add: Contains_def)

lemma Contains_Cons: "Contains (x # s) p \<longleftrightarrow> HasPrefix (x # s) p \<or> Contains s p"
  by (simp add: Contains_def)

lemma HasPrefix_Cons: "HasPrefix (x # s) (y # p) \<longleftrightarrow> x = y \<and> HasPrefix s p"
  by (simp add: HasPrefix_def)

lemma HasPrefix_empty: "\<not> HasPrefix [] (y # p)"
  by (simp add: HasPrefix_def)

lemmas contains_eval = HasPrefix_empty Contains_Nil Contains_Cons HasPrefix_Cons

lemma ToLower_append: "ToLower (s @ t) = ToLower s @ ToLower t"
  by (simp add: ToLower_def)

lemma lower_texts:
  "ToLower ''file does not exist: '' = ''file does not exist: ''"
  "ToLower ''permission denied: '' = ''permission denied: ''"
  "ToLower ''file already exists: '' = ''file already exists: ''"
  by code_simp+

text \<open>The three families of remote errors that \<open>normalizeRemoteError\<close> recognises.\<close>

definition not_found_text :: "bytes \<Rightarrow> bool" where
  "not_found_text m \<longleftrightarrow> Contains m ''directory entry not found'' \<or> Contains m ''does not exist'' \<or>
     Contains m ''not found''"

definition exists_text :: "bytes \<Rightarrow> bool" where
  "exists_text m \<longleftrightarrow> Contains m ''file exists'' \<or> Contains m ''already exists''"

definition denied_text :: "bytes \<Rightarrow> bool" where
  "denied_text m \<longleftrightarrow> Contains m ''permission denied''"

lemma normalize_cases:
  "normalizeRemoteError e =
     (let m = ToLower (error_text e) in
      if not_found_text m then Some (WrapError (''file does not exist: '' @ error_text e) OsErrNotExist)
      else if denied_text m then Some (WrapError (''permission denied: '' @ error_text e) OsErrPermission)
      else if exists_text m then Some (WrapError (''file already exists: '' @ error_text e) OsErrExist)
      else None)"
  by (simp add: normalizeRemoteError_def not_found_text_def denied_text_def exists_text_def Let_def)

lemma prefixed_texts:
  "not_found_text (''file does not exist: '' @ m)"
  "not_found_text (''permission denied: '' @ m) = not_found_text m"
  "denied_text (''permission denied: '' @ m)"
  "not_found_text (''file already exists: '' @ m) = not_found_text m"
  "denied_text (''file already exists: '' @ m) = denied_text m"
  "exists_text (''file already exists: '' @ m)"
  by (simp_all add: not_found_text_def denied_text_def exists_text_def contains_eval)

lemma normalize_wrapped:
  "normalizeRemoteError (WrapError (''file does not exist: '' @ m) e) =
     Some (WrapError (''file does not exist: '' @ ''file does not exist: '' @ m) OsErrNotExist)"
  "\<not> not_found_text (ToLower m) \<Longrightarrow> normalizeRemoteError (WrapError (''permission denied: '' @ m) e) =
     Some (WrapError (''permission denied: '' @ ''permission denied: '' @ m) OsErrPermission)"
  "\<not> not_found_text (ToLower m) \<Longrightarrow> \<not> denied_text (ToLower m) \<Longrightarrow>
   normalizeRemoteError (WrapError (''file already exists: '' @ m) e) =
     Some (WrapError (''file already exists: '' @ ''file already exists: '' @ m) OsErrExist)"
  by (simp_all only: normalize_cases error_text.simps ToLower_append lower_texts Let_def prefixed_texts
      if_True if_False)

text \<open>The class of an error: the portable errors it is, and whether the connection is lost.\<close>

definition error_class :: "'a result \<Rightarrow> bool list" where
  "error_class r = (case r of Inr _ \<Rightarrow> [] | Inl e \<Rightarrow>
     map (errors_Is e) [ErrNotSupported, ErrDisconnected, CtxCanceled, CtxDeadlineExceeded,
       OsErrNotExist, OsErrPermission, OsErrExist])"

lemma record_wrapped:
  assumes "normalizeRemoteError (WrapError a s) = Some (WrapError b s)"
    and "s \<in> {OsErrNotExist, OsErrPermission, OsErrExist}"
  shows "\<exists>r2. recordError (Inl (WrapError a s)) y = (r2, y) \<and>
    error_class r2 = error_class (Inl (WrapError a s) :: 'a result)"
  using assms by (auto simp: recordError.simps error_class_def)

lemma normalize_again:
  assumes "normalizeRemoteError e = Some n"
  shows "\<exists>a b s. n = WrapError a s \<and> s \<in> {OsErrNotExist, OsErrPermission, OsErrExist} \<and>
    normalizeRemoteError n = Some (WrapError b s)"
proof -
  let ?m = "ToLower (error_text e)"
  consider "not_found_text ?m" | "\<not> not_found_text ?m" "denied_text ?m"
    | "\<not> not_found_text ?m" "\<not> denied_text ?m" "exists_text ?m"
    using assms by (auto simp: normalize_cases Let_def split: if_splits)
  then show ?thesis
  proof cases
    case 1
    then have n: "n = WrapError (''file does not exist: '' @ error_text e) OsErrNotExist"
      using assms by (simp only: normalize_cases Let_def if_True option.inject)
    show ?thesis unfolding n using normalize_wrapped(1) by blast
  next
    case 2
    then have n: "n = WrapError (''permission denied: '' @ error_text e) OsErrPermission"
      using assms by (simp only: normalize_cases Let_def if_True if_False option.inject)
    show ?thesis unfolding n using normalize_wrapped(2) [OF 2(1)] by blast
  next
    case 3
    then have n: "n = WrapError (''file already exists: '' @ error_text e) OsErrExist"
      using assms by (simp only: normalize_cases Let_def if_True if_False option.inject)
    show ?thesis unfolding n using normalize_wrapped(3) [OF 3(1,2)] by blast
  qed
qed

lemma record_again:
  assumes "recordError r x = (r1, x1)"
  shows "\<exists>r2. recordError r1 y = (r2, y) \<and> error_class r2 = error_class r1"
proof (cases r)
  case (Inr v)
  with assms show ?thesis by auto
next
  case (Inl e)
  consider "r1 = Inl ErrDisconnected" | n where "normalizeRemoteError e = Some n" "r1 = Inl n"
    | "r1 = Inl e" "recordError (Inl e) y = (r1, y)"
    using assms Inl by (auto simp: recordError.simps split: if_splits option.splits)
  then show ?thesis
  proof cases
    case 2
    then show ?thesis using normalize_again [OF 2(1)] record_wrapped by metis
  qed auto
qed

subsection \<open>Properties\<close>

text \<open>
  Property C6: no connection is leaked or shared by mistake, whatever the interleaving of
  threads in \<open>connect\<close>. Every 9P client that was ever made is the current client, or is
  being set up by exactly one thread, or is closed; the current client is nobody's
  half-made one; and once the client is unhealthy it has no current connection, even when a
  thread finishes dialling after the connection was given up.
\<close>

theorem connect_interleavings:
  assumes "conn_run openfs (x, ph)"
  shows "(\<forall>b < length (heap x).
      client x = Some b \<or> (\<exists>!t. ph t = Dialing b) \<or> closed (rw (heap x ! b))) \<and>
    (\<forall>b t. client x = Some b \<longrightarrow> b < length (heap x) \<and> ph t \<noteq> Dialing b) \<and>
    (unhealthy x \<noteq> None \<longrightarrow> unhealthy x = Some ErrDisconnected \<and> client x = None)"
  using conn_run_inv [OF assms]
  by (auto simp: run_inv_def conn_inv_def held_def own_phase_def)

definition example_conn :: "nat conn" where
  "example_conn = \<lparr>peer = 0, inbuf = [], rderr = IoEOF, closed = False\<rparr>"

definition example_opener :: "(nat, nat) opener_fn" where
  "example_opener n ctx root = (Inr example_conn, Suc n)"

text \<open>Two threads dial; the second finds the client of the first installed and closes its own.\<close>

theorem connect_interleavings_witness:
  "\<exists>x :: (nat, nat) xclient. \<exists>ph. conn_run example_opener (x, ph) \<and> length (heap x) = 2 \<and>
     client x = Some 0 \<and> closed (rw (heap x ! 1))"
proof -
  let ?x0 = "fs_New 0 ''/n'' :: (nat, nat) xclient" and ?p0 = "(\<lambda>_. Idle) :: nat \<Rightarrow> phase"
  let ?x1 = "?x0\<lparr>opener := 1, heap := [NewClient example_conn]\<rparr>"
  let ?x2 = "?x0\<lparr>opener := 2, heap := [NewClient example_conn, NewClient example_conn]\<rparr>"
  let ?x3 = "?x2\<lparr>client := Some 0\<rparr>"
  let ?p4 = "?p0(0 := Opening, 1 := Opening, 0 := Dialing 0, 1 := Dialing 1)"
  have open_defs: "open_stream example_opener None ?x0 = (Inr 0, ?x1)"
    "open_stream example_opener None ?x1 = (Inr 1, ?x2)"
    by (simp_all add: open_stream_def example_opener_def fs_New_def numeral_2_eq_2)
  have c: "connect_check ?x0 = None" by (simp add: connect_check_def fs_New_def)
  have "conn_run example_opener (?x0, ?p0)" by (rule conn_run.start)
  then have "conn_run example_opener (?x0, ?p0(0 := Opening))"
    by (rule conn_run.step) (rule conn_step.check [OF _ c], simp)
  then have "conn_run example_opener (?x0, ?p0(0 := Opening, 1 := Opening))"
    by (rule conn_run.step) (rule conn_step.check [OF _ c], simp)
  then have "conn_run example_opener (?x1, ?p0(0 := Opening, 1 := Opening, 0 := Dialing 0))"
    by (rule conn_run.step) (rule conn_step.opened [OF _ open_defs(1)], simp)
  then have "conn_run example_opener (?x2, ?p4)"
    by (rule conn_run.step) (rule conn_step.opened [OF _ open_defs(2)], simp)
  then have "conn_run example_opener (snd (install 0 ?x2), ?p4(0 := Idle))"
    by (rule conn_run.step) (rule conn_step.installed, simp)
  moreover have "snd (install 0 ?x2) = ?x3" by (simp add: install_def fs_New_def)
  ultimately have "conn_run example_opener (snd (install 1 ?x3), ?p4(0 := Idle, 1 := Idle))"
    using conn_run.step [OF _ conn_step.installed [of "?p4(0 := Idle)" 1 1 example_opener ?x3]] by simp
  moreover have i: "snd (install 1 ?x3) =
      ?x3\<lparr>heap := [NewClient example_conn, Close (NewClient example_conn)]\<rparr>"
    by (simp add: install_def close_at_def fs_New_def)
  ultimately show ?thesis
    using connect_interleavings [of example_opener "snd (install 1 ?x3)" "?p4(0 := Idle, 1 := Idle)"]
    unfolding i by (intro exI [of _ "?x3\<lparr>heap := [NewClient example_conn, Close (NewClient example_conn)]\<rparr>"]
        exI [of _ "?p4(0 := Idle, 1 := Idle)"]) simp
qed

text \<open>
  Property C13: a lost connection is final and fails fast. In every state the client reaches,
  once it is unhealthy all connections are closed, and every operation on a path returns
  \<open>ErrDisconnected\<close> at once: the state, the opener's included, is left as it was, so no
  new connection is opened.
\<close>

theorem disconnect_is_final:
  assumes "fs_reach react openfs x" and "unhealthy x \<noteq> None"
  shows "(\<forall>c \<in> set (heap x). closed (rw c)) \<and>
    fs_Stat react openfs ctx p x = (Inl ErrDisconnected, x) \<and>
    fs_List react openfs ctx p x = Some (Inl ErrDisconnected, x) \<and>
    fs_Open react openfs ctx p flags x = (Inl ErrDisconnected, x) \<and>
    fs_Create react openfs now ctx p perm flags x = (Inl ErrDisconnected, x) \<and>
    fs_Mkdir react openfs now ctx p perm x = (Inl ErrDisconnected, x) \<and>
    fs_Remove react openfs ctx p x = (Inl ErrDisconnected, x) \<and>
    fs_Rename react openfs ctx p q x = (Inl ErrDisconnected, x) \<and>
    fs_Chmod react openfs ctx p perm x = (Inl ErrDisconnected, x) \<and>
    fs_Truncate react openfs ctx p sz x = (Inl ErrDisconnected, x)"
proof -
  from fs_reach_conn_inv [OF assms(1)] assms(2)
  have u: "unhealthy x = Some ErrDisconnected" and c: "\<forall>c \<in> set (heap x). closed (rw c)"
    by (auto simp: conn_inv_def in_set_conv_nth)
  note w = unhealthy_walkTo [OF u]
  show ?thesis
    using c by (simp add: fs_Stat_def fs_List_def fs_Open_def fs_Mkdir_def fs_Create_def fs_Remove_def
        fs_Rename_def fs_Chmod_def fs_Truncate_def update_dir_def attempt_def w Let_def case_prod_beta)
qed

text \<open>A peer that never answers and closes: the first operation loses the connection.\<close>

definition eof_peer :: "nat peer_fn" where
  "eof_peer n data = (None, [], Suc n)"

theorem disconnect_is_final_witness:
  "let x = snd (fs_Stat eof_peer example_opener None ''a'' (fs_New 0 ''/n'')) in
   opener x = 1 \<and> fs_Stat eof_peer example_opener None ''a'' x = (Inl ErrDisconnected, x)"
proof -
  let ?x = "snd (fs_Stat eof_peer example_opener None ''a'' (fs_New 0 ''/n'')) :: (nat, nat) xclient"
  have v: "fst (rpc eof_peer None (version_msg 8192 ''9P2000'') (NewClient example_conn)) = Inl IoEOF"
    by (simp add: rpc_def version_msg_def Marshal_def marshal_fields_def msg_types conn_write_def
        conn_ReadFull_def eof_peer_def NewClient_def example_conn_def)
  then obtain k where k: "Version eof_peer None ''9P2000'' (NewClient example_conn) = (Inl IoEOF, k)"
    by (cases "rpc eof_peer None (version_msg 8192 ''9P2000'') (NewClient example_conn)")
      (auto simp: Version_def map_reply_def NewClient_def)
  have "normalizeRemoteError IoEOF = None"
    by code_simp
  then have "unhealthy ?x \<noteq> None \<and> opener ?x = 1"
    by (simp add: fs_Stat_def walkTo_def attempt_def connect_def connect_check_def dial_def
        open_stream_def example_opener_def fs_New_def or_close_def call_def k recordError.simps
        isDisconnectError_def drop_connection_def close_at_def Let_def)
  moreover have "fs_reach eof_peer example_opener ?x" by (intro fs_reach.stat fs_reach.new)
  ultimately show ?thesis
    using disconnect_is_final [of eof_peer example_opener ?x None "''a''"] by (simp add: Let_def)
qed

text \<open>
  Property C18: walks stay below the exported root. Whatever the path, the element names
  that \<open>walkTo\<close> sends are proper names: never empty, \<open>.\<close>, \<open>..\<close> or with a slash in
  them; they are the names left after cleaning, so paths with the same names reach the same
  file; and \<open>Create\<close> walks to all but the last name and creates the last one.
\<close>

theorem walk_names_safe:
  "list_all path_name (walk_names (cleanPath p)) \<and>
   walk_names (cleanPath p) = path_names p \<and>
   cleanPath (cleanPath p) = cleanPath p \<and>
   (path_names p = ns @ [n] \<longrightarrow>
      snd (path_Split (cleanPath p)) = n \<and>
      walk_names (cleanPath (fst (path_Split (cleanPath p)))) = ns)"
proof -
  have "path_names (cleanPath p) = path_names p"
    by (simp add: cleanPath_eq path_names_rooted_path path_names_name)
  then have "cleanPath (cleanPath p) = cleanPath p" by (simp add: cleanPath_eq)
  then show ?thesis
    using create_names by (simp add: walk_names_cleanPath path_names_name)
qed

theorem walk_names_safe_witness:
  "walk_names (cleanPath ''../a/./b//../c/d'') = [''a'', ''c'', ''d''] \<and>
   walk_names (cleanPath (fst (path_Split (cleanPath ''../a/./b//../c/d'')))) = [''a'', ''c'']"
proof -
  have "path_names ''../a/./b//../c/d'' = [''a'', ''c''] @ [''d'']"
    by (simp add: path_names_def slash_def clean_elems_def clean_step_def)
  then show ?thesis
    using walk_names_safe [of "''../a/./b//../c/d''" "[''a'', ''c'']" "''d''"] by simp
qed

text \<open>
  Recording an error is stable. Operations record an error once per level of
  call; recording again leaves the state alone and does not change what the error is: not
  found, permission, exists, cancelled, unsupported or disconnected. The state changes only
  when the error means a broken connection, and then the error becomes \<open>ErrDisconnected\<close>,
  the client is unhealthy and its connection is closed and dropped.
\<close>

lemma record_error_stable:
  assumes "recordError (Inl e) x = (r1, x1)"
  shows "(\<exists>e1. r1 = Inl e1) \<and>
    (\<exists>r2. recordError r1 x1 = (r2, x1) \<and> error_class r2 = error_class r1) \<and>
    (x1 \<noteq> x \<longrightarrow> isDisconnectError e \<and> r1 = Inl ErrDisconnected \<and>
       unhealthy x1 = Some ErrDisconnected \<and> client x1 = None \<and>
       (\<forall>a. client x = Some a \<and> a < length (heap x) \<longrightarrow> closed (rw (heap x1 ! a))))"
proof -
  have "\<exists>e1. r1 = Inl e1"
    using assms by (auto simp: recordError.simps split: if_splits option.splits)
  moreover have "x1 \<noteq> x \<longrightarrow> isDisconnectError e \<and> r1 = Inl ErrDisconnected \<and> x1 = drop_connection x"
    using assms by (auto simp: recordError.simps split: if_splits option.splits)
  ultimately show ?thesis
    using record_again [OF assms, of x1]
    by (auto simp: drop_connection_def close_at_def Let_def split: option.splits)
qed

lemma record_error_stable_witness:
  "let e = ErrorString ''9p error: 'a' Directory Entry Not Found'';
       (r1, x1) = recordError (Inl e) (fs_New 0 ''/n'' :: (nat, nat) xclient)
   in error_class r1 = [False, False, False, False, True, False, False] \<and>
      (\<exists>r2. recordError r1 x1 = (r2, x1) \<and> error_class (r2 :: unit result) = error_class r1)"
proof -
  let ?e = "ErrorString ''9p error: 'a' Directory Entry Not Found''"
  let ?n = "WrapError (''file does not exist: '' @ error_text ?e) OsErrNotExist"
  have t: "ToLower (error_text ?e) = ''9p error: 'a' directory entry not found''" by code_simp
  have "normalizeRemoteError ?e = Some ?n"
    unfolding normalizeRemoteError_def Let_def t by (simp add: contains_eval)
  then have r: "recordError (Inl ?e :: unit result) (fs_New 0 ''/n'' :: (nat, nat) xclient) =
      (Inl ?n, fs_New 0 ''/n'')"
    by (simp add: recordError.simps)
  show ?thesis
    using record_error_stable [OF r] unfolding Let_def r by (simp add: error_class_def)
qed

end
