(* ===== verification/Exportfs_Server.thy ===== *)
theory Exportfs_Server
  imports Exportfs_Safety
begin

text \<open>
  The remote file system client against a file server: what reading, writing and listing
  return when the server behaves as the 9P manual says. The server is a parameter, a
  function that answers one message with one message; each property names the behaviour
  it relies on.
\<close>

subsection \<open>Calls that are answered\<close>

definition in_step :: "'p nclient \<Rightarrow> bool" where
  "in_step c \<longleftrightarrow> \<not> closed (rw c) \<and> inbuf (rw c) = []"

lemma tagged_rpc_server:
  assumes "in_step c" and "sendable (mk (tag c))" and "sendable r"
    and "serve (peer (rw c)) (wire_view (mk (tag c))) = (r, p')"
  shows "\<exists>c'. tagged_rpc (server_peer serve) None mk c = (reply_result r, c') \<and>
    in_step c' \<and> peer (rw c') = p'"
proof -
  obtain c1 where n: "nextTag c = (tag c, c1)" and c1: "rw c1 = rw c"
    by (simp add: nextTag_def Let_def)
  have "rpc (server_peer serve) None (mk (tag c)) c1 =
      (reply_result r, c1\<lparr>rw := (rw c1)\<lparr>peer := p', inbuf := []\<rparr>\<rparr>)"
    using assms c1 by (intro rpc_server) (simp_all add: in_step_def)
  then show ?thesis
    using n assms(1) c1 by (simp add: tagged_rpc_def in_step_def)
qed

definition ready :: "nat \<Rightarrow> ('o, 'p) xclient \<Rightarrow> bool" where
  "ready a x \<longleftrightarrow> a < length (heap x) \<and> in_step (heap x ! a)"

abbreviation server_state :: "nat \<Rightarrow> ('o, 'p) xclient \<Rightarrow> 'p" where
  "server_state a x \<equiv> peer (rw (heap x ! a))"

lemma call_server:
  assumes "ready a x" and "\<And>c. f c = map_reply g (tagged_rpc (server_peer serve) None mk c)"
    and "\<And>t. sendable (mk t)" and "\<And>t. sendable (r t)"
    and "\<And>t. serve (server_state a x) (wire_view (mk t)) = (r t, p')"
  shows "\<exists>t x'. call a f x = (map_sum id g (reply_result (r t)), x') \<and> ready a x' \<and>
    server_state a x' = p' \<and> unhealthy x' = unhealthy x \<and> client x' = client x"
proof -
  let ?c = "heap x ! a"
  obtain c' where c': "tagged_rpc (server_peer serve) None mk ?c = (reply_result (r (tag ?c)), c')"
    "in_step c'" "peer (rw c') = p'"
    using tagged_rpc_server [of ?c mk "r (tag ?c)" serve p'] assms by (auto simp: ready_def)
  have "call a f x = (map_sum id g (reply_result (r (tag ?c))), x\<lparr>heap := (heap x)[a := c']\<rparr>)"
    using c' assms(2) by (simp add: call_def map_reply_def split: sum.splits)
  then show ?thesis
    using c' assms(1)
    by (intro exI [of _ "tag ?c"] exI [of _ "x\<lparr>heap := (heap x)[a := c']\<rparr>"] conjI)
      (simp_all add: ready_def)
qed

lemma sendable_iff:
  "sendable f \<longleftrightarrow> fcall_ok f \<and> (\<exists>bs. marshal_fields f = Inr bs \<and> length bs < 2 ^ 32 - 7)"
  by (cases "marshal_fields f") (auto simp: sendable_def Marshal_def)

lemma sendable_msgs [simp]:
  "sendable (read_msg i off n t)"
  "sendable (fid_msg TSTAT i t)"
  "sendable (fid_msg TCLUNK i t)"
  "sendable (open_msg i m t)"
  "sendable (zero_fcall\<lparr>ftype := RWRITE, ftag := t, fcount := n\<rparr>)"
  "sendable (zero_fcall\<lparr>ftype := ROPEN, ftag := t, fqid := q, fiounit := n\<rparr>)"
  by (simp_all add: sendable_iff fcall_ok_def marshal_fields_def msg_types read_msg_def fid_msg_def
      open_msg_def zero_fcall_def)

lemma sendable_data [simp]:
  "length d < 4000000000 \<Longrightarrow> sendable (write_msg i off d t)"
  "length d < 4000000000 \<Longrightarrow> sendable (zero_fcall\<lparr>ftype := RREAD, ftag := t, fdata := d\<rparr>)"
  by (simp_all add: sendable_iff fcall_ok_def marshal_fields_def msg_types write_msg_def zero_fcall_def)

lemma wire_view_msgs [simp]:
  "wire_view (read_msg i off n t) = read_msg i off n t"
  "wire_view (write_msg i off d t) = write_msg i off d t"
  "wire_view (open_msg i m t) = open_msg i m t"
  "wire_view (fid_msg TSTAT i t) = fid_msg TSTAT i t"
  "wire_view (walk_msg i j ns t) = walk_msg i j ns t"
  by (simp_all add: wire_view_def read_msg_def write_msg_def open_msg_def fid_msg_def walk_msg_def
      msg_types zero_fcall_def)

subsection \<open>A file on the server\<close>

text \<open>
  Reading fid \<open>i\<close> returns the bytes of the file at the offset, as many as asked for and
  available, and does not change it; writing puts the bytes at the offset.
\<close>

definition reads_file ::
  "('p \<Rightarrow> fcall \<Rightarrow> fcall \<times> 'p) \<Rightarrow> u32 \<Rightarrow> ('p \<Rightarrow> bytes) \<Rightarrow> bool" where
  "reads_file serve i content \<longleftrightarrow>
     (\<forall>p t off n. unat n \<le> maxIOChunk \<longrightarrow>
        serve p (read_msg i off n t) =
          (zero_fcall\<lparr>ftype := RREAD, ftag := t, fdata := take (unat n) (drop (unat off) (content p))\<rparr>, p))"

definition overwrite :: "bytes \<Rightarrow> nat \<Rightarrow> bytes \<Rightarrow> bytes" where
  "overwrite c off d =
     (if d = [] then c
      else take off c @ replicate (off - length c) (CHR 0x00) @ d @ drop (off + length d) c)"

definition writes_file ::
  "('p \<Rightarrow> fcall \<Rightarrow> fcall \<times> 'p) \<Rightarrow> u32 \<Rightarrow> ('p \<Rightarrow> bytes) \<Rightarrow> bool" where
  "writes_file serve i content \<longleftrightarrow>
     (\<forall>p off d. length d \<le> maxIOChunk \<longrightarrow>
        (\<exists>p'. (\<forall>t. serve p (write_msg i off d t) =
            (zero_fcall\<lparr>ftype := RWRITE, ftag := t, fcount := of_nat (length d)\<rparr>, p')) \<and>
          content p' = overwrite (content p) (unat off) d))"

lemma overwrite_overwrite:
  "overwrite (overwrite c off a) (off + length a) b = overwrite c off (a @ b)"
  by (cases "off \<le> length c") (auto simp: overwrite_def ac_simps)

lemma call_Read:
  assumes "reads_file serve i content" "ready a x" "unat n \<le> maxIOChunk"
  shows "\<exists>x'. call a (Read (server_peer serve) None i off n) x =
      (Inr (take (unat n) (drop (unat off) (content (server_state a x)))), x') \<and>
    ready a x' \<and> server_state a x' = server_state a x"
proof -
  let ?d = "take (unat n) (drop (unat off) (content (server_state a x)))"
  let ?r = "\<lambda>t. zero_fcall\<lparr>ftype := RREAD, ftag := t, fdata := ?d\<rparr>"
  have "length ?d < 4000000000" using assms(3) by (simp add: maxIOChunk_def)
  then obtain t x' where x': "call a (Read (server_peer serve) None i off n) x =
      (map_sum id fdata (reply_result (?r t)), x')" "ready a x'" "server_state a x' = server_state a x"
    using call_server [OF assms(2), of "Read (server_peer serve) None i off n" fdata serve
        "read_msg i off n" ?r "server_state a x"] assms(1,3)
    by (auto simp: Read_def reads_file_def)
  then show ?thesis by (simp add: reply_result_def wire_view_def msg_types)
qed

lemma call_Write:
  assumes "writes_file serve i content" "ready a x" "length d \<le> maxIOChunk"
  shows "\<exists>x'. call a (Write (server_peer serve) None i off d) x = (Inr (of_nat (length d)), x') \<and>
    ready a x' \<and>
    content (server_state a x') = overwrite (content (server_state a x)) (unat off) d"
proof -
  let ?r = "\<lambda>t. zero_fcall\<lparr>ftype := RWRITE, ftag := t, fcount := of_nat (length d) :: u32\<rparr>"
  obtain p' where p': "\<And>t. serve (server_state a x) (write_msg i off d t) = (?r t, p')"
    and c: "content p' = overwrite (content (server_state a x)) (unat off) d"
    using assms(1,3) unfolding writes_file_def by meson
  have "length d < 4000000000" using assms(3) by (simp add: maxIOChunk_def)
  then obtain t x' where x': "call a (Write (server_peer serve) None i off d) x =
      (map_sum id fcount (reply_result (?r t)), x')" "ready a x'" "server_state a x' = p'"
    using call_server [OF assms(2), of "Write (server_peer serve) None i off d" fcount serve
        "write_msg i off d" ?r p'] p'
    by (auto simp: Write_def)
  then show ?thesis using c by (simp add: reply_result_def wire_view_def msg_types)
qed

lemma chunk_word:
  "n \<le> maxIOChunk \<Longrightarrow> unat (of_nat n :: u32) = n"
  by (simp add: unat_of_nat_mod maxIOChunk_def)

lemma offset_word:
  assumes "unat (off :: u64) + n < 2 ^ 64"
  shows "unat (off + of_nat n) = unat off + n"
proof -
  have "unat (of_nat n :: u64) = n" using assms by (simp add: unat_of_nat_mod)
  with assms show ?thesis by (simp add: unat_word_ariths)
qed

lemma readat_loop_file:
  "ready (rf_client f) x \<Longrightarrow> unat off + length p < 2 ^ 64 \<Longrightarrow> n \<le> length p \<Longrightarrow>
   D = drop (unat off) (content (server_state (rf_client f) x)) \<Longrightarrow>
   take n p = take n D \<Longrightarrow> n \<le> length D \<Longrightarrow> got = take (length p) D \<Longrightarrow>
   reads_file serve (rf_fid f) content \<Longrightarrow>
   \<exists>x'. readat_loop (server_peer serve) f off n p x =
       (read_end (length got) (got @ drop (length got) p), x') \<and>
     ready (rf_client f) x' \<and> server_state (rf_client f) x' = server_state (rf_client f) x"
proof (induction "server_peer serve" f off n p x rule: readat_loop.induct)
  case (1 f off n p x)
  let ?a = "rf_client f" and ?chunk = "io_chunk (length p) n"
  show ?case
  proof (cases "n < length p")
    case False
    then have "n = length p" using "1.prems" by simp
    with 1 have "got = p" by (metis take_all order_refl)
    with \<open>n = length p\<close> "1.prems" show ?thesis by (subst readat_loop.simps) simp
  next
    case True
    note chunk = io_chunk_bounds [where len = "length p" and n = n]
    have off: "unat (off + of_nat n) = unat off + n" using "1.prems" True by (intro offset_word) simp
    have k: "unat (of_nat ?chunk :: u32) = ?chunk" using chunk(1) by (rule chunk_word)
    define d where "d = take ?chunk (drop n D)"
    obtain x1 where c: "call ?a (Read (server_peer serve) None (rf_fid f) (off + of_nat n) (of_nat ?chunk)) x =
        (Inr d, x1)" and r: "ready ?a x1" and s: "server_state ?a x1 = server_state ?a x"
      using call_Read [OF "1.prems"(8,1), of "of_nat ?chunk" "off + of_nat n"] off k chunk(1)
        "1.prems"(4) by (auto simp: d_def add.commute)
    have ld: "length d \<le> length p - n" using chunk(2) True by (simp add: d_def)
    define p1 where "p1 = take n p @ d @ drop (n + length d) p"
    have cp: "copy_at p n d = (length d, p1)"
      using ld by (simp add: copy_at_def p1_def min_absorb2 Let_def)
    have tn: "take n D @ d = take (n + length d) D"
      using "1.prems"(6) by (simp add: d_def take_add min_def)
    have p1: "length p1 = length p" "p1 = take (n + length d) D @ drop (n + length d) p"
      using ld True "1.prems"(5,6) by (simp_all add: p1_def tn [symmetric] min_absorb2)
    have lD: "n + length d \<le> length D" using "1.prems"(6) by (simp add: d_def)
    show ?thesis
    proof (cases "length d = 0 \<or> length d < ?chunk")
      case True
      then have "length D = n + length d"
        using chunk(3) \<open>n < length p\<close> "1.prems"(6) by (auto simp: d_def min_def split: if_splits)
      then have "got = take (n + length d) D" "length got = n + length d"
        using "1.prems"(7) ld \<open>n < length p\<close> by simp_all
      then show ?thesis
        using True \<open>n < length p\<close> c cp r s p1(2)
        by (subst readat_loop.simps) (auto simp: Let_def)
    next
      case False
      have t1: "take (n + length d) p1 = take (n + length d) D" using lD by (simp add: p1(2))
      have "length got \<ge> n + length d" using lD ld \<open>n < length p\<close> "1.prems"(7) by simp
      then have dg: "drop (length got) p1 = drop (length got) p" using lD by (simp add: p1(2))
      have "\<exists>x'. readat_loop (server_peer serve) f off (n + length d) p1 x1 =
          (read_end (length got) (got @ drop (length got) p1), x') \<and>
          ready ?a x' \<and> server_state ?a x' = server_state ?a x1"
      proof (rule "1.hyps" [OF _ refl c [symmetric] refl cp [symmetric] refl])
        show "unat off + length p1 < 2 ^ 64" using "1.prems"(2) p1(1) by simp
      qed (use False \<open>n < length p\<close> r s "1.prems" p1(1) t1 lD ld in auto)
      then show ?thesis
        using False \<open>n < length p\<close> c cp s dg by (subst readat_loop.simps) (auto simp: Let_def)
    qed
  qed
qed

lemma writeat_loop_file:
  "ready (rf_client f) x \<Longrightarrow> unat off + length p < 2 ^ 64 \<Longrightarrow> n \<le> length p \<Longrightarrow>
   writes_file serve (rf_fid f) content \<Longrightarrow>
   \<exists>x'. writeat_loop (server_peer serve) f off n p x = ((length p, None), x') \<and>
     ready (rf_client f) x' \<and>
     content (server_state (rf_client f) x') =
       overwrite (content (server_state (rf_client f) x)) (unat off + n) (drop n p)"
proof (induction "server_peer serve" f off n p x rule: writeat_loop.induct)
  case (1 f off n p x)
  show ?case
  proof (cases "n < length p")
    case False
    then show ?thesis using 1 by (subst writeat_loop.simps) (simp add: overwrite_def)
  next
    case True
    let ?chunk = "io_chunk (length p) n"
    let ?d = "take ?chunk (drop n p)"
    have len: "length ?d = ?chunk" "?chunk \<le> maxIOChunk" "n + ?chunk \<le> length p"
      using True io_chunk_bounds [where len = "length p" and n = n] by simp_all
    have off: "unat (off + of_nat n) = unat off + n" using "1.prems" True by (intro offset_word) simp
    obtain x1 where c: "call (rf_client f) (Write (server_peer serve) None (rf_fid f) (off + of_nat n) ?d) x =
        (Inr (of_nat ?chunk), x1)" and r: "ready (rf_client f) x1"
      and w: "content (server_state (rf_client f) x1) =
        overwrite (content (server_state (rf_client f) x)) (unat off + n) ?d"
      using call_Write [OF "1.prems"(4,1), of ?d "off + of_nat n"] len(2)
      unfolding len(1) off by blast
    have k: "unat (of_nat ?chunk :: u32) = ?chunk" using len(2) by (rule chunk_word)
    obtain x2 where l: "writeat_loop (server_peer serve) f off (n + ?chunk) p x1 = ((length p, None), x2)"
      and r2: "ready (rf_client f) x2"
      and w2: "content (server_state (rf_client f) x2) =
        overwrite (content (server_state (rf_client f) x1)) (unat off + (n + ?chunk)) (drop (n + ?chunk) p)"
      using "1.hyps" [OF _ refl c [symmetric]] True k r "1.prems" len(3) by auto
    have "?d @ drop (n + ?chunk) p = drop n p"
      by (metis add.commute append_take_drop_id drop_drop)
    then have "content (server_state (rf_client f) x2) =
        overwrite (content (server_state (rf_client f) x)) (unat off + n) (drop n p)"
      using w2 w overwrite_overwrite [of _ "unat off + n" ?d "drop (n + ?chunk) p"] len(1)
      by (simp add: add.assoc)
    with l r2 True k c show ?thesis by (subst writeat_loop.simps) (simp add: Let_def)
  qed
qed

subsection \<open>A directory on the server\<close>

text \<open>
  Opening fid \<open>i\<close> succeeds, and reads at the end of what was read so far return the
  entries in blocks of whole entries, then nothing.
\<close>

definition block_start :: "dir list list \<Rightarrow> nat \<Rightarrow> u64" where
  "block_start dss k = of_nat (length (encode_dirs (concat (take k dss))))"

definition block :: "dir list list \<Rightarrow> nat \<Rightarrow> bytes" where
  "block dss k = (if k < length dss then encode_dirs (dss ! k) else [])"

definition serves_dir ::
  "('p \<Rightarrow> fcall \<Rightarrow> fcall \<times> 'p) \<Rightarrow> u32 \<Rightarrow> dir list list \<Rightarrow> bool" where
  "serves_dir serve i dss \<longleftrightarrow>
     (\<forall>p t. \<exists>q n. serve p (open_msg i 0 t) =
        (zero_fcall\<lparr>ftype := ROPEN, ftag := t, fqid := q, fiounit := n\<rparr>, p)) \<and>
     (\<forall>p t k. k \<le> length dss \<longrightarrow>
        serve p (read_msg i (block_start dss k) 8192 t) =
          (zero_fcall\<lparr>ftype := RREAD, ftag := t, fdata := block dss k\<rparr>, p))"

definition blocks_ok :: "dir list list \<Rightarrow> bool" where
  "blocks_ok dss \<longleftrightarrow>
     list_all (\<lambda>ds. ds \<noteq> [] \<and> list_all dir_ok ds \<and> length (encode_dirs ds) \<le> 8192) dss"

lemma encode_dirs_append [simp]: "encode_dirs (as @ bs) = encode_dirs as @ encode_dirs bs"
  by (induction as) simp_all

lemma encode_dirs_eq_Nil [simp]: "encode_dirs ds = [] \<longleftrightarrow> ds = []"
  by (cases ds) (auto simp: write16_def dest: arg_cong [of _ _ length])

lemma block_start_Suc:
  "k < length dss \<Longrightarrow> block_start dss (Suc k) = block_start dss k + of_nat (length (block dss k))"
  by (simp add: block_start_def block_def take_Suc_conv_app_nth)

lemma ParseDirEntries_block:
  "list_all dir_ok ds \<Longrightarrow> ParseDirEntries (encode_dirs ds) = Inr ds"
  using ParseDirEntries_from_encode_dirs [of ds "[]" "[]"]
  by (simp add: ParseDirEntries_def ParseDirEntries_from.simps)

lemma call_Read_block:
  assumes "serves_dir serve i dss" "blocks_ok dss" "ready a x" "k \<le> length dss"
  shows "\<exists>x'. call a (Read (server_peer serve) None i (block_start dss k) 8192) x =
      (Inr (block dss k), x') \<and> ready a x'"
proof -
  let ?r = "\<lambda>t. zero_fcall\<lparr>ftype := RREAD, ftag := t, fdata := block dss k\<rparr>"
  have "length (block dss k) < 4000000000"
    using assms(2) by (auto simp: block_def blocks_ok_def list_all_length)
  then obtain t x' where "call a (Read (server_peer serve) None i (block_start dss k) 8192) x =
      (map_sum id fdata (reply_result (?r t)), x')" "ready a x'"
    using call_server [OF assms(3), of "Read (server_peer serve) None i (block_start dss k) 8192"
        fdata serve "read_msg i (block_start dss k) 8192" ?r "server_state a x"] assms(1,4)
    by (auto simp: Read_def serves_dir_def)
  then show ?thesis by (simp add: reply_result_def wire_view_def msg_types)
qed

abbreviation listed :: "string \<Rightarrow> dir list \<Rightarrow> entry list" where
  "listed p ds \<equiv> map (\<lambda>d. entryFromDir (path_Join [cleanPath p, dname d]) d) ds"

lemma list_loop_dir:
  assumes "serves_dir serve i dss" "blocks_ok dss" "ready a x" "k \<le> length dss"
  shows "\<exists>x'. list_loop (server_peer serve) None p a i (Inl (block_start dss k, es, x)) =
    Some (Inr (es @ listed p (concat (drop k dss))), x')"
  using assms(3,4)
proof (induction "length dss - k" arbitrary: k es x)
  case 0
  then have k: "k = length dss" by simp
  obtain x' where x': "call a (Read (server_peer serve) None i (block_start dss k) 8192) x =
      (Inr (block dss k), x')"
    using call_Read_block [OF assms(1,2) 0(2,3)] by blast
  have "block dss k = []" by (simp add: k block_def)
  with x' k show ?case
    by (simp add: list_loop_def while_option_unfold [of isl])
next
  case (Suc m)
  then have k: "k < length dss" by simp
  obtain x1 where x1: "call a (Read (server_peer serve) None i (block_start dss k) 8192) x =
      (Inr (block dss k), x1)" "ready a x1"
    using call_Read_block [OF assms(1,2) Suc(3,4)] by blast
  have b: "block dss k = encode_dirs (dss ! k)" "block dss k \<noteq> []"
    "ParseDirEntries (block dss k) = Inr (dss ! k)"
    using k assms(2) by (auto simp: block_def blocks_ok_def list_all_length ParseDirEntries_block)
  have "m = length dss - Suc k" using Suc(2) by simp
  then obtain x' where "list_loop (server_peer serve) None p a i
      (Inl (block_start dss (Suc k), es @ listed p (dss ! k), x1)) =
      Some (Inr ((es @ listed p (dss ! k)) @ listed p (concat (drop (Suc k) dss))), x')"
    using Suc(1) [of "Suc k" x1 "es @ listed p (dss ! k)"] k x1(2) by auto
  moreover have "list_loop (server_peer serve) None p a i (Inl (block_start dss k, es, x)) =
      list_loop (server_peer serve) None p a i
        (Inl (block_start dss (Suc k), es @ listed p (dss ! k), x1))"
    using x1(1) b k by (simp add: list_loop_def while_option_unfold [of isl _ "Inl (block_start dss k, es, x)"]
        block_start_Suc)
  moreover have "concat (drop k dss) = dss ! k @ concat (drop (Suc k) dss)"
    using k by (metis Cons_nth_drop_Suc concat.simps(2))
  ultimately show ?case by auto
qed

subsection \<open>Walking\<close>

lemma alloc_fid_ready:
  assumes "ready a x" "alloc_fid a x = (r, x1)"
  shows "r = Inr (fid (heap x ! a)) \<and> ready a x1 \<and> server_state a x1 = server_state a x"
  using assms fids.alloc_id [of "heap x ! a"]
  by (auto simp: alloc_fid_def ready_def in_step_def AllocFID_def Let_def split: if_splits)

text \<open>
  The exchange of \<open>walkTo\<close>: the server is asked to walk from the root fid along the names
  of the path to the fresh fid, then for the entry of that fid. The list of qids in the
  answer to the walk plays no role.
\<close>

lemma walkTo_exchange:
  assumes "connect (server_peer serve) openfs None x = (Inr a, x0)" and "ready a x0"
    and "i = fid (heap x0 ! a)" and "\<And>t. sendable (walk_msg 1 i (path_names p) t)"
    and "length qids < 65536"
    and "\<And>t. serve (server_state a x0) (walk_msg 1 i (path_names p) t) =
        (zero_fcall\<lparr>ftype := RWALK, ftag := t, fwqids := qids\<rparr>, p1)"
    and "\<And>t. serve p1 (fid_msg TSTAT i t) = (r t, p2)" and "\<And>t. sendable (r t)"
  shows "\<exists>t x2. ready a x2 \<and> server_state a x2 = p2 \<and>
    walkTo (server_peer serve) openfs None p x =
      (case reply_result (r t) of
         Inl e \<Rightarrow> recordError (Inl e) (snd (call a (Clunk (server_peer serve) None i) x2))
       | Inr f \<Rightarrow> (Inr (a, i, fdir f), x2))"
proof -
  let ?w = "\<lambda>t. zero_fcall\<lparr>ftype := RWALK, ftag := t, fwqids := qids\<rparr>"
  obtain x01 where al: "alloc_fid a x0 = (Inr i, x01)" "ready a x01" "server_state a x01 = server_state a x0"
    using alloc_fid_ready [OF assms(2)] assms(3) by (metis surj_pair)
  have "length (concat (map writeQID qids)) \<le> 13 * length qids" for qids
    by (induction qids) (simp_all add: writeQID_def write8_def write32_def write64_def)
  from this [of qids] have sw: "sendable (?w t)" for t
    using assms(5) by (simp add: sendable_iff fcall_ok_def marshal_fields_def msg_types zero_fcall_def)
  obtain t x1 where w: "call a (Walk (server_peer serve) None 1 i (path_names p)) x01 =
      (map_sum id fwqids (reply_result (?w t)), x1)" "ready a x1" "server_state a x1 = p1"
    using call_server [OF al(2), of "Walk (server_peer serve) None 1 i (path_names p)" fwqids serve
        "walk_msg 1 i (path_names p)" ?w p1] assms(4,6) sw al(3)
    by (auto simp: Walk_def)
  then have w1: "call a (Walk (server_peer serve) None 1 i (path_names p)) x01 = (Inr qids, x1)"
    by (simp add: reply_result_def wire_view_def msg_types)
  obtain t2 x2 where st: "call a (Stat (server_peer serve) None i) x1 =
      (map_sum id fdir (reply_result (r t2)), x2)" "ready a x2" "server_state a x2 = p2"
    using call_server [OF w(2), of "Stat (server_peer serve) None i" fdir serve
        "fid_msg TSTAT i" r p2] assms(7,8) w(3) by (auto simp: Stat_def)
  have "walkTo (server_peer serve) openfs None p x =
      (case reply_result (r t2) of
         Inl e \<Rightarrow> recordError (Inl e) (snd (call a (Clunk (server_peer serve) None i) x2))
       | Inr f \<Rightarrow> (Inr (a, i, fdir f), x2))"
    using assms(1) al(1) w1 st(1)
    by (simp add: walkTo_def attempt_def walk_names_cleanPath split: sum.splits)
  with st show ?thesis by blast
qed

subsection \<open>Properties\<close>

text \<open>
  Property C16: \<open>ReadAt\<close> reads the file. Against a server that answers reads with the bytes
  of the file at the offset, a read of any length, cut into requests of at most 8000 bytes,
  fills the buffer with the bytes of the file from the offset on, as many as there are, and
  leaves the rest of the buffer as it was; it reports \<open>io.EOF\<close> exactly when there is
  nothing to read, and never an error together with data.
\<close>

theorem read_at_reads_file:
  assumes "reads_file serve (rf_fid f) content" and "ready (rf_client f) x"
    and "unat off + length p < 2 ^ 64"
  shows "let got = take (length p) (drop (unat off) (content (server_state (rf_client f) x))) in
    \<exists>x'. ReadAt (server_peer serve) f p off x =
      ((length got, got @ drop (length got) p, if got = [] then Some IoEOF else None), x') \<and>
    ready (rf_client f) x' \<and> server_state (rf_client f) x' = server_state (rf_client f) x"
  using readat_loop_file [OF assms(2,3) _ refl _ _ refl assms(1), of 0]
  by (auto simp: ReadAt_def read_end_def Let_def)

text \<open>
  Writing (\<open>WriteAt\<close>) writes the file. Against a server that accepts writes, a write of
  any length, cut into requests of at most 8000 bytes, reports all bytes written and leaves
  the file with exactly these bytes at the offset.
\<close>

lemma write_at_writes_file:
  assumes "writes_file serve (rf_fid f) content" and "ready (rf_client f) x"
    and "unat off + length p < 2 ^ 64"
  shows "\<exists>x'. WriteAt (server_peer serve) f p off x = ((length p, None), x') \<and>
    ready (rf_client f) x' \<and>
    content (server_state (rf_client f) x') =
      overwrite (content (server_state (rf_client f) x)) (unat off) p"
  using writeat_loop_file [OF assms(2,3) _ assms(1), of 0] by (auto simp: WriteAt_def)

text \<open>An example server: one file, its state.\<close>

definition file_server :: "bytes \<Rightarrow> fcall \<Rightarrow> fcall \<times> bytes" where
  "file_server c f =
     (if ftype f = TREAD then
        (zero_fcall\<lparr>ftype := RREAD, ftag := ftag f,
           fdata := take (unat (fcount f)) (drop (unat (foffset f)) c)\<rparr>, c)
      else if ftype f = TWRITE then
        (zero_fcall\<lparr>ftype := RWRITE, ftag := ftag f, fcount := of_nat (length (fdata f))\<rparr>,
         overwrite c (unat (foffset f)) (fdata f))
      else (zero_fcall\<lparr>ftype := RERROR, ftag := ftag f, fename := ''bad message''\<rparr>, c))"

lemma file_server_file:
  "reads_file file_server i (\<lambda>c. c)" "writes_file file_server i (\<lambda>c. c)"
  by (simp_all add: reads_file_def writes_file_def file_server_def read_msg_def write_msg_def msg_types)

definition file_client :: "(unit, bytes) xclient" where
  "file_client = (fs_New () ''/n'')\<lparr>heap := [NewClient \<lparr>peer = ''hello world'', inbuf = [],
     rderr = IoEOF, closed = False\<rparr>], client := Some 0\<rparr>"

lemma file_client_ready:
  "ready 0 file_client" "server_state 0 file_client = ''hello world''"
  by (simp_all add: ready_def in_step_def file_client_def fs_New_def NewClient_def)

theorem read_at_reads_file_witness:
  "fst (ReadAt (server_peer file_server) \<lparr>rf_client = 0, rf_fid = 5\<rparr> ''..........'' 6 file_client) =
     (5, ''world.....'', None)"
  using read_at_reads_file [OF file_server_file(1), of "\<lparr>rf_client = 0, rf_fid = 5\<rparr>" file_client 6
      "''..........''"] file_client_ready
  by (auto simp: Let_def)

lemma write_at_writes_file_witness:
  "\<exists>x'. WriteAt (server_peer file_server) \<lparr>rf_client = 0, rf_fid = 5\<rparr> ''there'' 6 file_client =
     ((5, None), x') \<and> server_state 0 x' = ''hello there''"
  using write_at_writes_file [OF file_server_file(2), of "\<lparr>rf_client = 0, rf_fid = 5\<rparr>" file_client 6
      "''there''"] file_client_ready
  by (auto simp: overwrite_def)

text \<open>
  Property C17: \<open>List\<close> returns the directory. When the walk reached the directory and the
  server sends its entries in blocks of whole entries that fit the request, the listing
  ends and returns every entry once, in the server's order, each under the path of the
  directory extended by its name.
\<close>

theorem list_returns_directory:
  assumes "walkTo (server_peer serve) openfs None p x = (Inr (a, i, d), x1)" and "ready a x1"
    and "serves_dir serve i dss" and "blocks_ok dss"
  shows "\<exists>x'. fs_List (server_peer serve) openfs None p x = Some (Inr (listed p (concat dss)), x')"
proof -
  let ?open = "Open (server_peer serve) None i 0"
  have "\<forall>t. \<exists>q n. serve (server_state a x1) (open_msg i 0 t) =
      (zero_fcall\<lparr>ftype := ROPEN, ftag := t, fqid := q, fiounit := n\<rparr>, server_state a x1)"
    using assms(3) by (simp add: serves_dir_def)
  then obtain q n where qn: "\<And>t. serve (server_state a x1) (open_msg i 0 t) =
      (zero_fcall\<lparr>ftype := ROPEN, ftag := t, fqid := q t, fiounit := n t\<rparr>, server_state a x1)"
    by metis
  obtain t x2 where "call a ?open x1 = (map_sum id (\<lambda>f. (fqid f, fiounit f)) (reply_result
      (zero_fcall\<lparr>ftype := ROPEN, ftag := t, fqid := q t, fiounit := n t\<rparr>)), x2)"
    and r2: "ready a x2"
    using call_server [OF assms(2), of ?open "\<lambda>f. (fqid f, fiounit f)" serve "open_msg i 0"
        "\<lambda>t. zero_fcall\<lparr>ftype := ROPEN, ftag := t, fqid := q t, fiounit := n t\<rparr>" "server_state a x1"] qn
    by (auto simp: Open_def)
  then have op: "call a ?open x1 = (Inr (q t, n t), x2)"
    by (simp add: reply_result_def wire_view_def msg_types)
  have "block_start dss 0 = 0" by (simp add: block_start_def)
  then obtain x3 where "list_loop (server_peer serve) None p a i (Inl (0, [], x2)) =
      Some (Inr (listed p (concat dss)), x3)"
    using list_loop_dir [OF assms(3,4) r2, of 0 p "[]"] by auto
  with assms(1) op show ?thesis by (simp add: fs_List_def)
qed

text \<open>An example server: a root directory with one file.\<close>

definition example_dir :: dir where
  "example_dir = zero_dir\<lparr>dname := ''f'', dmode := 0x1A4, dlength := 12\<rparr>"

definition dir_server :: "unit \<Rightarrow> fcall \<Rightarrow> fcall \<times> unit" where
  "dir_server u f =
     (if ftype f = TWALK then (zero_fcall\<lparr>ftype := RWALK, ftag := ftag f, fwqids := []\<rparr>, u)
      else if ftype f = TSTAT then (zero_fcall\<lparr>ftype := RSTAT, ftag := ftag f, fdir := Some zero_dir\<rparr>, u)
      else if ftype f = TOPEN then
        (zero_fcall\<lparr>ftype := ROPEN, ftag := ftag f, fqid := zero_qid, fiounit := 0\<rparr>, u)
      else if ftype f = TREAD then
        (zero_fcall\<lparr>ftype := RREAD, ftag := ftag f,
           fdata := if foffset f = 0 then encode_dirs [example_dir] else []\<rparr>, u)
      else (zero_fcall\<lparr>ftype := RCLUNK, ftag := ftag f\<rparr>, u))"

definition connected :: "'p \<Rightarrow> (unit, 'p) xclient" where
  "connected p = (fs_New () ''/n'')\<lparr>heap := [NewClient \<lparr>peer = p, inbuf = [], rderr = IoEOF,
     closed = False\<rparr>], client := Some 0\<rparr>"

lemma connected_simps:
  "connect react openfs ctx (connected p) = (Inr 0, connected p)"
  "ready 0 (connected p)" "server_state 0 (connected p) = p" "fid (heap (connected p) ! 0) = 2"
  by (simp_all add: connect_def connect_check_def connected_def fs_New_def ready_def in_step_def NewClient_def)

lemma example_dir_length: "length (dir_body example_dir) = 48"
  by (simp add: dir_body_def example_dir_def zero_dir_def zero_qid_def write16_def write32_def
      write64_def write8_def writeQID_def writeString_def)

lemma path_name_f: "path_name ''f''"
  by (simp add: path_name_def slash_def)

theorem list_returns_directory_witness:
  "\<exists>x'. fs_List (server_peer dir_server) (\<lambda>s ctx r. (Inl IoEOF, s)) None [slash] (connected ()) =
     Some (Inr [\<lparr>ePath = ''/f'', eMode = 0x1A4, eSize = 12, eModTime = unix_time 0, eLinkname = []\<rparr>], x')"
proof -
  let ?openfs = "\<lambda>s ctx r. (Inl IoEOF, s)"
  have s: "sendable (walk_msg 1 2 (path_names [slash]) t)"
    "sendable (zero_fcall\<lparr>ftype := RSTAT, ftag := t, fdir := Some zero_dir\<rparr>)" for t
    by (simp_all add: sendable_iff fcall_ok_def marshal_fields_def walk_msg_def msg_types zero_fcall_def
        sent_dir_ok_def dir_ok_def str_ok_def zero_dir_def marshalDir_Some dir_body_def zero_qid_def
        write16_def write32_def write64_def write8_def writeQID_def writeString_def)
  obtain t x1 where x1: "ready 0 x1"
    "walkTo (server_peer dir_server) ?openfs None [slash] (connected ()) =
      (case reply_result (zero_fcall\<lparr>ftype := RSTAT, ftag := t, fdir := Some zero_dir\<rparr>) of
         Inl e \<Rightarrow> recordError (Inl e) (snd (call 0 (Clunk (server_peer dir_server) None 2) x1))
       | Inr f \<Rightarrow> (Inr (0, 2, fdir f), x1))"
    using walkTo_exchange [of dir_server ?openfs "connected ()" 0 "connected ()" 2 "[slash]" "[]" "()"
        "\<lambda>t. zero_fcall\<lparr>ftype := RSTAT, ftag := t, fdir := Some zero_dir\<rparr>" "()"] s
    by (auto simp: connected_simps dir_server_def walk_msg_def fid_msg_def msg_types)
  have w: "walkTo (server_peer dir_server) ?openfs None [slash] (connected ()) =
      (Inr (0, 2, Some zero_dir), x1)"
    using x1(2) by (simp add: reply_result_def wire_view_def msg_types)
  have ok: "dir_ok example_dir"
    by (simp add: dir_ok_def example_dir_length) (simp add: example_dir_def zero_dir_def str_ok_def)
  have "serves_dir dir_server 2 [[example_dir]]"
    by (auto simp: serves_dir_def dir_server_def open_msg_def read_msg_def msg_types block_start_def
        block_def le_Suc_eq example_dir_length)
  moreover have "blocks_ok [[example_dir]]"
    using ok by (simp add: blocks_ok_def example_dir_length)
  moreover have "path_Join [cleanPath [slash], ''f''] = rooted_path [''f'']"
    using path_Join_names [of "[]" "''f''"] by (simp add: cleanPath_eq path_name_f)
  then have "listed [slash] [example_dir] =
      [\<lparr>ePath = ''/f'', eMode = 0x1A4, eSize = 12, eModTime = unix_time 0, eLinkname = []\<rparr>]"
    by (simp add: rooted_path_def entryFromDir_def example_dir_def zero_dir_def ModTime_def) (simp add: slash_def)
  ultimately show ?thesis
    using list_returns_directory [OF w x1(1)] by fastforce
qed

lemma record_unknown_fid:
  "recordError (Inl (ErrorString ''9p error: unknown fid'')) y =
     (Inl (ErrorString ''9p error: unknown fid''), y)"
proof -
  have "ToLower (error_text (ErrorString ''9p error: unknown fid'')) = ''9p error: unknown fid''"
    by code_simp
  then have "normalizeRemoteError (ErrorString ''9p error: unknown fid'') = None"
    by (simp only: normalizeRemoteError_def Let_def) (simp add: contains_eval)
  then show ?thesis by (simp add: recordError.simps isDisconnectError_def)
qed

text \<open>
  Property C29: a partial walk is not reported as a missing file. A 9P server answers a walk
  whose first names exist and whose last does not with the qids of the names it walked, and
  leaves the new fid unassigned. The client does not compare the number of qids with the
  number of names; it goes on to ask for the entry of the unassigned fid, and the operation
  fails with the server's complaint about the fid, an error that is not \<open>os.ErrNotExist\<close>.
\<close>

theorem partial_walk_not_reported:
  assumes "connect (server_peer serve) openfs None x = (Inr a, x0)" and "ready a x0"
    and "i = fid (heap x0 ! a)" and "\<And>t. sendable (walk_msg 1 i (path_names p) t)"
    and "length qids < length (path_names p)" and "length (path_names p) < 65536"
    and "\<And>t. serve (server_state a x0) (walk_msg 1 i (path_names p) t) =
        (zero_fcall\<lparr>ftype := RWALK, ftag := t, fwqids := qids\<rparr>, p1)"
    and "\<And>t. serve p1 (fid_msg TSTAT i t) =
        (zero_fcall\<lparr>ftype := RERROR, ftag := t, fename := ''unknown fid''\<rparr>, p1)"
  shows "\<exists>e x'. fs_Stat (server_peer serve) openfs None p x = (Inl e, x') \<and>
    \<not> errors_Is e OsErrNotExist"
proof -
  let ?e = "ErrorString (''9p error: '' @ ''unknown fid'')"
  let ?r = "\<lambda>t. zero_fcall\<lparr>ftype := RERROR, ftag := t, fename := ''unknown fid''\<rparr>"
  have s: "sendable (?r t)" for t
    by (simp add: sendable_iff fcall_ok_def marshal_fields_def msg_types zero_fcall_def str_ok_def)
  obtain t x2 where "walkTo (server_peer serve) openfs None p x =
      (case reply_result (?r t) of
         Inl e \<Rightarrow> recordError (Inl e) (snd (call a (Clunk (server_peer serve) None i) x2))
       | Inr f \<Rightarrow> (Inr (a, i, fdir f), x2))"
    using walkTo_exchange [OF assms(1-4) _ assms(7,8) s] assms(5,6) by (meson order.strict_trans)
  then have "walkTo (server_peer serve) openfs None p x =
      (Inl ?e, snd (call a (Clunk (server_peer serve) None i) x2))"
    by (simp add: reply_result_def record_unknown_fid msg_types)
  then show ?thesis by (simp add: fs_Stat_def attempt_def record_unknown_fid)
qed

text \<open>An example server: the file \<open>a\<close> exists, \<open>a/b\<close> does not.\<close>

definition partial_server :: "unit \<Rightarrow> fcall \<Rightarrow> fcall \<times> unit" where
  "partial_server u f =
     (if ftype f = TWALK then (zero_fcall\<lparr>ftype := RWALK, ftag := ftag f, fwqids := [zero_qid]\<rparr>, u)
      else (zero_fcall\<lparr>ftype := RERROR, ftag := ftag f, fename := ''unknown fid''\<rparr>, u))"

theorem partial_walk_not_reported_witness:
  "\<exists>e x'. fs_Stat (server_peer partial_server) (\<lambda>s ctx r. (Inl IoEOF, s)) None ''a/b'' (connected ()) =
     (Inl e, x') \<and> \<not> errors_Is e OsErrNotExist"
proof -
  have n: "path_names ''a/b'' = [''a'', ''b'']"
    by (simp add: path_names_def slash_def clean_elems_def clean_step_def)
  have s: "sendable (walk_msg 1 2 (path_names ''a/b'') t)" for t
    unfolding n by (simp add: sendable_iff fcall_ok_def marshal_fields_def walk_msg_def msg_types zero_fcall_def
        str_ok_def write16_def write32_def writeString_def)
  show ?thesis
    by (rule partial_walk_not_reported [where a = 0 and ?x0.0 = "connected ()" and i = 2 and
          qids = "[zero_qid]" and ?p1.0 = "()"])
      (simp_all only: connected_simps s [unfolded n] n, simp_all add: partial_server_def walk_msg_def fid_msg_def msg_types)
qed

end
