(* ===== verification/Go_Os.thy ===== *)
theory Go_Os
  imports Go_Path "HOL-Library.AList" "HOL-Library.Char_ord" "HOL-Library.List_Lexorder"
begin

text \<open>
  The local file system behind Go's package \<open>os\<close>, as far as the program uses it: a
  finite map from cleaned paths to files, directories and symbolic links, and for each path
  an optional fault, the error that every operation on the path meets (permissions, I/O).
  Paths are compared after cleaning; relative paths start at the working directory, which
  does not change, and the root and the working directory always exist. What files contain
  is a type parameter, so that a component can keep documents in them. Symbolic links are
  never followed: an operation that would follow one fails as it does for a dangling link.
\<close>

type_synonym lpath = "bool \<times> string list"

definition lp :: "string \<Rightarrow> lpath" where
  "lp p = (let rooted = (p \<noteq> [] \<and> hd p = slash) in (rooted, clean_elems rooted (Split p slash)))"

datatype 'c fnode = DirNode u32 | FileNode u32 'c | LinkNode string

record 'c local_fs =
  nodes :: "(lpath \<times> 'c fnode) list"
  fault :: "lpath \<Rightarrow> go_error option"

definition node :: "'c local_fs \<Rightarrow> lpath \<Rightarrow> 'c fnode option" where
  "node s p = (if snd p = [] then Some (DirNode 0x1ED) else map_of (nodes s) p)"

fun is_dir_node :: "'c fnode option \<Rightarrow> bool" where
  "is_dir_node (Some (DirNode _)) = True"
| "is_dir_node _ = False"

definition parent :: "lpath \<Rightarrow> lpath" where
  "parent p = (fst p, butlast (snd p))"

definition set_node :: "lpath \<Rightarrow> 'c fnode \<Rightarrow> 'c local_fs \<Rightarrow> 'c local_fs" where
  "set_node p n s = s\<lparr>nodes := AList.update p n (nodes s)\<rparr>"

definition del_node :: "lpath \<Rightarrow> 'c local_fs \<Rightarrow> 'c local_fs" where
  "del_node p s = s\<lparr>nodes := AList.delete p (nodes s)\<rparr>"

definition children :: "'c local_fs \<Rightarrow> lpath \<Rightarrow> string list" where
  "children s p =
     sort (remdups (map (last \<circ> snd) (filter (\<lambda>q. snd q \<noteq> [] \<and> parent q = p) (map fst (nodes s)))))"

text \<open>ENOTDIR and EISDIR; an \<open>os.PathError\<close> prints operation, path and error.\<close>

definition ENOTDIR :: errno_code where "ENOTDIR = EOTHER 20"
definition EISDIR :: errno_code where "EISDIR = EOTHER 21"

definition path_error :: "string \<Rightarrow> string \<Rightarrow> errno_code \<Rightarrow> go_error" where
  "path_error op p c = WrapError (op @ '' '' @ p @ '': '' @ errno_text c) (Errno c)"

text \<open>Why a path has no node: a parent that is not a directory, or nothing there.\<close>

definition missing_errno :: "'c local_fs \<Rightarrow> lpath \<Rightarrow> errno_code" where
  "missing_errno s p =
     (if list_ex (\<lambda>k. (case node s (fst p, take k (snd p)) of
            Some (FileNode _ _) \<Rightarrow> True | _ \<Rightarrow> False)) [0..<length (snd p)]
      then ENOTDIR else ENOENT)"

definition os_ReadFile :: "string \<Rightarrow> 'c local_fs \<Rightarrow> 'c result" where
  "os_ReadFile path s =
     (let p = lp path in
      case fault s p of Some e \<Rightarrow> Inl e | None \<Rightarrow>
      (case node s p of
         None \<Rightarrow> Inl (path_error ''open'' path (missing_errno s p))
       | Some (FileNode _ c) \<Rightarrow> Inr c
       | Some (DirNode _) \<Rightarrow> Inl (path_error ''read'' path EISDIR)
       | Some (LinkNode _) \<Rightarrow> Inl (path_error ''open'' path ENOENT)))"

definition os_WriteFile :: "string \<Rightarrow> 'c \<Rightarrow> u32 \<Rightarrow> 'c local_fs \<Rightarrow> unit result \<times> 'c local_fs" where
  "os_WriteFile path c perm s =
     (let p = lp path in
      case fault s p of Some e \<Rightarrow> (Inl e, s) | None \<Rightarrow>
      (case node s p of
         Some (DirNode _) \<Rightarrow> (Inl (path_error ''open'' path EISDIR), s)
       | Some (FileNode m _) \<Rightarrow> (Inr (), set_node p (FileNode m c) s)
       | Some (LinkNode _) \<Rightarrow> (Inl (path_error ''open'' path ENOENT), s)
       | None \<Rightarrow>
           (if is_dir_node (node s (parent p)) then (Inr (), set_node p (FileNode perm c) s)
            else (Inl (path_error ''open'' path (missing_errno s p)), s))))"

definition os_Remove :: "string \<Rightarrow> 'c local_fs \<Rightarrow> unit result \<times> 'c local_fs" where
  "os_Remove path s =
     (let p = lp path in
      case fault s p of Some e \<Rightarrow> (Inl e, s) | None \<Rightarrow>
      (case node s p of
         None \<Rightarrow> (Inl (path_error ''remove'' path (missing_errno s p)), s)
       | Some (DirNode _) \<Rightarrow>
           (if children s p \<noteq> [] \<or> snd p = [] then (Inl (path_error ''remove'' path ENOTEMPTY), s)
            else (Inr (), del_node p s))
       | Some _ \<Rightarrow> (Inr (), del_node p s)))"

text \<open>\<open>os.MkdirAll\<close> makes the missing directories from the top down.\<close>

fun mkdirs :: "string \<Rightarrow> u32 \<Rightarrow> lpath list \<Rightarrow> 'c local_fs \<Rightarrow> unit result \<times> 'c local_fs" where
  "mkdirs path perm [] s = (Inr (), s)"
| "mkdirs path perm (p # ps) s =
     (case node s p of
        Some (DirNode _) \<Rightarrow> mkdirs path perm ps s
      | Some _ \<Rightarrow> (Inl (path_error ''mkdir'' path ENOTDIR), s)
      | None \<Rightarrow>
          (case fault s p of
             Some e \<Rightarrow> (Inl e, s)
           | None \<Rightarrow> mkdirs path perm ps (set_node p (DirNode perm) s)))"

definition ancestors :: "lpath \<Rightarrow> lpath list" where
  "ancestors p = map (\<lambda>k. (fst p, take (Suc k) (snd p))) [0..<length (snd p)]"

definition os_MkdirAll :: "string \<Rightarrow> u32 \<Rightarrow> 'c local_fs \<Rightarrow> unit result \<times> 'c local_fs" where
  "os_MkdirAll path perm s = mkdirs path perm (ancestors (lp path)) s"

text \<open>\<open>os.ReadDir\<close>: the entries with their kind, sorted by name.\<close>

definition os_ReadDir :: "string \<Rightarrow> 'c local_fs \<Rightarrow> (string \<times> 'c fnode) list result" where
  "os_ReadDir path s =
     (let p = lp path in
      case fault s p of Some e \<Rightarrow> Inl e | None \<Rightarrow>
      (case node s p of
         None \<Rightarrow> Inl (path_error ''open'' path (missing_errno s p))
       | Some (DirNode _) \<Rightarrow>
           Inr (List.map_filter
             (\<lambda>n. map_option (Pair n) (node s (fst p, snd p @ [n]))) (children s p))
       | Some _ \<Rightarrow> Inl (path_error ''open'' path ENOTDIR)))"

subsection \<open>Laws\<close>

lemma node_set [simp]:
  "snd p \<noteq> [] \<Longrightarrow> node (set_node p n s) q = (if q = p then Some n else node s q)"
  by (auto simp: node_def set_node_def update_conv)

lemma node_del [simp]:
  "snd p \<noteq> [] \<Longrightarrow> node (del_node p s) q = (if q = p then None else node s q)"
  by (auto simp: node_def del_node_def delete_conv)

lemma fault_set [simp]: "fault (set_node p n s) = fault s" "fault (del_node p s) = fault s"
  by (simp_all add: set_node_def del_node_def)

lemma mkdirs_fault [simp]: "fault (snd (mkdirs path perm ps s)) = fault s"
  by (induction path perm ps s rule: mkdirs.induct) (auto split: option.splits fnode.splits)

text \<open>Making directories changes no node that was there, and adds only listed ones.\<close>

lemma mkdirs_keeps:
  "\<forall>p \<in> set ps. snd p \<noteq> [] \<Longrightarrow> node s q = Some n \<Longrightarrow> node (snd (mkdirs path perm ps s)) q = Some n"
proof (induction path perm ps s rule: mkdirs.induct)
  case (2 path perm p ps s)
  then show ?case by (cases "q = p") (auto split: option.splits fnode.splits)
qed simp

lemma mkdirs_other:
  "\<forall>p \<in> set ps. snd p \<noteq> [] \<Longrightarrow> q \<notin> set ps \<Longrightarrow> node (snd (mkdirs path perm ps s)) q = node s q"
  by (induction path perm ps s rule: mkdirs.induct) (auto split: option.splits fnode.splits)

lemma mkdirs_adds:
  "\<forall>p \<in> set ps. snd p \<noteq> [] \<Longrightarrow> node s q = None \<Longrightarrow> node (snd (mkdirs path perm ps s)) q = Some n \<Longrightarrow>
   n = DirNode perm"
proof (induction path perm ps s rule: mkdirs.induct)
  case (2 path perm p ps s)
  show ?case
  proof (cases "p = q")
    case True
    with 2 mkdirs_keeps [of ps "set_node q (DirNode perm) s" q "DirNode perm" path perm]
    show ?thesis by (auto split: option.splits)
  next
    case False
    with 2 show ?thesis by (auto split: option.splits fnode.splits)
  qed
qed simp

lemma mkdirs_done:
  "\<forall>p \<in> set ps. snd p \<noteq> [] \<Longrightarrow> mkdirs path perm ps s = (Inr (), s') \<Longrightarrow>
   \<forall>p \<in> set ps. is_dir_node (node s' p)"
proof (induction path perm ps s rule: mkdirs.induct)
  case (2 path perm p ps s)
  have "node s' p = Some n" if "mkdirs path perm ps t = (Inr (), s')" "node t p = Some n" for t n
    using mkdirs_keeps [of ps t p n path perm] that 2(3) by simp
  with 2 show ?case by (auto split: option.splits fnode.splits)
qed simp

lemma ancestors_props:
  "\<forall>p \<in> set (ancestors q). snd p \<noteq> []"
  "snd q \<noteq> [] \<Longrightarrow> q \<in> set (ancestors q)"
  "p \<in> set (ancestors q) \<Longrightarrow> length (snd p) \<le> length (snd q) \<and> fst p = fst q"
  by (auto simp: ancestors_def image_iff intro!: bexI [of _ "length (snd q) - 1"] prod_eqI)

lemma MkdirAll_dir:
  assumes "os_MkdirAll path perm s = (Inr (), s')"
  shows "is_dir_node (node s' (lp path))"
proof (cases "snd (lp path) = []")
  case False
  then show ?thesis
    using mkdirs_done [OF ancestors_props(1)] assms ancestors_props(2) [of "lp path"]
    unfolding os_MkdirAll_def by blast
qed (simp add: node_def)

lemma MkdirAll_keeps:
  "node s q = Some n \<Longrightarrow> node (snd (os_MkdirAll path perm s)) q = Some n"
  unfolding os_MkdirAll_def by (rule mkdirs_keeps) (rule ancestors_props(1))

lemma MkdirAll_other:
  "length (snd (lp path)) < length (snd q) \<Longrightarrow> node (snd (os_MkdirAll path perm s)) q = node s q"
  unfolding os_MkdirAll_def
  by (rule mkdirs_other [OF ancestors_props(1)]) (auto dest: ancestors_props(3))

lemma MkdirAll_fault [simp]: "fault (snd (os_MkdirAll path perm s)) = fault s"
  by (simp add: os_MkdirAll_def)

subsection \<open>Paths built by Join\<close>

text \<open>The elements of a cleaned path: some \<open>..\<close> (none when rooted), then proper names.\<close>

definition clean_form :: "bool \<Rightarrow> string list \<Rightarrow> bool" where
  "clean_form r es \<longleftrightarrow>
     (\<exists>k ns. es = replicate k ''..'' @ ns \<and> list_all path_name ns \<and> (r \<longrightarrow> k = 0))"

lemma clean_form_step:
  assumes "clean_form r es" "slash \<notin> set e"
  shows "clean_form r (clean_step r es e)"
proof -
  from assms(1) obtain k ns where es: "es = replicate k ''..'' @ ns" "list_all path_name ns" "r \<longrightarrow> k = 0"
    by (auto simp: clean_form_def)
  show ?thesis
  proof (cases "e = ''..''")
    case False
    then have "e = [] \<or> e = ''.'' \<or> path_name e" using assms(2) by (auto simp: path_name_def)
    then show ?thesis
    proof (elim disjE)
      assume "path_name e"
      with es show ?thesis unfolding clean_form_def
        by (intro exI [of _ k] exI [of _ "ns @ [e]"]) simp
    qed (use assms(1) in simp_all)
  next
    case True
    show ?thesis
    proof (cases ns rule: rev_cases)
      case Nil
      then have "clean_step r es e = (if r then es else replicate (Suc k) ''..'')"
        using True es by (cases k) (auto simp: clean_step_def replicate_append_same)
      then show ?thesis
        using assms(1) unfolding clean_form_def by (auto intro: exI [of _ "Suc k"])
    next
      case (snoc ms m)
      then have "clean_step r es e = replicate k ''..'' @ ms"
        using True es by (simp add: clean_step_def path_name_def butlast_append)
      then show ?thesis using es snoc unfolding clean_form_def by auto
    qed
  qed
qed

lemma clean_form_elems: "\<forall>e \<in> set es. slash \<notin> set e \<Longrightarrow> clean_form r (clean_elems r es)"
proof (induction es rule: rev_induct)
  case Nil
  then show ?case by (auto simp: clean_form_def)
qed (simp add: clean_form_step)

lemma foldl_clean_dotdots:
  "\<not> r \<Longrightarrow> foldl (clean_step r) (replicate j ''..'') (replicate k ''..'') = replicate (j + k) ''..''"
proof (induction k arbitrary: j)
  case (Suc k)
  have "clean_step r (replicate j ''..'') ''..'' = replicate (Suc j) ''..''"
    using Suc.prems by (cases j) (simp_all add: clean_step_def replicate_append_same)
  with Suc.IH [OF Suc.prems, of "Suc j"] show ?case by (simp del: replicate.simps(2) add: replicate_Suc [of k])
qed simp

lemma clean_elems_clean_form: "clean_form r es \<Longrightarrow> clean_elems r es = es"
proof -
  assume "clean_form r es"
  then obtain k ns where es: "es = replicate k ''..'' @ ns" "list_all path_name ns" "r \<longrightarrow> k = 0"
    by (auto simp: clean_form_def)
  have "clean_elems r (replicate k ''..'') = replicate k ''..''"
    using es(3) foldl_clean_dotdots [of r 0 k] by (cases r) (simp_all add: clean_elems_def)
  with es show ?thesis by (simp add: clean_elems_append foldl_clean_names)
qed

lemma lp_clean_form: "clean_form (fst (lp p)) (snd (lp p))"
  unfolding lp_def Let_def fst_conv snd_conv by (rule clean_form_elems) (auto dest: Split_no_sep)

lemma dots_no_slash: "slash \<notin> set ''.''" "slash \<notin> set ''..''"
  by (simp_all add: slash_def)

lemma clean_form_nonempty: "clean_form r es \<Longrightarrow> \<forall>e \<in> set es. e \<noteq> [] \<and> slash \<notin> set e"
  unfolding clean_form_def
proof (elim exE conjE)
  fix k ns assume "es = replicate k ''..'' @ ns" "list_all path_name ns"
  then show "\<forall>e \<in> set es. e \<noteq> [] \<and> slash \<notin> set e"
    using dots_no_slash by (fastforce simp: list_all_iff path_name_def)
qed

lemma lp_dot: "lp ''.'' = (False, [])" "lp [] = (False, [])"
  by (simp_all add: lp_def slash_def clean_elems_def)

lemma clean_form_Join:
  assumes "clean_form r es" "es \<noteq> []"
  shows "Split (Join es [slash]) slash = es" "Join es [slash] \<noteq> []" "hd (Join es [slash]) \<noteq> slash"
proof -
  note ne = clean_form_nonempty [OF assms(1)]
  show "Split (Join es [slash]) slash = es"
    using assms(2) ne by (intro Split_Join) simp_all
  from assms(2) obtain x xs where x: "es = x # xs" by (cases es) auto
  then obtain rest where "Join es [slash] = x @ rest" by (cases xs) auto
  moreover have "x \<noteq> []" "hd x \<noteq> slash" using ne x by (auto dest: hd_in_set)
  ultimately show "Join es [slash] \<noteq> []" "hd (Join es [slash]) \<noteq> slash" by simp_all
qed

text \<open>The written form of a cleaned path.\<close>

definition clean_text :: "bool \<Rightarrow> string list \<Rightarrow> string" where
  "clean_text r es = (if r then [slash] else []) @ Join es [slash]"

lemma lp_clean_text: "clean_form r es \<Longrightarrow> es \<noteq> [] \<Longrightarrow> lp (clean_text r es) = (r, es)"
  using clean_form_Join [of r es] clean_elems_clean_form [of r es]
  by (cases r) (simp_all add: clean_text_def lp_def)

lemma Clean_text:
  assumes "snd (lp p) \<noteq> []"
  shows "Clean p = clean_text (fst (lp p)) (snd (lp p))"
proof -
  have "p \<noteq> []" using assms by (auto simp: lp_dot)
  with clean_form_Join(2) [OF lp_clean_form assms] show ?thesis
    by (simp add: Clean_def clean_text_def lp_def Let_def)
qed

lemma Clean_no_names: "snd (lp p) = [] \<Longrightarrow> Clean p = (if fst (lp p) then [slash] else ''.'')"
  by (cases "p = []"; cases "hd p = slash") (simp_all add: Clean_def lp_def Let_def)

lemma lp_Clean: "lp (Clean p) = lp p"
proof (cases "snd (lp p) = []")
  case True
  have "lp [slash] = (True, [])" by (simp add: lp_def)
  with True show ?thesis by (simp add: Clean_no_names lp_dot prod_eq_iff)
next
  case False
  then show ?thesis using lp_clean_text [OF lp_clean_form False] by (simp add: Clean_text)
qed

lemma lp_path_Join:
  assumes "root \<noteq> []" "list_all path_name ns"
  shows "lp (path_Join (root # ns)) = (fst (lp root), snd (lp root) @ ns)"
proof (cases "ns = []")
  case True
  with assms show ?thesis by (simp add: path_Join_def lp_Clean)
next
  case False
  have "\<forall>e \<in> set ns. slash \<notin> set e" using assms(2) by (auto simp: list_all_iff path_name_def)
  then have "Split (root @ slash # Join ns [slash]) slash = Split root slash @ ns"
    using False by (simp add: Split_append_sep Split_Join)
  with assms False show ?thesis
    by (simp add: path_Join_def lp_Clean Join_Cons) (simp add: lp_def Let_def clean_elems_append foldl_clean_names)
qed

lemma lp_trailing_slash: "p \<noteq> [] \<Longrightarrow> lp (p @ [slash]) = lp p"
  using Split_append_sep [of p slash "[]"] by (simp add: lp_def Let_def clean_elems_append)

text \<open>The directory of a file path is the path without its last element.\<close>

lemma lp_path_Dir_Join:
  assumes "root \<noteq> []" "list_all path_name (ns @ [n])"
  shows "lp (path_Dir (path_Join (root # ns @ [n]))) = (fst (lp root), snd (lp root) @ ns)"
proof -
  define r es where "r = fst (lp root)" and "es = snd (lp root) @ ns"
  have l: "lp (path_Join (root # ns @ [n])) = (r, es @ [n])"
    using lp_path_Join [OF assms] by (simp add: r_def es_def)
  obtain q where q: "path_Join (root # ns @ [n]) = Clean q"
    using assms(1) by (auto simp: path_Join_def)
  then have "lp q = (r, es @ [n])" using l by (simp add: lp_Clean)
  then have j: "path_Join (root # ns @ [n]) = clean_text r (es @ [n])"
    using q by (simp add: Clean_text)
  have n: "slash \<notin> set n" using assms(2) by (simp add: path_name_def)
  have "lp (path_Dir (clean_text r (es @ [n]))) = (r, es)"
  proof (cases "es = []")
    case True
    have n': "takeWhile (\<lambda>c. c \<noteq> slash) (rev n) = rev n" using n by (auto simp: takeWhile_eq_all_conv)
    have "path_Split n = ([], n)" unfolding path_Split_def Let_def n' by simp
    then show ?thesis
      using path_Split_last [OF n, of "[]"] True
      by (simp add: path_Dir_def lp_Clean clean_text_def lp_dot) (simp add: lp_def)
  next
    case False
    then have "clean_text r (es @ [n]) = clean_text r es @ slash # n" by (simp add: clean_text_def Join_snoc)
    then have d: "fst (path_Split (clean_text r (es @ [n]))) = clean_text r es @ [slash]"
      using path_Split_last [OF n] by simp
    have f: "clean_form r es"
      using lp_clean_form [of "path_Join (root # ns)"] lp_path_Join [OF assms(1), of ns] assms(2)
      by (simp add: r_def es_def)
    have "clean_text r es \<noteq> []" using clean_form_Join(2) [OF f False] by (simp add: clean_text_def)
    then show ?thesis
      by (simp add: path_Dir_def lp_Clean d lp_trailing_slash lp_clean_text [OF f False])
  qed
  then show ?thesis unfolding j by (simp add: r_def es_def)
qed

subsection \<open>Well-formed file systems\<close>

text \<open>Every file and directory is inside a directory.\<close>

definition fs_ok :: "'c local_fs \<Rightarrow> bool" where
  "fs_ok s \<longleftrightarrow> (\<forall>p. node s p \<noteq> None \<and> snd p \<noteq> [] \<longrightarrow> is_dir_node (node s (parent p)))"

lemma fs_okD: "fs_ok s \<Longrightarrow> node s p \<noteq> None \<Longrightarrow> snd p \<noteq> [] \<Longrightarrow> is_dir_node (node s (parent p))"
  unfolding fs_ok_def by blast

lemma parent_neq [simp]: "snd p \<noteq> [] \<Longrightarrow> parent p \<noteq> p"
  by (metis parent_def append_butlast_last_id not_Cons_self2 snd_conv self_append_conv)

lemma fs_ok_set:
  assumes "fs_ok s" "snd p \<noteq> []" "is_dir_node (node s (parent p))"
    and "is_dir_node (node s p) \<Longrightarrow> is_dir_node (Some n)"
  shows "fs_ok (set_node p n s)"
  using assms by (auto simp: fs_ok_def)

lemma children_empty:
  assumes "children s p = []" "node s q \<noteq> None" "snd q \<noteq> []"
  shows "parent q \<noteq> p"
proof
  assume "parent q = p"
  from assms(2,3) have "q \<in> set (map fst (nodes s))"
    by (auto simp: node_def dest: map_of_SomeD intro: rev_image_eqI)
  with \<open>parent q = p\<close> assms(3) have "last (snd q) \<in> set (children s p)"
    by (auto simp: children_def intro!: image_eqI [of _ "last \<circ> snd" q])
  with assms(1) show False by simp
qed

lemma fs_ok_del:
  assumes "fs_ok s" "snd p \<noteq> []" "is_dir_node (node s p) \<Longrightarrow> children s p = []"
  shows "fs_ok (del_node p s)"
  unfolding fs_ok_def
proof (intro allI impI)
  fix q assume q: "node (del_node p s) q \<noteq> None \<and> snd q \<noteq> []"
  then have "q \<noteq> p" and nq: "node s q \<noteq> None" "snd q \<noteq> []" using assms(2) by (auto split: if_splits)
  with assms(1) have d: "is_dir_node (node s (parent q))" by (simp only: fs_okD not_False_eq_True)
  then have "parent q \<noteq> p" using children_empty [of s p q] assms(3) nq by auto
  with d assms(2) show "is_dir_node (node (del_node p s) (parent q))" by simp
qed

lemma fs_ok_WriteFile: "fs_ok s \<Longrightarrow> fs_ok (snd (os_WriteFile path c perm s))"
proof -
  assume ok: "fs_ok s"
  let ?p = "lp path"
  have "fs_ok (set_node ?p (FileNode m c) s)"
    if "\<not> is_dir_node (node s ?p)" "node s ?p \<noteq> None \<or> is_dir_node (node s (parent ?p))" for m
  proof (rule fs_ok_set [OF ok])
    show "snd ?p \<noteq> []" using that(1) by (auto simp: node_def)
    then show "is_dir_node (node s (parent ?p))" using that(2) fs_okD [OF ok] by blast
  qed (use that in auto)
  then show ?thesis
    using ok by (auto simp: os_WriteFile_def Let_def split: option.splits fnode.splits)
qed

lemma fs_ok_Remove: "fs_ok s \<Longrightarrow> fs_ok (snd (os_Remove path s))"
proof -
  assume ok: "fs_ok s"
  have "fs_ok (del_node (lp path) s)"
    if "node s (lp path) = Some n" "is_dir_node (Some n) \<Longrightarrow> children s (lp path) = [] \<and> snd (lp path) \<noteq> []" for n
    using that ok by (intro fs_ok_del) (auto simp: node_def split: if_splits)
  then show ?thesis
    using ok by (auto simp: os_Remove_def Let_def split: option.splits fnode.splits)
qed

lemma fs_ok_mkdirs:
  "fs_ok s \<Longrightarrow> is_dir_node (node s (r, take i ns)) \<Longrightarrow> i \<le> length ns \<Longrightarrow>
   fs_ok (snd (mkdirs path perm (map (\<lambda>k. (r, take (Suc k) ns)) [i..<length ns]) s))"
proof (induction "length ns - i" arbitrary: i s)
  case (Suc m)
  let ?p = "(r, take (Suc i) ns)"
  from Suc(2) have i: "i < length ns" by simp
  have par: "parent ?p = (r, take i ns)" "snd ?p \<noteq> []"
    using i by (auto simp: parent_def butlast_take)
  have ok: "fs_ok (set_node ?p (DirNode perm) s)"
    using Suc(3,4) par by (intro fs_ok_set) auto
  have IH: "fs_ok (snd (mkdirs path perm (map (\<lambda>k. (r, take (Suc k) ns)) [Suc i..<length ns]) t))"
    if "fs_ok t" "is_dir_node (node t ?p)" for t :: "'a local_fs"
    using Suc(1) [of "Suc i" t] Suc(2) i that by simp
  have l: "map (\<lambda>k. (r, take (Suc k) ns)) [i..<length ns] =
      ?p # map (\<lambda>k. (r, take (Suc k) ns)) [Suc i..<length ns]"
    using i by (simp add: upt_conv_Cons)
  show ?case
    unfolding l using IH [OF Suc(3)] IH [OF ok] Suc(3) par(2)
    by (auto split: option.splits fnode.splits)
qed simp

lemma fs_ok_MkdirAll: "fs_ok s \<Longrightarrow> fs_ok (snd (os_MkdirAll path perm s))"
  using fs_ok_mkdirs [of s "fst (lp path)" 0 "snd (lp path)" path perm]
  by (simp add: os_MkdirAll_def ancestors_def node_def)

text \<open>In a well-formed file system everything above an existing node is a directory.\<close>

lemma fs_ok_prefix:
  assumes "fs_ok s" "node s (r, ns) \<noteq> None" "k < length ns"
  shows "is_dir_node (node s (r, take k ns))"
  using assms(2,3)
proof (induction "length ns - k" arbitrary: k)
  case (Suc m)
  have "node s (r, take (Suc k) ns) \<noteq> None"
  proof (cases "Suc k = length ns")
    case False
    then have "is_dir_node (node s (r, take (Suc k) ns))" using Suc(1) [of "Suc k"] Suc(2,3,4) by simp
    then show ?thesis by (cases "node s (r, take (Suc k) ns)") auto
  qed (use Suc in simp)
  moreover have "parent (r, take (Suc k) ns) = (r, take k ns)"
    using Suc(4) by (simp add: parent_def butlast_take)
  ultimately show ?case using assms(1) Suc(4) unfolding fs_ok_def by force
qed simp

lemma missing_errno_removed:
  assumes "fs_ok s" "node s p \<noteq> None" "snd p \<noteq> []"
  shows "missing_errno (del_node p s) p = ENOENT"
proof -
  have d: "is_dir_node (node s (fst p, take k (snd p)))" "(fst p, take k (snd p)) \<noteq> p"
    if "k < length (snd p)" for k
    using fs_ok_prefix [of s "fst p" "snd p" k] assms that by (auto simp: prod_eq_iff)
  have "(case node (del_node p s) (fst p, take k (snd p)) of
      Some (FileNode _ _) \<Rightarrow> True | _ \<Rightarrow> False) = False" if "k < length (snd p)" for k
    using d [OF that] assms(3) by (cases "node s (fst p, take k (snd p))" rule: is_dir_node.cases) auto
  then show ?thesis unfolding missing_errno_def list_ex_iff by simp
qed

lemma missing_errno_cong:
  fixes s t :: "'c local_fs"
  assumes "\<And>k. k < length (snd p) \<Longrightarrow>
    (\<exists>m c. node s (fst p, take k (snd p)) = Some (FileNode m c)) =
    (\<exists>m c. node t (fst p, take k (snd p)) = Some (FileNode m c))"
  shows "missing_errno s p = missing_errno t p"
proof -
  have "(case node u q of Some (FileNode _ _) \<Rightarrow> True | _ \<Rightarrow> False) \<longleftrightarrow>
      (\<exists>m c. node u q = Some (FileNode m c))" for u :: "'c local_fs" and q
    by (auto split: option.splits fnode.splits)
  then show ?thesis using assms unfolding missing_errno_def list_ex_iff by auto
qed

subsection \<open>Files of equal depth do not disturb each other\<close>

text \<open>
  Reading a path depends only on its node, its fault and on which paths above it are files.
\<close>

lemma ReadFile_cong:
  assumes "node s (lp path) = node t (lp path)" "fault s = fault t"
    and "\<And>k. k < length (snd (lp path)) \<Longrightarrow>
      (\<exists>m c. node s (fst (lp path), take k (snd (lp path))) = Some (FileNode m c)) =
      (\<exists>m c. node t (fst (lp path), take k (snd (lp path))) = Some (FileNode m c))"
  shows "os_ReadFile path s = os_ReadFile path t"
  using assms(1,2) missing_errno_cong [OF assms(3)] by (simp add: os_ReadFile_def Let_def split: option.split fnode.split)

lemma WriteFile_fault [simp]: "fault (snd (os_WriteFile path c perm s)) = fault s"
  by (auto simp: os_WriteFile_def Let_def split: option.splits fnode.splits)

lemma Remove_fault [simp]: "fault (snd (os_Remove path s)) = fault s"
  by (auto simp: os_Remove_def Let_def split: option.splits fnode.splits)

lemma WriteFile_node:
  assumes "q \<noteq> lp path"
  shows "node (snd (os_WriteFile path c perm s)) q = node s q"
  using assms by (auto simp: os_WriteFile_def Let_def node_def set_node_def update_conv
      split: option.splits fnode.splits)

lemma WriteFile_read:
  assumes "os_WriteFile path c perm s = (Inr (), t)"
  shows "os_ReadFile path t = Inr c"
proof -
  from assms have "snd (lp path) \<noteq> []"
    by (auto simp: os_WriteFile_def Let_def node_def split: option.splits)
  with assms show ?thesis
    by (auto simp: os_WriteFile_def os_ReadFile_def Let_def split: option.splits fnode.splits if_splits)
qed

lemma Remove_node:
  assumes "q \<noteq> lp path"
  shows "node (snd (os_Remove path s)) q = node s q"
  using assms by (auto simp: os_Remove_def Let_def node_def del_node_def delete_conv
      split: option.splits fnode.splits)

lemma Remove_read:
  assumes "fs_ok s" "os_Remove path s = (Inr (), t)"
  shows "\<exists>e. os_ReadFile path t = Inl e \<and> errors_Is e OsErrNotExist"
proof -
  from assms(2) have f: "fault s (lp path) = None" and n: "node s (lp path) \<noteq> None"
    and p: "snd (lp path) \<noteq> []" and t: "t = del_node (lp path) s"
    by (auto simp: os_Remove_def Let_def node_def split: option.splits fnode.splits if_splits)
  show ?thesis
    using f p missing_errno_removed [OF assms(1) n p]
    by (simp add: t os_ReadFile_def path_error_def)
qed

lemma ReadFile_beside:
  assumes "length (snd (lp path)) \<le> length (snd q)"
    and "\<And>p. p \<noteq> q \<Longrightarrow> node t p = node s p" and "lp path \<noteq> q" and "fault t = fault s"
  shows "os_ReadFile path t = os_ReadFile path s"
proof (rule ReadFile_cong)
  fix k assume "k < length (snd (lp path))"
  then have "length (take k (snd (lp path))) < length (snd q)" using assms(1) by simp
  then have "(fst (lp path), take k (snd (lp path))) \<noteq> q" by auto
  then show "(\<exists>m c. node t (fst (lp path), take k (snd (lp path))) = Some (FileNode m c)) =
      (\<exists>m c. node s (fst (lp path), take k (snd (lp path))) = Some (FileNode m c))"
    using assms(2) by simp
qed (use assms in auto)

lemma ReadFile_MkdirAll:
  assumes "length (snd (lp dir)) < length (snd (lp path))"
  shows "os_ReadFile path (snd (os_MkdirAll dir perm s)) = os_ReadFile path s"
proof (rule ReadFile_cong)
  show "node (snd (os_MkdirAll dir perm s)) (lp path) = node s (lp path)"
    using assms by (rule MkdirAll_other)
  fix k
  let ?q = "(fst (lp path), take k (snd (lp path)))"
  show "(\<exists>m c. node (snd (os_MkdirAll dir perm s)) ?q = Some (FileNode m c)) =
      (\<exists>m c. node s ?q = Some (FileNode m c))"
    using MkdirAll_keeps [of s ?q _ dir perm] mkdirs_adds [OF ancestors_props(1) [of "lp dir"], of s ?q dir perm]
    by (cases "node s ?q") (fastforce simp: os_MkdirAll_def)+
qed simp

definition empty_fs :: "'c local_fs" where
  "empty_fs = \<lparr>nodes = [], fault = \<lambda>_. None\<rparr>"

lemma fs_ok_empty: "fs_ok empty_fs"
  by (auto simp: fs_ok_def empty_fs_def node_def)

subsection \<open>Listing\<close>

text \<open>The last element of every path is a proper name, as the kernel guarantees.\<close>

definition names_ok :: "'c local_fs \<Rightarrow> bool" where
  "names_ok s \<longleftrightarrow> (\<forall>p \<in> set (map fst (nodes s)). snd p \<noteq> [] \<longrightarrow> path_name (last (snd p)))"

lemma children_mem:
  "n \<in> set (children s p) \<longleftrightarrow> (fst p, snd p @ [n]) \<in> fst ` set (nodes s)"
proof -
  have q: "snd q \<noteq> [] \<and> parent q = p \<and> last (snd q) = n \<longleftrightarrow> q = (fst p, snd p @ [n])" for q
    by (cases q; cases p) (auto simp: parent_def append_butlast_last_id [symmetric])
  have "n \<in> set (children s p) \<longleftrightarrow>
      (\<exists>q \<in> fst ` set (nodes s). snd q \<noteq> [] \<and> parent q = p \<and> last (snd q) = n)"
    by (auto simp: children_def) force
  also have "\<dots> \<longleftrightarrow> (fst p, snd p @ [n]) \<in> fst ` set (nodes s)"
    unfolding q by (simp only: bex_triv_one_point1)
  finally show ?thesis .
qed

lemma ReadDir_mem:
  assumes "os_ReadDir path s = Inr es"
  shows "(n, nd) \<in> set es \<longleftrightarrow> node s (fst (lp path), snd (lp path) @ [n]) = Some nd"
proof -
  let ?q = "(fst (lp path), snd (lp path) @ [n])"
  from assms have es: "es = List.map_filter
      (\<lambda>n. map_option (Pair n) (node s (fst (lp path), snd (lp path) @ [n]))) (children s (lp path))"
    by (auto simp: os_ReadDir_def Let_def split: option.splits fnode.splits)
  have "n \<in> set (children s (lp path))" if "node s ?q = Some nd"
    using that by (auto simp: children_mem node_def dest: map_of_SomeD intro: rev_image_eqI)
  then show ?thesis unfolding es by (auto simp: map_filter_def) force
qed

lemma names_ok_below:
  assumes "fs_ok s" "names_ok s" "node s (r, es @ ns) \<noteq> None"
  shows "list_all path_name ns"
  using assms(3)
proof (induction ns rule: rev_induct)
  case (snoc n ns)
  from snoc(2) have "(r, es @ ns @ [n]) \<in> fst ` set (nodes s)"
    by (simp add: node_def map_of_eq_None_iff del: not_None_eq)
  then have "path_name n" using assms(2) by (auto simp: names_ok_def)
  moreover have "is_dir_node (node s (r, es @ ns))"
    using fs_ok_prefix [OF assms(1) snoc(2), of "length (es @ ns)"] by simp
  then have "node s (r, es @ ns) \<noteq> None" by (cases "node s (r, es @ ns)") auto
  ultimately show ?case using snoc(1) by simp
qed simp

end
