(* ===== verification/Json_Store.thy ===== *)
theory Json_Store
  imports Go_Os
begin

text \<open>
  State kept in small JSON files, and the contract the two stores of the program share (the
  workspace metadata and the mount states). A file holds either a JSON document, modelled
  as the fields of its top-level object, or bytes that are not such a document. Marshalling
  a struct writes its fields under their tags and leaves out empty \<open>omitempty\<close> fields;
  unmarshalling reads the fields it knows, a missing one as the zero value. Strings are
  taken to be valid UTF-8, times are instants.
\<close>

datatype jvalue = JString string | JInt int | JBool bool | JTime int

type_synonym jdoc = "(string \<times> jvalue) list"

datatype content = Raw bytes | Json jdoc

text \<open>
  \<open>time.Time\<close> marshals only years 0 to 9999; times are nanoseconds since the Go zero time.
\<close>

definition json_time_ok :: "int \<Rightarrow> bool" where
  "json_time_ok t \<longleftrightarrow> - 31622400 * 1000000000 \<le> t \<and> t < 315537897600 * 1000000000"

definition json_time_error :: go_error where
  "json_time_error =
     ErrorString ''json: error calling MarshalJSON for type time.Time: year outside of range [0,9999]''"

definition json_type_error :: go_error where
  "json_type_error = ErrorString ''json: cannot unmarshal value into Go struct field''"

definition json_syntax_error :: go_error where
  "json_syntax_error = ErrorString ''invalid character looking for beginning of value''"

definition field_string :: "jdoc \<Rightarrow> string \<Rightarrow> string result" where
  "field_string d k = (case map_of (rev d) k of
     None \<Rightarrow> Inr [] | Some (JString s) \<Rightarrow> Inr s | Some _ \<Rightarrow> Inl json_type_error)"

definition field_int :: "jdoc \<Rightarrow> string \<Rightarrow> int result" where
  "field_int d k = (case map_of (rev d) k of
     None \<Rightarrow> Inr 0 | Some (JInt i) \<Rightarrow> Inr i | Some _ \<Rightarrow> Inl json_type_error)"

definition field_bool :: "jdoc \<Rightarrow> string \<Rightarrow> bool result" where
  "field_bool d k = (case map_of (rev d) k of
     None \<Rightarrow> Inr False | Some (JBool b) \<Rightarrow> Inr b | Some _ \<Rightarrow> Inl json_type_error)"

definition field_time :: "jdoc \<Rightarrow> string \<Rightarrow> int result" where
  "field_time d k = (case map_of (rev d) k of
     None \<Rightarrow> Inr 0 | Some (JTime t) \<Rightarrow> Inr t | Some _ \<Rightarrow> Inl json_type_error)"

definition json_doc :: "content \<Rightarrow> jdoc result" where
  "json_doc c = (case c of Json d \<Rightarrow> Inr d | Raw _ \<Rightarrow> Inl json_syntax_error)"

lemmas field_defs = field_string_def field_int_def field_bool_def field_time_def

subsection \<open>The contract of a keyed store\<close>

text \<open>
  What a client of a store relies on: a value saved under a key is what the next load of
  the key returns (as the store keeps it), a delete removes it, and operations under one
  key do not affect keys with another file, whether they succeed or fail.
\<close>

locale keyed_store =
  fixes valid :: "'k \<Rightarrow> bool"
    and fileof :: "'k \<Rightarrow> 'p"
    and save :: "'k \<Rightarrow> 'v \<Rightarrow> 's \<Rightarrow> unit result \<times> 's"
    and load :: "'k \<Rightarrow> 's \<Rightarrow> 'v result"
    and delete :: "'k \<Rightarrow> 's \<Rightarrow> unit result \<times> 's"
    and keeps :: "'k \<Rightarrow> 'v \<Rightarrow> 'v"
    and good :: "'s \<Rightarrow> bool"
  assumes load_save: "valid k \<Longrightarrow> save k v s = (Inr (), s') \<Longrightarrow> load k s' = Inr (keeps k v)"
    and load_save_other: "valid k \<Longrightarrow> valid j \<Longrightarrow> fileof j \<noteq> fileof k \<Longrightarrow> load j (snd (save k v s)) = load j s"
    and load_delete: "valid k \<Longrightarrow> good s \<Longrightarrow> delete k s = (Inr (), s') \<Longrightarrow>
      \<exists>e. load k s' = Inl e \<and> errors_Is e OsErrNotExist"
    and load_delete_other: "valid k \<Longrightarrow> valid j \<Longrightarrow> fileof j \<noteq> fileof k \<Longrightarrow>
      load j (snd (delete k s)) = load j s"
    and good_save: "good s \<Longrightarrow> good (snd (save k v s))"
    and good_delete: "good s \<Longrightarrow> good (snd (delete k s))"
begin

text \<open>A run of saves (\<open>Inl\<close>) and deletes (\<open>Inr\<close>).\<close>

definition step :: "'s \<Rightarrow> ('k \<times> 'v) + 'k \<Rightarrow> 's" where
  "step s op = (case op of Inl (k, v) \<Rightarrow> snd (save k v s) | Inr k \<Rightarrow> snd (delete k s))"

definition op_key :: "('k \<times> 'v) + 'k \<Rightarrow> 'k" where
  "op_key op = (case op of Inl (k, v) \<Rightarrow> k | Inr k \<Rightarrow> k)"

lemma step_other:
  "valid (op_key op) \<Longrightarrow> valid j \<Longrightarrow> fileof j \<noteq> fileof (op_key op) \<Longrightarrow> load j (step s op) = load j s"
  by (cases op) (auto simp: step_def op_key_def load_save_other load_delete_other)

lemma run_other:
  "\<forall>op \<in> set ops. valid (op_key op) \<and> fileof j \<noteq> fileof (op_key op) \<Longrightarrow> valid j \<Longrightarrow>
   load j (foldl step s ops) = load j s"
  by (induction ops arbitrary: s) (simp_all add: step_other)

lemma good_step: "good s \<Longrightarrow> good (step s op)"
  by (cases op) (auto simp: step_def good_save good_delete)

lemma good_run: "good s \<Longrightarrow> good (foldl step s ops)"
  by (induction ops arbitrary: s) (simp_all add: good_step)

text \<open>The last operation under a key decides what its load returns.\<close>

lemma last_write_wins:
  assumes "\<forall>op \<in> set ops. valid (op_key op) \<and> fileof j \<noteq> fileof (op_key op)" "valid j"
    and "save j v s = (Inr (), s')"
  shows "load j (foldl step s' ops) = Inr (keeps j v)"
  using run_other [OF assms(1,2)] load_save [OF assms(2,3)] by simp

lemma last_delete_wins:
  assumes "\<forall>op \<in> set ops. valid (op_key op) \<and> fileof j \<noteq> fileof (op_key op)" "valid j" "good s"
    and "delete j s = (Inr (), s')"
  shows "\<exists>e. load j (foldl step s' ops) = Inl e \<and> errors_Is e OsErrNotExist"
  using run_other [OF assms(1,2)] load_delete [OF assms(2-4)] by simp

end

end
