(* ===== verification/Config.thy ===== *)
theory Config
  imports Go_Path
begin

text \<open>
  The configuration of \<open>internal/config/config.go\<close>: profiles, their validation, defaults,
  the secret of a profile, default locations. The TOML decoder, the environment and the
  secret command are parameters. The profile map is an association list in the order in
  which the run-time iterates over it, which Go does not fix.
\<close>

record profile =
  CPUHost :: string
  AuthHost :: string
  User :: string
  AuthDomain :: string
  RemoteBase :: string
  SecretEnv :: string
  SecretCommand :: "string list"

record config =
  cfg_Path :: string
  Profiles :: "(string \<times> profile) list"

record secret =
  secret_Value :: string
  secret_Source :: string

text \<open>\<open>%q\<close>: a quoted string with the escapes of Go for quotes, backslashes and controls.\<close>

definition hex_digit :: "nat \<Rightarrow> byte" where
  "hex_digit d = ''0123456789abcdef'' ! d"

definition quote_char :: "byte \<Rightarrow> bytes" where
  "quote_char c =
     (if c = CHR 0x22 then [CHR 0x5C, CHR 0x22]
      else if c = CHR 0x5C then [CHR 0x5C, CHR 0x5C]
      else if c = CHR 0x0A then [CHR 0x5C, CHR ''n'']
      else if c = CHR 0x09 then [CHR 0x5C, CHR ''t'']
      else if c = CHR 0x0D then [CHR 0x5C, CHR ''r'']
      else if byte_val c < 32 \<or> byte_val c = 127
      then [CHR 0x5C, CHR ''x'', hex_digit (byte_val c div 16), hex_digit (byte_val c mod 16)]
      else [c])"

definition Quote :: "bytes \<Rightarrow> bytes" where
  "Quote s = [CHR 0x22] @ concat (map quote_char s) @ [CHR 0x22]"

definition profile_Validate :: "profile \<Rightarrow> unit result" where
  "profile_Validate p =
     (let missing = (if CPUHost p = [] then [''cpu_host''] else []) @
            (if AuthHost p = [] then [''auth_host''] else []) @
            (if User p = [] then [''user''] else []) @
            (if AuthDomain p = [] then [''auth_domain''] else [])
      in if missing \<noteq> [] then Inl (ErrorString (''missing required fields: '' @ Join missing '', ''))
         else if (SecretEnv p = []) = (SecretCommand p = [])
         then Inl (ErrorString ''exactly one of secret_env or secret_command must be set'')
         else Inr ())"

fun validate_profiles :: "(string \<times> profile) list \<Rightarrow> unit result" where
  "validate_profiles [] = Inr ()"
| "validate_profiles ((name, p) # ps) =
     (case profile_Validate p of
        Inl e \<Rightarrow> Inl (WrapError (''profile '' @ Quote name @ '': '' @ error_text e) e)
      | Inr _ \<Rightarrow> validate_profiles ps)"

definition config_Validate :: "config \<Rightarrow> unit result" where
  "config_Validate c =
     (if Profiles c = [] then Inl (ErrorString ''config must define at least one profile'')
      else validate_profiles (Profiles c))"

definition default_base :: "profile \<Rightarrow> profile" where
  "default_base p =
     (if RemoteBase p = [] \<and> User p \<noteq> []
      then p\<lparr>RemoteBase := ''/usr/'' @ User p @ ''/agentic9/workspaces''\<rparr> else p)"

text \<open>\<open>userConfigDir\<close> is the result of \<open>os.UserConfigDir()\<close>.\<close>

definition DefaultConfigPath :: "string result \<Rightarrow> string" where
  "DefaultConfigPath userConfigDir =
     (case userConfigDir of
        Inl _ \<Rightarrow> path_Join [''.config'', ''agentic9'', ''config.toml'']
      | Inr dir \<Rightarrow> path_Join [dir, ''agentic9'', ''config.toml''])"

definition config_Load ::
  "(string \<Rightarrow> config result) \<Rightarrow> string result \<Rightarrow> string \<Rightarrow> config result" where
  "config_Load decodeFile userConfigDir path =
     (let path = (if path = [] then DefaultConfigPath userConfigDir else path) in
      bind_result (decodeFile path) (\<lambda>cfg.
        let cfg = cfg\<lparr>cfg_Path := path,
              Profiles := map (\<lambda>(name, p). (name, default_base p)) (Profiles cfg)\<rparr>
        in bind_result (config_Validate cfg) (\<lambda>_. Inr cfg)))"

definition config_Profile :: "config \<Rightarrow> string \<Rightarrow> profile result" where
  "config_Profile c name =
     (case map_of (Profiles c) name of
        None \<Rightarrow> Inl (ErrorString (''profile '' @ Quote name @ '' not found''))
      | Some p \<Rightarrow> Inr p)"

text \<open>\<open>getenv\<close> is \<open>os.Getenv\<close>; \<open>output\<close> runs a command and returns its standard output.\<close>

definition LoadSecret ::
  "(string \<Rightarrow> string) \<Rightarrow> (string list \<Rightarrow> bytes result) \<Rightarrow> config \<Rightarrow> string \<Rightarrow> secret result" where
  "LoadSecret getenv output c name =
     bind_result (config_Profile c name) (\<lambda>p.
       if SecretEnv p \<noteq> [] then
         (let v = getenv (SecretEnv p) in
          if v = [] then
            Inl (ErrorString (''secret env '' @ Quote (SecretEnv p) @ '' is empty for profile '' @
              Quote name @ ''; export '' @ SecretEnv p @
              '' or update the profile to use secret_command''))
          else Inr \<lparr>secret_Value = v, secret_Source = ''env:'' @ SecretEnv p\<rparr>)
       else if SecretCommand p \<noteq> [] then
         (case output (SecretCommand p) of
            Inl e \<Rightarrow> Inl (WrapError (''secret command failed for profile '' @ Quote name @ '' ('' @
              Join (SecretCommand p) '' '' @ ''): '' @ error_text e) e)
          | Inr out \<Rightarrow> Inr \<lparr>secret_Value = TrimSpace out, secret_Source = ''command''\<rparr>)
       else Inl (ErrorString ''profile has no secret source''))"

definition DefaultRuntimeRoot :: "(string \<Rightarrow> string) \<Rightarrow> string \<Rightarrow> string" where
  "DefaultRuntimeRoot getenv tempDir =
     (let dir = getenv ''XDG_RUNTIME_DIR'' in
      if dir \<noteq> [] then path_Join [dir, ''agentic9''] else path_Join [tempDir, ''agentic9-runtime''])"

definition StateRoot :: "string result \<Rightarrow> string" where
  "StateRoot userHomeDir =
     (case userHomeDir of
        Inl _ \<Rightarrow> ''.agentic9-state''
      | Inr dir \<Rightarrow> path_Join [dir, ''.local'', ''state'', ''agentic9'', ''workspaces''])"

definition RuntimeRoot :: "(string \<Rightarrow> string) \<Rightarrow> string \<Rightarrow> string" where
  "RuntimeRoot getenv tempDir = DefaultRuntimeRoot getenv tempDir"

subsection \<open>What validation promises\<close>

definition profile_complete :: "profile \<Rightarrow> bool" where
  "profile_complete p \<longleftrightarrow> CPUHost p \<noteq> [] \<and> AuthHost p \<noteq> [] \<and> User p \<noteq> [] \<and> AuthDomain p \<noteq> [] \<and>
     (SecretEnv p \<noteq> []) \<noteq> (SecretCommand p \<noteq> [])"

lemma profile_Validate_iff: "profile_Validate p = Inr () \<longleftrightarrow> profile_complete p"
  by (auto simp: profile_Validate_def profile_complete_def Let_def)

lemma validate_profiles_iff:
  "validate_profiles ps = Inr () \<longleftrightarrow> (\<forall>(n, p) \<in> set ps. profile_complete p)"
  by (induction ps rule: validate_profiles.induct)
    (auto split: sum.splits simp: profile_Validate_iff [symmetric])

lemma config_Validate_iff:
  "config_Validate c = Inr () \<longleftrightarrow>
     Profiles c \<noteq> [] \<and> (\<forall>(n, p) \<in> set (Profiles c). profile_complete p)"
  by (simp add: config_Validate_def validate_profiles_iff)

lemma default_base_simps [simp]:
  "CPUHost (default_base p) = CPUHost p" "User (default_base p) = User p"
  "SecretEnv (default_base p) = SecretEnv p" "SecretCommand (default_base p) = SecretCommand p"
  by (simp_all add: default_base_def)

subsection \<open>Properties\<close>

text \<open>
  Property C30: a configuration that loads is usable. Every profile of it has its hosts,
  user and domain, a remote base directory and exactly one source for its secret, whatever
  order the profiles are visited in; and loading the secret of such a profile never fails
  for want of a source: a secret from the environment is not empty, and the only errors are
  an empty variable or a command that failed.
\<close>

theorem loaded_config_usable:
  assumes "config_Load decodeFile userConfigDir path = Inr cfg"
    and "config_Profile cfg name = Inr p"
  shows "profile_complete p \<and> RemoteBase p \<noteq> [] \<and>
    (set ps = set (Profiles cfg) \<longrightarrow> validate_profiles ps = Inr ()) \<and>
    (case LoadSecret getenv output cfg name of
       Inr s \<Rightarrow> (SecretEnv p \<noteq> [] \<longrightarrow> secret_Value s = getenv (SecretEnv p) \<and> secret_Value s \<noteq> [])
     | Inl e \<Rightarrow> (SecretEnv p \<noteq> [] \<and> getenv (SecretEnv p) = []) \<or>
         (\<exists>e'. SecretCommand p \<noteq> [] \<and> output (SecretCommand p) = Inl e' \<and> errors_Is e e'))"
proof -
  have "\<exists>c0 :: config. config_Validate cfg = Inr () \<and>
      Profiles cfg = map (\<lambda>(name, p). (name, default_base p)) (Profiles c0)"
    using assms(1) by (auto simp: config_Load_def Let_def bind_result_eq_Inr)
  then obtain c0 :: config where v: "config_Validate cfg = Inr ()"
    and ps: "Profiles cfg = map (\<lambda>(name, p). (name, default_base p)) (Profiles c0)" by blast
  from assms(2) have p: "(name, p) \<in> set (Profiles cfg)"
    by (auto simp: config_Profile_def split: option.splits dest: map_of_SomeD)
  with v have c: "profile_complete p" by (auto simp: config_Validate_iff)
  from p ps obtain q where q: "p = default_base q" by auto
  with c have "RemoteBase p \<noteq> []" 
    by (auto simp: profile_complete_def) (auto simp: default_base_def split: if_splits)
  moreover have "set ps = set (Profiles cfg) \<longrightarrow> validate_profiles ps = Inr ()"
    using v by (auto simp: config_Validate_iff validate_profiles_iff)
  ultimately show ?thesis
    using c assms(2) by (auto simp: LoadSecret_def profile_complete_def Let_def split: sum.splits)
qed

definition example_profile :: profile where
  "example_profile = \<lparr>CPUHost = ''cpu'', AuthHost = ''auth'', User = ''glenda'', AuthDomain = ''9front'',
     RemoteBase = [], SecretEnv = ''P9SECRET'', SecretCommand = []\<rparr>"

theorem loaded_config_usable_witness:
  "let decode = (\<lambda>path. Inr \<lparr>cfg_Path = [], Profiles = [(''home'', example_profile)]\<rparr>);
       cfg = \<lparr>cfg_Path = ''c.toml'', Profiles = [(''home'', example_profile
          \<lparr>RemoteBase := ''/usr/glenda/agentic9/workspaces''\<rparr>)]\<rparr>
   in config_Load decode (Inr ''/home/u/.config'') ''c.toml'' = Inr cfg \<and>
      LoadSecret (\<lambda>v. ''s3cret'') (\<lambda>c. Inl IoEOF) cfg ''home'' =
        Inr \<lparr>secret_Value = ''s3cret'', secret_Source = ''env:P9SECRET''\<rparr>"
proof -
  let ?decode = "\<lambda>path. Inr \<lparr>cfg_Path = [], Profiles = [(''home'', example_profile)]\<rparr>"
  let ?p = "example_profile\<lparr>RemoteBase := ''/usr/glenda/agentic9/workspaces''\<rparr>"
  let ?cfg = "\<lparr>cfg_Path = ''c.toml'', Profiles = [(''home'', ?p)]\<rparr>"
  have l: "config_Load ?decode (Inr ''/home/u/.config'') ''c.toml'' = Inr ?cfg"
    by (simp add: config_Load_def config_Validate_def profile_Validate_def default_base_def
        example_profile_def Let_def)
  have "config_Profile ?cfg ''home'' = Inr ?p" by (simp add: config_Profile_def)
  from loaded_config_usable [OF l this, of "[]" "\<lambda>v. ''s3cret''" "\<lambda>c. Inl IoEOF"] l
  show ?thesis
    by (auto simp: Let_def LoadSecret_def config_Profile_def example_profile_def)
qed

end
