(* ===== verification/Workspace.thy ===== *)
theory Workspace
  imports Json_Store Config
begin

text \<open>
  Workspaces, \<open>internal/workspace/state.go\<close>: the rules for agent ids, the paths derived
  from them, and the metadata kept in one JSON file per profile and agent under the state
  directory.
\<close>

record metadata =
  m_Profile :: string
  m_AgentID :: string
  m_RemoteRoot :: string
  m_Mountpoint :: string
  m_Mounted :: bool
  m_MountPID :: int
  m_CreatedAt :: int

definition zero_metadata :: metadata where
  "zero_metadata = \<lparr>m_Profile = [], m_AgentID = [], m_RemoteRoot = [], m_Mountpoint = [],
     m_Mounted = False, m_MountPID = 0, m_CreatedAt = 0\<rparr>"

definition metadata_MarshalJSON :: "metadata \<Rightarrow> content result" where
  "metadata_MarshalJSON m =
     (if \<not> json_time_ok (m_CreatedAt m) then Inl json_time_error
      else Inr (Json ([(''profile'', JString (m_Profile m)), (''agent_id'', JString (m_AgentID m)),
        (''remote_root'', JString (m_RemoteRoot m)), (''mountpoint'', JString (m_Mountpoint m)),
        (''mounted'', JBool (m_Mounted m))] @
        (if m_MountPID m = 0 then [] else [(''mount_pid'', JInt (m_MountPID m))]) @
        [(''created_at'', JTime (m_CreatedAt m))])))"

definition metadata_UnmarshalJSON :: "content \<Rightarrow> metadata result" where
  "metadata_UnmarshalJSON c =
     bind_result (json_doc c) (\<lambda>d.
     bind_result (field_string d ''profile'') (\<lambda>p.
     bind_result (field_string d ''agent_id'') (\<lambda>a.
     bind_result (field_string d ''remote_root'') (\<lambda>r.
     bind_result (field_string d ''mountpoint'') (\<lambda>mp.
     bind_result (field_bool d ''mounted'') (\<lambda>b.
     bind_result (field_int d ''mount_pid'') (\<lambda>i.
     bind_result (field_time d ''created_at'') (\<lambda>t.
       Inr \<lparr>m_Profile = p, m_AgentID = a, m_RemoteRoot = r, m_Mountpoint = mp, m_Mounted = b,
         m_MountPID = i, m_CreatedAt = t\<rparr>))))))))"

text \<open>A \<open>Manager\<close> is its root directory.\<close>

type_synonym manager = string

definition NewManager :: "string \<Rightarrow> content local_fs \<Rightarrow> manager result \<times> content local_fs" where
  "NewManager root s =
     (case os_MkdirAll root 0x1ED s of (Inl e, s) \<Rightarrow> (Inl e, s) | (Inr _, s) \<Rightarrow> (Inr root, s))"

definition manager_path :: "manager \<Rightarrow> string \<Rightarrow> string \<Rightarrow> string" where
  "manager_path m profile agentID = path_Join [m, profile, agentID @ ''.json'']"

definition manager_Save :: "manager \<Rightarrow> metadata \<Rightarrow> content local_fs \<Rightarrow> unit result \<times> content local_fs" where
  "manager_Save m meta s =
     (let path = manager_path m (m_Profile meta) (m_AgentID meta) in
      case os_MkdirAll (path_Dir path) 0x1ED s of
        (Inl e, s) \<Rightarrow> (Inl e, s)
      | (Inr _, s) \<Rightarrow>
          (case metadata_MarshalJSON meta of
             Inl e \<Rightarrow> (Inl e, s)
           | Inr data \<Rightarrow> os_WriteFile path data 0x1A4 s))"

definition manager_Load :: "manager \<Rightarrow> string \<Rightarrow> string \<Rightarrow> content local_fs \<Rightarrow> metadata result" where
  "manager_Load m profile agentID s =
     bind_result (os_ReadFile (manager_path m profile agentID) s) metadata_UnmarshalJSON"

definition manager_Delete ::
  "manager \<Rightarrow> string \<Rightarrow> string \<Rightarrow> content local_fs \<Rightarrow> unit result \<times> content local_fs" where
  "manager_Delete m profile agentID s = os_Remove (manager_path m profile agentID) s"

definition manager_Path :: "manager \<Rightarrow> string \<Rightarrow> string \<Rightarrow> string" where
  "manager_Path m profile agentID = manager_path m profile agentID"

definition RemoteRoot :: "profile \<Rightarrow> string \<Rightarrow> string" where
  "RemoteRoot p agentID = path_Join [RemoteBase p, agentID, ''root'']"

definition DefaultMountpoint ::
  "(string \<Rightarrow> string) \<Rightarrow> string \<Rightarrow> string \<Rightarrow> string \<Rightarrow> 'c local_fs \<Rightarrow> string result \<times> 'c local_fs" where
  "DefaultMountpoint getenv tempDir profile agentID s =
     (let base = DefaultRuntimeRoot getenv tempDir in
      case os_MkdirAll base 0x1ED s of
        (Inl e, s) \<Rightarrow> (Inl e, s)
      | (Inr _, s) \<Rightarrow> (Inr (path_Join [base, profile, agentID]), s))"

subsection \<open>Agent ids\<close>

definition isAgentIDAlphaNum :: "byte \<Rightarrow> bool" where
  "isAgentIDAlphaNum ch \<longleftrightarrow>
     (CHR ''a'' \<le> ch \<and> ch \<le> CHR ''z'') \<or> (CHR ''A'' \<le> ch \<and> ch \<le> CHR ''Z'') \<or>
     (CHR ''0'' \<le> ch \<and> ch \<le> CHR ''9'')"

fun check_chars :: "string \<Rightarrow> unit result" where
  "check_chars [] = Inr ()"
| "check_chars (ch # cs) =
     (if isAgentIDAlphaNum ch then check_chars cs
      else if ch = CHR ''-'' \<or> ch = CHR ''_'' \<or> ch = CHR ''.'' then check_chars cs
      else Inl (ErrorString (''agent id may only contain ASCII letters, digits, '.', '_' or '-'' @ [CHR 0x27])))"

definition ValidateAgentID :: "string \<Rightarrow> unit result" where
  "ValidateAgentID agentID =
     (if agentID = [] then Inl (ErrorString ''agent id must not be empty'')
      else if length agentID > 64 then Inl (ErrorString ''agent id must be at most 64 characters'')
      else if agentID = ''.'' \<or> agentID = ''..''
      then Inl (ErrorString (''agent id '' @ Quote agentID @ '' is not allowed''))
      else if \<not> isAgentIDAlphaNum (hd agentID)
      then Inl (ErrorString ''agent id must start with an ASCII letter or digit'')
      else check_chars agentID)"

lemma check_chars_iff:
  "check_chars s = Inr () \<longleftrightarrow>
     list_all (\<lambda>c. isAgentIDAlphaNum c \<or> c \<in> {CHR ''-'', CHR ''_'', CHR ''.''}) s"
  by (induction s) auto

lemma slash_not_agent_char: "\<not> isAgentIDAlphaNum slash" "slash \<notin> {CHR ''-'', CHR ''_'', CHR ''.''}"
  by (simp_all add: isAgentIDAlphaNum_def slash_def less_eq_char_def)

lemma valid_agent_name:
  assumes "ValidateAgentID a = Inr ()"
  shows "path_name a" and "path_name (a @ ''.json'')" and "length a \<le> 64"
proof -
  from assms have a: "a \<noteq> []" "length a \<le> 64" "a \<noteq> ''.''" "a \<noteq> ''..''" "check_chars a = Inr ()"
    by (auto simp: ValidateAgentID_def split: if_splits)
  then have "slash \<notin> set a"
    using slash_not_agent_char by (auto simp: check_chars_iff list_all_iff)
  with a show "path_name a" "length a \<le> 64" by (auto simp: path_name_def)
  show "path_name (a @ ''.json'')"
    using \<open>slash \<notin> set a\<close> by (auto simp: path_name_def slash_def append_eq_Cons_conv)
qed

subsection \<open>The metadata store\<close>

lemma metadata_roundtrip:
  "metadata_MarshalJSON m = Inr c \<Longrightarrow> metadata_UnmarshalJSON c = Inr m"
  by (auto simp: metadata_MarshalJSON_def metadata_UnmarshalJSON_def json_doc_def field_defs
      split: if_splits)

type_synonym agent_key = "string \<times> string"

definition agent_key_ok :: "agent_key \<Rightarrow> bool" where
  "agent_key_ok k \<longleftrightarrow> path_name (fst k) \<and> ValidateAgentID (snd k) = Inr ()"

definition keyed :: "agent_key \<Rightarrow> metadata \<Rightarrow> metadata" where
  "keyed k m = m\<lparr>m_Profile := fst k, m_AgentID := snd k\<rparr>"

text \<open>A manager has a root; \<open>NewManager\<close> made it.\<close>

definition manager_root :: "manager \<Rightarrow> manager" where
  "manager_root m = (if m = [] then [slash] else m)"

lemma manager_root_nonempty [simp]: "manager_root m \<noteq> []" "m \<noteq> [] \<Longrightarrow> manager_root m = m"
  by (simp_all add: manager_root_def)

lemma lp_manager_path:
  assumes "agent_key_ok k"
  shows "lp (manager_path (manager_root m) (fst k) (snd k)) =
    (fst (lp (manager_root m)), snd (lp (manager_root m)) @ [fst k, snd k @ ''.json''])"
  using assms valid_agent_name(2) [of "snd k"]
  by (simp add: manager_path_def lp_path_Join agent_key_ok_def)

lemma lp_manager_dir:
  assumes "agent_key_ok k"
  shows "lp (path_Dir (manager_path (manager_root m) (fst k) (snd k))) =
    (fst (lp (manager_root m)), snd (lp (manager_root m)) @ [fst k])"
  using assms valid_agent_name(2) [of "snd k"] lp_path_Dir_Join [of "manager_root m" "[fst k]"]
  by (simp add: manager_path_def agent_key_ok_def)

lemma keyed_simps [simp]: "m_Profile (keyed k v) = fst k" "m_AgentID (keyed k v) = snd k"
  by (simp_all add: keyed_def)

interpretation agents: keyed_store
  agent_key_ok
  "\<lambda>k. lp (manager_path (manager_root m) (fst k) (snd k))"
  "\<lambda>k v. manager_Save (manager_root m) (keyed k v)"
  "\<lambda>k. manager_Load (manager_root m) (fst k) (snd k)"
  "\<lambda>k. manager_Delete (manager_root m) (fst k) (snd k)"
  keyed
  fs_ok
proof (unfold_locales, goal_cases)
  case (1 k v s s')
  then show ?case
    by (auto simp: manager_Save_def manager_Load_def Let_def WriteFile_read metadata_roundtrip
        split: prod.splits sum.splits)
next
  case (2 k j v s)
  let ?pk = "manager_path (manager_root m) (fst k) (snd k)"
    and ?pj = "manager_path (manager_root m) (fst j) (snd j)"
  have d: "length (snd (lp (path_Dir ?pk))) < length (snd (lp ?pj))"
    and e: "length (snd (lp ?pj)) = length (snd (lp ?pk))"
    using 2 by (simp_all add: lp_manager_dir lp_manager_path)
  have "os_ReadFile ?pj (snd (os_WriteFile ?pk c perm t)) = os_ReadFile ?pj t"
    for c perm and t :: "content local_fs"
    using 2(3) e by (intro ReadFile_beside [where q = "lp ?pk"]) (simp_all add: WriteFile_node WriteFile_fault)
  then show ?case
    using ReadFile_MkdirAll [OF d, of "0x1ED" s]
    by (auto simp: manager_Save_def manager_Load_def Let_def split: prod.splits sum.splits)
next
  case (3 k s s')
  then show ?case
    using Remove_read [of s] by (fastforce simp: manager_Delete_def manager_Load_def)
next
  case (4 k j s)
  then have "os_ReadFile (manager_path (manager_root m) (fst j) (snd j))
      (snd (os_Remove (manager_path (manager_root m) (fst k) (snd k)) s)) =
      os_ReadFile (manager_path (manager_root m) (fst j) (snd j)) s"
    by (intro ReadFile_beside [where q = "lp (manager_path (manager_root m) (fst k) (snd k))"])
      (simp_all add: lp_manager_path Remove_node Remove_fault)
  then show ?case by (simp add: manager_Delete_def manager_Load_def)
next
  case (5 s k v)
  then show ?case
    using fs_ok_WriteFile [OF fs_ok_MkdirAll [OF 5]]
    by (auto simp: manager_Save_def Let_def split: prod.splits sum.splits)
      (metis fs_ok_MkdirAll fs_ok_WriteFile snd_conv)+
next
  case (6 s k)
  then show ?case by (simp add: manager_Delete_def fs_ok_Remove)
qed

lemma agent_files_differ:
  "agent_key_ok k \<Longrightarrow> agent_key_ok j \<Longrightarrow> j \<noteq> k \<Longrightarrow>
   lp (manager_path (manager_root m) (fst j) (snd j)) \<noteq> lp (manager_path (manager_root m) (fst k) (snd k))"
  by (auto simp: lp_manager_path prod_eq_iff)

definition meta_key :: "metadata \<Rightarrow> agent_key" where
  "meta_key meta = (m_Profile meta, m_AgentID meta)"

lemma keyed_meta_key [simp]: "keyed (meta_key meta) meta = meta"
  by (simp add: keyed_def meta_key_def)

lemma foldl_saves:
  "foldl (\<lambda>s meta. snd (manager_Save (manager_root m) meta s)) s ms =
   foldl (agents.step m) s (map (\<lambda>meta. Inl (meta_key meta, meta)) ms)"
  by (induction ms arbitrary: s) (simp_all add: agents.step_def)

subsection \<open>Properties\<close>

text \<open>
  Property C31: agent ids are safe to use in paths. For an id that validates, the remote
  root is exactly two elements below the profile's base directory and the metadata file
  exactly two below the state directory (for a profile name without slashes), so no id
  leads outside; and the remote roots of two different agents are disjoint, neither being
  inside the other.
\<close>

theorem agent_paths_confined:
  assumes "ValidateAgentID a = Inr ()" and "ValidateAgentID b = Inr ()"
    and "RemoteBase p \<noteq> []" and "m \<noteq> []" and "path_name profile"
  shows "lp (RemoteRoot p a) = (fst (lp (RemoteBase p)), snd (lp (RemoteBase p)) @ [a, ''root'']) \<and>
    lp (manager_Path m profile a) = (fst (lp m), snd (lp m) @ [profile, a @ ''.json'']) \<and>
    (a \<noteq> b \<longrightarrow> (\<forall>n. take n (snd (lp (RemoteRoot p b))) \<noteq> snd (lp (RemoteRoot p a))))"
proof -
  have r: "lp (RemoteRoot p c) = (fst (lp (RemoteBase p)), snd (lp (RemoteBase p)) @ [c, ''root''])"
    if "ValidateAgentID c = Inr ()" for c
    using lp_path_Join [OF assms(3), of "[c, ''root'']"] valid_agent_name(1) [OF that]
    by (simp add: RemoteRoot_def path_name_def slash_def)
  have "take n (xs @ [b, ''root'']) \<noteq> xs @ [a, ''root'']" if "a \<noteq> b" for n and xs :: "string list"
  proof
    assume e: "take n (xs @ [b, ''root'']) = xs @ [a, ''root'']"
    then have "length (take n (xs @ [b, ''root''])) = length xs + 2" by simp
    then have "take n (xs @ [b, ''root'']) = xs @ [b, ''root'']" by simp
    with e that show False by simp
  qed
  then show ?thesis
    using r assms lp_manager_path [of "(profile, a)" m] by (simp add: manager_Path_def agent_key_ok_def)
qed

theorem agent_paths_confined_witness:
  "let p = example_profile\<lparr>RemoteBase := ''/usr/glenda/ws''\<rparr> in
   lp (RemoteRoot p ''agent-1'') = (True, [''usr'', ''glenda'', ''ws'', ''agent-1'', ''root'']) \<and>
   (\<forall>n. take n (snd (lp (RemoteRoot p ''agent-10''))) \<noteq> snd (lp (RemoteRoot p ''agent-1'')))"
proof -
  let ?p = "example_profile\<lparr>RemoteBase := ''/usr/glenda/ws''\<rparr>"
  have v: "ValidateAgentID ''agent-1'' = Inr ()" "ValidateAgentID ''agent-10'' = Inr ()"
    by code_simp+
  have "lp ''/usr/glenda/ws'' = (True, [''usr'', ''glenda'', ''ws''])"
    by (simp add: lp_def slash_def clean_elems_def clean_step_def)
  then show ?thesis
    using agent_paths_confined [OF v, of ?p "''/s''" "''home''"]
    by (auto simp: Let_def path_name_def slash_def)
qed

text \<open>
  Property C32: the metadata of an agent is what was saved last. After a successful save,
  and any number of saves for other agents, whether they succeed or not, loading the agent
  returns exactly the saved record; a successful delete makes the next load report that it
  does not exist, and no delete affects another agent.
\<close>

theorem metadata_store_correct:
  assumes "m \<noteq> []" and "agent_key_ok (meta_key meta)" and "agent_key_ok k" and "k \<noteq> meta_key meta"
    and "\<forall>meta' \<in> set others. agent_key_ok (meta_key meta') \<and> meta_key meta' \<noteq> meta_key meta"
    and "fs_ok s" and "manager_Save m meta s = (Inr (), s')"
  shows "manager_Load m (m_Profile meta) (m_AgentID meta)
      (foldl (\<lambda>s meta'. snd (manager_Save m meta' s)) s' others) = Inr meta \<and>
    manager_Load m (fst k) (snd k) s' = manager_Load m (fst k) (snd k) s \<and>
    (manager_Delete m (m_Profile meta) (m_AgentID meta) s' = (Inr (), s'') \<longrightarrow>
      (\<exists>e. manager_Load m (m_Profile meta) (m_AgentID meta) s'' = Inl e \<and> errors_Is e OsErrNotExist) \<and>
      manager_Load m (fst k) (snd k) s'' = manager_Load m (fst k) (snd k) s)"
proof -
  let ?k = "meta_key meta"
  have root: "manager_root m = m" using assms(1) by simp
  note differ = agent_files_differ [where m = m, unfolded root]
  have "manager_Load m (fst ?k) (snd ?k)
      (foldl (\<lambda>s meta'. snd (manager_Save m meta' s)) s' others) = Inr meta"
    using agents.last_write_wins [where m = m and j = ?k and v = meta and s = s and s' = s'
        and ops = "map (\<lambda>meta. Inl (meta_key meta, meta)) others", unfolded root]
      foldl_saves [where m = m, unfolded root] assms(2,5,7) differ
    by (simp add: agents.op_key_def) metis
  moreover have o: "manager_Load m (fst k) (snd k) s' = manager_Load m (fst k) (snd k) s"
    using agents.load_save_other [where m = m and k = ?k and j = k and v = meta and s = s, unfolded root]
      differ [OF assms(2,3,4)] assms(2,3,7) by simp
  moreover have "fs_ok s'"
    using agents.good_save [where m = m and k = ?k and v = meta, OF assms(6), unfolded root] assms(7) by simp
  ultimately show ?thesis
    using agents.load_delete [where m = m and k = ?k and s = s' and s' = s'', unfolded root]
      agents.load_delete_other [where m = m and k = ?k and j = k and s = s', unfolded root]
      differ [OF assms(2,3,4)] assms(2,3)
    by (auto simp: meta_key_def)
qed

definition example_meta :: "string \<Rightarrow> metadata" where
  "example_meta a = zero_metadata\<lparr>m_Profile := ''home'', m_AgentID := a, m_Mounted := True, m_MountPID := 7\<rparr>"

lemma example_meta_simps: "m_Profile (example_meta a) = ''home''" "m_AgentID (example_meta a) = a"
  by (simp_all add: example_meta_def)

theorem metadata_store_correct_witness:
  "let s' = snd (manager_Save ''/s'' (example_meta ''a'') empty_fs) in
   manager_Load ''/s'' ''home'' ''a'' (snd (manager_Save ''/s'' (example_meta ''b'') s')) =
     Inr (example_meta ''a'')"
proof -
  let ?s' = "snd (manager_Save ''/s'' (example_meta ''a'') empty_fs)"
  have v: "ValidateAgentID ''a'' = Inr ()" "ValidateAgentID ''b'' = Inr ()" by code_simp+
  then have k: "agent_key_ok (meta_key (example_meta ''a''))" "agent_key_ok (meta_key (example_meta ''b''))"
    by (simp_all add: agent_key_ok_def meta_key_def example_meta_def path_name_def slash_def)
  have d: "meta_key (example_meta ''b'') \<noteq> meta_key (example_meta ''a'')"
    by (simp add: meta_key_def example_meta_def)
  have "fst (manager_Save ''/s'' (example_meta ''a'') (empty_fs :: content local_fs)) = Inr ()"
    by code_simp
  then have "manager_Save ''/s'' (example_meta ''a'') empty_fs = (Inr (), ?s')" by (simp add: prod_eq_iff)
  then show ?thesis
    using metadata_store_correct [of "''/s''" "example_meta ''a''" "meta_key (example_meta ''b'')"
        "[example_meta ''b'']" empty_fs ?s' ?s'] k d
    by (simp add: Let_def example_meta_simps fs_ok_empty)
qed

end
