(* ===== verification/Fuse_Runtime.thy ===== *)
theory Fuse_Runtime
  imports Json_Store
begin

text \<open>
  The runtime directory of mounts, \<open>internal/fusefs/runtime.go\<close>: one JSON file per
  mountpoint, named by the SHA-256 of the mountpoint, through which the detached mount
  helper tells the command that started it how the mount is going. The hash function, the
  clock and the signal call behind \<open>ProcessExists\<close> are parameters.
\<close>

definition MountStatusStarting :: string where "MountStatusStarting = ''starting''"
definition MountStatusMounted :: string where "MountStatusMounted = ''mounted''"
definition MountStatusFailed :: string where "MountStatusFailed = ''failed''"

lemmas mount_statuses = MountStatusStarting_def MountStatusMounted_def MountStatusFailed_def

record mount_state =
  ms_Profile :: string
  ms_AgentID :: string
  ms_Mountpoint :: string
  ms_PID :: int
  ms_Status :: string
  ms_Error :: string
  ms_UpdatedAt :: int

definition zero_mount_state :: mount_state where
  "zero_mount_state = \<lparr>ms_Profile = [], ms_AgentID = [], ms_Mountpoint = [], ms_PID = 0,
     ms_Status = [], ms_Error = [], ms_UpdatedAt = 0\<rparr>"

definition state_MarshalJSON :: "mount_state \<Rightarrow> content result" where
  "state_MarshalJSON m =
     (if \<not> json_time_ok (ms_UpdatedAt m) then Inl json_time_error
      else Inr (Json ([(''profile'', JString (ms_Profile m)), (''agent_id'', JString (ms_AgentID m)),
        (''mountpoint'', JString (ms_Mountpoint m)), (''pid'', JInt (ms_PID m)),
        (''status'', JString (ms_Status m))] @
        (if ms_Error m = [] then [] else [(''error'', JString (ms_Error m))]) @
        [(''updated_at'', JTime (ms_UpdatedAt m))])))"

definition state_UnmarshalJSON :: "content \<Rightarrow> mount_state result" where
  "state_UnmarshalJSON c =
     bind_result (json_doc c) (\<lambda>d.
     bind_result (field_string d ''profile'') (\<lambda>p.
     bind_result (field_string d ''agent_id'') (\<lambda>a.
     bind_result (field_string d ''mountpoint'') (\<lambda>mp.
     bind_result (field_int d ''pid'') (\<lambda>i.
     bind_result (field_string d ''status'') (\<lambda>st.
     bind_result (field_string d ''error'') (\<lambda>er.
     bind_result (field_time d ''updated_at'') (\<lambda>t.
       Inr \<lparr>ms_Profile = p, ms_AgentID = a, ms_Mountpoint = mp, ms_PID = i, ms_Status = st,
         ms_Error = er, ms_UpdatedAt = t\<rparr>))))))))"

type_synonym runtime = string

definition NewRuntime :: "string \<Rightarrow> runtime" where
  "NewRuntime root = path_Join [root, ''mounts'']"

text \<open>\<open>hex.EncodeToString\<close>.\<close>

definition hex_char :: "nat \<Rightarrow> byte" where
  "hex_char d = ''0123456789abcdef'' ! d"

definition EncodeToString :: "bytes \<Rightarrow> string" where
  "EncodeToString bs = concat (map (\<lambda>b. [hex_char (byte_val b div 16), hex_char (byte_val b mod 16)]) bs)"

definition stateKey :: "(bytes \<Rightarrow> bytes) \<Rightarrow> string \<Rightarrow> string" where
  "stateKey sha256 mountpoint = EncodeToString (sha256 mountpoint)"

definition statePath :: "(bytes \<Rightarrow> bytes) \<Rightarrow> runtime \<Rightarrow> string \<Rightarrow> string" where
  "statePath sha256 r mountpoint = path_Join [r, stateKey sha256 mountpoint @ ''.json'']"

definition runtime_StatePath :: "(bytes \<Rightarrow> bytes) \<Rightarrow> runtime \<Rightarrow> string \<Rightarrow> string" where
  "runtime_StatePath sha256 r mountpoint = statePath sha256 r mountpoint"

definition LogPath :: "(bytes \<Rightarrow> bytes) \<Rightarrow> runtime \<Rightarrow> string \<Rightarrow> string" where
  "LogPath sha256 r mountpoint = path_Join [r, stateKey sha256 mountpoint @ ''.log'']"

definition runtime_Save ::
  "(bytes \<Rightarrow> bytes) \<Rightarrow> int \<Rightarrow> runtime \<Rightarrow> mount_state \<Rightarrow> content local_fs \<Rightarrow> unit result \<times> content local_fs" where
  "runtime_Save sha256 now r state s =
     (case os_MkdirAll r 0x1ED s of
        (Inl e, s) \<Rightarrow> (Inl e, s)
      | (Inr _, s) \<Rightarrow>
          (let state = state\<lparr>ms_UpdatedAt := now\<rparr> in
           case state_MarshalJSON state of
             Inl e \<Rightarrow> (Inl e, s)
           | Inr data \<Rightarrow> os_WriteFile (statePath sha256 r (ms_Mountpoint state)) data 0x1A4 s))"

definition runtime_Load ::
  "(bytes \<Rightarrow> bytes) \<Rightarrow> runtime \<Rightarrow> string \<Rightarrow> content local_fs \<Rightarrow> mount_state result" where
  "runtime_Load sha256 r mountpoint s =
     bind_result (os_ReadFile (statePath sha256 r mountpoint) s) state_UnmarshalJSON"

text \<open>\<open>filepath.Ext\<close>: from the last dot of the last element on.\<close>

definition path_Ext :: "string \<Rightarrow> string" where
  "path_Ext p =
     (let t = takeWhile (\<lambda>c. c \<noteq> CHR ''.'' \<and> c \<noteq> slash) (rev p) in
      case drop (length t) (rev p) of
        [] \<Rightarrow> []
      | c # _ \<Rightarrow> (if c = CHR ''.'' then c # rev t else []))"

definition is_state_file :: "string \<times> content fnode \<Rightarrow> bool" where
  "is_state_file e \<longleftrightarrow> \<not> (is_dir_node (Some (snd e)) \<or> path_Ext (fst e) \<noteq> ''.json'')"

fun list_states ::
  "runtime \<Rightarrow> content local_fs \<Rightarrow> (string \<times> content fnode) list \<Rightarrow> mount_state list result" where
  "list_states r s [] = Inr []"
| "list_states r s (e # es) =
     (if \<not> is_state_file e then list_states r s es
      else bind_result (os_ReadFile (path_Join [r, fst e]) s) (\<lambda>data.
        bind_result (state_UnmarshalJSON data) (\<lambda>state.
          bind_result (list_states r s es) (\<lambda>states. Inr (state # states)))))"

definition runtime_List :: "runtime \<Rightarrow> content local_fs \<Rightarrow> mount_state list result" where
  "runtime_List r s =
     (case os_ReadDir r s of
        Inl e \<Rightarrow> (if errors_Is e OsErrNotExist then Inr [] else Inl e)
      | Inr entries \<Rightarrow>
          bind_result (list_states r s entries) (\<lambda>states. Inr (sort_key ms_Mountpoint states)))"

definition runtime_Delete ::
  "(bytes \<Rightarrow> bytes) \<Rightarrow> runtime \<Rightarrow> string \<Rightarrow> content local_fs \<Rightarrow> unit result \<times> content local_fs" where
  "runtime_Delete sha256 r mountpoint s =
     (case os_Remove (statePath sha256 r mountpoint) s of
        (Inl e, s) \<Rightarrow> (if errors_Is e OsErrNotExist then (Inr (), s) else (Inl e, s))
      | (Inr _, s) \<Rightarrow> (Inr (), s))"

text \<open>\<open>kill\<close> gives the error of sending signal 0, if any.\<close>

definition ProcessExists :: "(int \<Rightarrow> errno_code option) \<Rightarrow> int \<Rightarrow> bool" where
  "ProcessExists kill pid \<longleftrightarrow> pid > 0 \<and> (kill pid = None \<or> kill pid = Some EPERM)"

definition ClearStale ::
  "(bytes \<Rightarrow> bytes) \<Rightarrow> (int \<Rightarrow> errno_code option) \<Rightarrow> runtime \<Rightarrow> string \<Rightarrow> content local_fs \<Rightarrow>
   unit result \<times> content local_fs" where
  "ClearStale sha256 kill r mountpoint s =
     (case runtime_Load sha256 r mountpoint s of
        Inl e \<Rightarrow> (if errors_Is e OsErrNotExist then (Inr (), s) else (Inl e, s))
      | Inr state \<Rightarrow>
          (if ProcessExists kill (ms_PID state) then (Inr (), s)
           else (let (_, s) = os_Remove (LogPath sha256 r mountpoint) s
                 in runtime_Delete sha256 r mountpoint s)))"

subsection \<open>Waiting for the helper\<close>

text \<open>
  Decimal text of a process id, and one look of \<open>WaitForMount\<close> at the state: \<open>Some\<close> what
  it returns, or \<open>None\<close> to look again after the next tick.
\<close>

definition string_of_int :: "int \<Rightarrow> string" where
  "string_of_int i = (if i < 0 then ''-'' @ string_of_nat (nat (- i)) else string_of_nat (nat i))"

definition wait_poll ::
  "(bytes \<Rightarrow> bytes) \<Rightarrow> (int \<Rightarrow> errno_code option) \<Rightarrow> runtime \<Rightarrow> string \<Rightarrow> int \<Rightarrow> content local_fs \<Rightarrow>
   mount_state result option" where
  "wait_poll sha256 kill r mountpoint pid s =
     (case runtime_Load sha256 r mountpoint s of
        Inr state \<Rightarrow>
          (if ms_Status state = MountStatusMounted then Some (Inr state)
           else if ms_Status state = MountStatusFailed then
             (if ms_Error state = []
              then Some (Inl (ErrorString (''mount helper '' @ string_of_int (ms_PID state) @
                '' failed for '' @ mountpoint)))
              else Some (Inl (ErrorString (ms_Error state))))
           else if ms_Status state = MountStatusStarting then
             (if ms_PID state > 0 \<and> \<not> ProcessExists kill (ms_PID state)
              then Some (Inl (ErrorString (''mount helper '' @ string_of_int (ms_PID state) @
                '' exited before mount became ready'')))
              else None)
           else None)
      | Inl e \<Rightarrow>
          (if errors_Is e OsErrNotExist then
             (if pid > 0 \<and> \<not> ProcessExists kill pid
              then Some (Inl (ErrorString (''mount helper '' @ string_of_int pid @
                '' exited before writing runtime state'')))
              else None)
           else Some (Inl e)))"

text \<open>
  The loop, over the file system, the processes and the context as they are at each look.
  \<open>None\<close> is a wait that never ends.
\<close>

record env =
  env_fs :: "content local_fs"
  env_kill :: "int \<Rightarrow> errno_code option"
  env_ctx :: "go_error option"

partial_function (option) wait_from ::
  "(env \<Rightarrow> mount_state result option) \<Rightarrow> (nat \<Rightarrow> env) \<Rightarrow> nat \<Rightarrow> mount_state result option" where
  "wait_from poll world i =
     (case poll (world i) of
        Some res \<Rightarrow> Some res
      | None \<Rightarrow>
          (case env_ctx (world i) of
             Some e \<Rightarrow> Some (Inl e)
           | None \<Rightarrow> wait_from poll world (Suc i)))"

definition WaitForMount ::
  "(bytes \<Rightarrow> bytes) \<Rightarrow> (nat \<Rightarrow> env) \<Rightarrow> runtime \<Rightarrow> string \<Rightarrow> int \<Rightarrow> mount_state result option" where
  "WaitForMount sha256 world r mountpoint pid =
     wait_from (\<lambda>w. wait_poll sha256 (env_kill w) r mountpoint pid (env_fs w)) world 0"

subsection \<open>The store of mount states\<close>

lemma state_roundtrip: "state_MarshalJSON m = Inr c \<Longrightarrow> state_UnmarshalJSON c = Inr m"
  by (auto simp: state_MarshalJSON_def state_UnmarshalJSON_def json_doc_def field_defs split: if_splits)

lemma hex_char_not_slash: "d < 16 \<Longrightarrow> hex_char d \<noteq> slash"
proof -
  assume "d < 16"
  then have "hex_char d \<in> set ''0123456789abcdef''" unfolding hex_char_def by (intro nth_mem) simp
  then show ?thesis by (auto simp: slash_def)
qed

lemma EncodeToString_no_slash: "slash \<notin> set (EncodeToString bs)"
proof -
  have "byte_val b div 16 < 16" for b using byte_val_less [of b] by (simp add: less_mult_imp_div_less)
  then have "slash \<noteq> hex_char (byte_val b div 16)" "slash \<noteq> hex_char (byte_val b mod 16)" for b
    using hex_char_not_slash by (metis, metis mod_less_divisor zero_less_numeral)
  then show ?thesis by (auto simp: EncodeToString_def)
qed

lemma state_file_name:
  "path_name (stateKey sha256 mp @ ''.json'')" "path_name (stateKey sha256 mp @ ''.log'')"
  using EncodeToString_no_slash [of "sha256 mp"]
  by (auto simp: path_name_def stateKey_def slash_def append_eq_Cons_conv)

lemma NewRuntime_nonempty [simp]: "NewRuntime root \<noteq> []"
  by (simp add: NewRuntime_def path_Join_def Clean_def Let_def)

lemma lp_statePath:
  "lp (statePath sha256 (NewRuntime root) mp) =
     (fst (lp (NewRuntime root)), snd (lp (NewRuntime root)) @ [stateKey sha256 mp @ ''.json''])"
  using lp_path_Join [OF NewRuntime_nonempty, of "[stateKey sha256 mp @ ''.json'']"] state_file_name(1)
  by (simp add: statePath_def)

definition at_mountpoint :: "int \<Rightarrow> string \<Rightarrow> mount_state \<Rightarrow> mount_state" where
  "at_mountpoint now mp v = v\<lparr>ms_Mountpoint := mp, ms_UpdatedAt := now\<rparr>"

interpretation mounts: keyed_store
  "\<lambda>_. True"
  "\<lambda>mp. lp (statePath sha256 (NewRuntime root) mp)"
  "\<lambda>mp v. runtime_Save sha256 now (NewRuntime root) (v\<lparr>ms_Mountpoint := mp\<rparr>)"
  "runtime_Load sha256 (NewRuntime root)"
  "runtime_Delete sha256 (NewRuntime root)"
  "at_mountpoint now"
  fs_ok
proof (unfold_locales, goal_cases)
  case (1 k v s s')
  then show ?case
    by (auto simp: runtime_Save_def runtime_Load_def Let_def WriteFile_read state_roundtrip at_mountpoint_def
        split: prod.splits sum.splits)
next
  case (2 k j v s)
  let ?pk = "statePath sha256 (NewRuntime root) k" and ?pj = "statePath sha256 (NewRuntime root) j"
  have "os_ReadFile ?pj (snd (os_WriteFile ?pk c perm t)) = os_ReadFile ?pj t"
    for c perm and t :: "content local_fs"
    using 2(3) by (intro ReadFile_beside [where q = "lp ?pk"]) (simp_all add: WriteFile_node lp_statePath)
  then show ?case
    using ReadFile_MkdirAll [of "NewRuntime root" ?pj "0x1ED" s]
    by (auto simp: runtime_Save_def runtime_Load_def Let_def lp_statePath split: prod.splits sum.splits)
next
  case (3 k s s')
  have "\<exists>e. os_ReadFile (statePath sha256 (NewRuntime root) k) s' = Inl e \<and> errors_Is e OsErrNotExist"
  proof (cases "os_Remove (statePath sha256 (NewRuntime root) k) s")
    case (Pair r t)
    show ?thesis
    proof (cases r)
      case (Inr u)
      with 3 Pair show ?thesis using Remove_read [OF 3(2)] by (auto simp: runtime_Delete_def)
    next
      case (Inl e)
      with 3 Pair have "errors_Is e OsErrNotExist" "s' = s"
        by (auto simp: runtime_Delete_def os_Remove_def Let_def split: if_splits option.splits fnode.splits)
      with Inl Pair show ?thesis
        by (auto simp: os_Remove_def os_ReadFile_def Let_def path_error_def ENOTDIR_def
            split: if_splits option.splits fnode.splits)
    qed
  qed
  then show ?case by (auto simp: runtime_Load_def)
next
  case (4 k j s)
  then have "os_ReadFile (statePath sha256 (NewRuntime root) j)
      (snd (os_Remove (statePath sha256 (NewRuntime root) k) s)) =
      os_ReadFile (statePath sha256 (NewRuntime root) j) s"
    by (intro ReadFile_beside [where q = "lp (statePath sha256 (NewRuntime root) k)"])
      (simp_all add: lp_statePath Remove_node)
  then show ?case
    by (auto simp: runtime_Delete_def runtime_Load_def split: prod.splits sum.splits)
next
  case (5 s k v)
  then show ?case
    by (auto simp: runtime_Save_def Let_def split: prod.splits sum.splits)
      (metis fs_ok_MkdirAll fs_ok_WriteFile snd_conv)+
next
  case (6 s k)
  then show ?case
    using fs_ok_Remove [OF 6, of "statePath sha256 (NewRuntime root) k"]
    by (auto simp: runtime_Delete_def split: prod.splits sum.splits)
qed

subsection \<open>Listing\<close>

lemma list_states_set:
  assumes "list_states r s es = Inr states"
  shows "st \<in> set states \<longleftrightarrow> (\<exists>e \<in> set es. is_state_file e \<and>
    bind_result (os_ReadFile (path_Join [r, fst e]) s) state_UnmarshalJSON = Inr st)"
  using assms
proof (induction r s es arbitrary: states rule: list_states.induct)
  case (2 r s e es)
  show ?case
  proof (cases "is_state_file e")
    case True
    with "2.prems" obtain d st' rest where
      "os_ReadFile (path_Join [r, fst e]) s = Inr d" "state_UnmarshalJSON d = Inr st'"
      "list_states r s es = Inr rest" "states = st' # rest"
      by (auto simp: bind_result_eq_Inr)
    with "2.IH"(2) [of rest] True show ?thesis by auto
  next
    case False
    with 2 show ?thesis by auto
  qed
qed simp

lemma list_reads_node:
  assumes "names_ok s" "r \<noteq> []" "node s (fst (lp r), snd (lp r) @ [n]) = Some (FileNode m c)"
    and "fault s (fst (lp r), snd (lp r) @ [n]) = None"
  shows "os_ReadFile (path_Join [r, n]) s = Inr c"
proof -
  have "(fst (lp r), snd (lp r) @ [n]) \<in> set (map fst (nodes s))"
    using assms(3) by (auto simp: node_def dest: map_of_SomeD intro: rev_image_eqI)
  then have "path_name n" using assms(1) unfolding names_ok_def by fastforce
  then have "lp (path_Join [r, n]) = (fst (lp r), snd (lp r) @ [n])"
    using lp_path_Join [OF assms(2), of "[n]"] by simp
  with assms(3,4) show ?thesis by (simp add: os_ReadFile_def)
qed

subsection \<open>Waiting\<close>

lemma wait_from_decides:
  assumes "i \<le> n" "poll (world n) \<noteq> None \<or> env_ctx (world n) \<noteq> None"
  shows "\<exists>res. wait_from poll world i = Some res \<and>
    (\<forall>st. res = Inr st \<longrightarrow> (\<exists>k \<le> n. poll (world k) = Some (Inr st)))"
  using assms(1)
proof (induction "n - i" arbitrary: i)
  case 0
  then have "i = n" by simp
  with assms(2) show ?case by (subst wait_from.simps) (auto split: option.splits)
next
  case (Suc m)
  have "m = n - Suc i" "Suc i \<le> n" using Suc(2) by simp_all
  from Suc(1) [OF this] obtain res where res: "wait_from poll world (Suc i) = Some res"
    "\<forall>st. res = Inr st \<longrightarrow> (\<exists>k \<le> n. poll (world k) = Some (Inr st))" by blast
  show ?case
    using Suc(3) res by (subst wait_from.simps) (auto split: option.splits)
qed

lemma wait_poll_mounted:
  "wait_poll sha256 kill r mp pid s = Some (Inr st) \<Longrightarrow>
   runtime_Load sha256 r mp s = Inr st \<and> ms_Status st = MountStatusMounted"
  by (auto simp: wait_poll_def split: sum.splits if_splits)

subsection \<open>Properties\<close>

text \<open>
  Property C33: waiting for a mount ends and tells the truth. If at some look the context is
  done, or the helper has died without leaving a state, or it died while starting, or the
  state says mounted or failed, then the wait returns; and a mount it reports was recorded
  as mounted in the state file at one of the looks up to then.
\<close>

theorem wait_for_mount_returns:
  assumes "let w = world n; load = runtime_Load sha256 r mp (env_fs w) in
      env_ctx w \<noteq> None \<or>
      (\<exists>e. load = Inl e \<and> (errors_Is e OsErrNotExist \<longrightarrow> pid > 0 \<and> \<not> ProcessExists (env_kill w) pid)) \<or>
      (\<exists>st. load = Inr st \<and> (ms_Status st \<in> {MountStatusMounted, MountStatusFailed} \<or>
         ms_Status st = MountStatusStarting \<and> ms_PID st > 0 \<and> \<not> ProcessExists (env_kill w) (ms_PID st)))"
  shows "\<exists>res. WaitForMount sha256 world r mp pid = Some res \<and>
    (\<forall>st. res = Inr st \<longrightarrow> ms_Status st = MountStatusMounted \<and>
       (\<exists>k \<le> n. runtime_Load sha256 r mp (env_fs (world k)) = Inr st))"
proof -
  let ?poll = "\<lambda>w. wait_poll sha256 (env_kill w) r mp pid (env_fs w)"
  have "?poll (world n) \<noteq> None \<or> env_ctx (world n) \<noteq> None"
    using assms by (auto simp: wait_poll_def Let_def mount_statuses)
  then obtain res where "wait_from ?poll world 0 = Some res"
    and "\<forall>st. res = Inr st \<longrightarrow> (\<exists>k \<le> n. ?poll (world k) = Some (Inr st))"
    using wait_from_decides [of 0 n ?poll world] by blast
  then show ?thesis
    unfolding WaitForMount_def using wait_poll_mounted by blast
qed

text \<open>
  Listing the mounts. A successful listing returns, sorted by mountpoint,
  exactly the states stored in the \<open>.json\<close> files of the runtime directory.
\<close>

lemma list_is_complete:
  assumes "runtime_List (NewRuntime root) s = Inr states" and "names_ok s"
    and "\<forall>q. fault s q = None"
    and "\<forall>n. (case node s (fst (lp (NewRuntime root)), snd (lp (NewRuntime root)) @ [n]) of
        Some (LinkNode _) \<Rightarrow> False | _ \<Rightarrow> True)"
  shows "sorted (map ms_Mountpoint states) \<and>
    (st \<in> set states \<longleftrightarrow> (\<exists>n m c. path_Ext n = ''.json'' \<and> state_UnmarshalJSON c = Inr st \<and>
       node s (fst (lp (NewRuntime root)), snd (lp (NewRuntime root)) @ [n]) = Some (FileNode m c) \<and>
       is_dir_node (node s (lp (NewRuntime root)))))"
proof -
  let ?r = "NewRuntime root"
  let ?nd = "\<lambda>n. node s (fst (lp ?r), snd (lp ?r) @ [n])"
  show ?thesis
  proof (cases "os_ReadDir ?r s")
    case (Inl e)
    have "fault s (lp ?r) = None" using assms(3) by blast
    with Inl assms(1) have "states = []" "\<not> is_dir_node (node s (lp ?r))"
      by (auto simp: runtime_List_def os_ReadDir_def Let_def split: if_splits option.splits fnode.splits)
    then show ?thesis by simp
  next
    case (Inr es)
    then have dir: "is_dir_node (node s (lp ?r))"
      by (auto simp: os_ReadDir_def Let_def split: option.splits fnode.splits)
    from assms(1) Inr obtain ls where ls: "list_states ?r s es = Inr ls"
      and states: "states = sort_key ms_Mountpoint ls"
      by (auto simp: runtime_List_def bind_result_eq_Inr)
    have read: "os_ReadFile (path_Join [?r, n]) s = Inr c" if "?nd n = Some (FileNode m c)" for n m c
      using list_reads_node [OF assms(2) NewRuntime_nonempty that] assms(3) by simp
    have "st \<in> set states \<longleftrightarrow> (\<exists>n nd. ?nd n = Some nd \<and> is_state_file (n, nd) \<and>
        bind_result (os_ReadFile (path_Join [?r, n]) s) state_UnmarshalJSON = Inr st)"
      using list_states_set [OF ls, of st] ReadDir_mem [OF Inr] by (fastforce simp: states)
    also have "\<dots> \<longleftrightarrow> (\<exists>n m c. ?nd n = Some (FileNode m c) \<and> is_state_file (n, FileNode m c) \<and>
        state_UnmarshalJSON c = Inr st)"
    proof -
      have k: "\<exists>m c. nd = FileNode m c" if "?nd n = Some nd" "is_state_file (n, nd)" for n nd
        using that assms(4) [rule_format, of n] by (cases nd) (auto simp: is_state_file_def)
      have "bind_result (os_ReadFile (path_Join [?r, n]) s) state_UnmarshalJSON = state_UnmarshalJSON c"
        if "?nd n = Some (FileNode m c)" for n m c
        using read [OF that] by simp
      then show ?thesis using k by fastforce
    qed
    finally show ?thesis using dir by (auto simp: states is_state_file_def)
  qed
qed

text \<open>
  Property C34: the state of a mount. After a successful save, loading the mountpoint returns
  the saved state with the time of the save, and mountpoints with another key are not
  affected. \<open>ClearStale\<close> leaves the state of a live helper alone; when the helper is gone
  and it succeeds, the state is gone too.
\<close>

theorem mount_store_correct:
  assumes "fs_ok s" and "runtime_Save sha256 now (NewRuntime root) st s = (Inr (), s')"
    and "mp = ms_Mountpoint st"
  shows "runtime_Load sha256 (NewRuntime root) mp s' = Inr (st\<lparr>ms_UpdatedAt := now\<rparr>) \<and>
    (stateKey sha256 mp' \<noteq> stateKey sha256 mp \<longrightarrow>
      runtime_Load sha256 (NewRuntime root) mp' s' = runtime_Load sha256 (NewRuntime root) mp' s) \<and>
    (ProcessExists kill (ms_PID st) \<longrightarrow>
      ClearStale sha256 kill (NewRuntime root) mp s' = (Inr (), s')) \<and>
    (\<not> ProcessExists kill (ms_PID st) \<and> ClearStale sha256 kill (NewRuntime root) mp s' = (Inr (), s'') \<longrightarrow>
      (\<exists>e. runtime_Load sha256 (NewRuntime root) mp s'' = Inl e \<and> errors_Is e OsErrNotExist))"
proof -
  have sv: "runtime_Save sha256 now (NewRuntime root) (st\<lparr>ms_Mountpoint := mp\<rparr>) s = (Inr (), s')"
    using assms(2,3) by simp
  have l: "runtime_Load sha256 (NewRuntime root) mp s' = Inr (st\<lparr>ms_UpdatedAt := now\<rparr>)"
    using mounts.load_save [OF TrueI sv] assms(3) by (simp add: at_mountpoint_def)
  moreover have "stateKey sha256 mp' \<noteq> stateKey sha256 mp \<Longrightarrow>
      runtime_Load sha256 (NewRuntime root) mp' s' = runtime_Load sha256 (NewRuntime root) mp' s"
    using mounts.load_save_other [of sha256 root mp' mp now st s] sv by (simp add: lp_statePath)
  moreover have "fs_ok s'" using mounts.good_save [OF assms(1), of sha256 now root mp st] sv by simp
  then have "fs_ok (snd (os_Remove (LogPath sha256 (NewRuntime root) mp) s'))" by (rule fs_ok_Remove)
  then have "\<not> ProcessExists kill (ms_PID st) \<Longrightarrow>
      ClearStale sha256 kill (NewRuntime root) mp s' = (Inr (), s'') \<Longrightarrow>
      \<exists>e. runtime_Load sha256 (NewRuntime root) mp s'' = Inl e \<and> errors_Is e OsErrNotExist"
    using mounts.load_delete [OF TrueI] by (simp add: ClearStale_def l case_prod_beta)
  ultimately show ?thesis by (simp add: ClearStale_def)
qed

definition example_state :: mount_state where
  "example_state = zero_mount_state\<lparr>ms_Profile := ''home'', ms_AgentID := ''a'', ms_Mountpoint := ''/m'',
     ms_PID := 7, ms_Status := ''mounted''\<rparr>"

definition example_runtime_fs :: "content local_fs" where
  "example_runtime_fs = snd (runtime_Save (\<lambda>b. b) 5 (NewRuntime ''/r'') example_state empty_fs)"

lemma example_saved:
  "runtime_Save (\<lambda>b. b) 5 (NewRuntime ''/r'') example_state empty_fs = (Inr (), example_runtime_fs)"
proof -
  have "fst (runtime_Save (\<lambda>b. b) 5 (NewRuntime ''/r'') example_state empty_fs) = Inr ()" by code_simp
  then show ?thesis by (simp add: example_runtime_fs_def prod_eq_iff)
qed

theorem mount_store_correct_witness:
  "runtime_Load (\<lambda>b. b) (NewRuntime ''/r'') ''/m'' example_runtime_fs =
     Inr (example_state\<lparr>ms_UpdatedAt := 5\<rparr>) \<and>
   ClearStale (\<lambda>b. b) (\<lambda>p. None) (NewRuntime ''/r'') ''/m'' example_runtime_fs = (Inr (), example_runtime_fs)"
  using mount_store_correct [OF fs_ok_empty example_saved, of "''/m''" "''/n''" "\<lambda>p. None" example_runtime_fs]
  by (simp add: example_state_def ProcessExists_def zero_mount_state_def)

theorem wait_for_mount_returns_witness:
  "\<exists>res. WaitForMount (\<lambda>b. b) (\<lambda>k. \<lparr>env_fs = (if k < 2 then empty_fs else example_runtime_fs),
      env_kill = (\<lambda>p. None), env_ctx = None\<rparr>) (NewRuntime ''/r'') ''/m'' 7 = Some res"
proof -
  have "runtime_Load (\<lambda>b. b) (NewRuntime ''/r'') ''/m'' example_runtime_fs =
      Inr (example_state\<lparr>ms_UpdatedAt := 5\<rparr>)"
    unfolding example_runtime_fs_def by code_simp
  then show ?thesis
    using wait_for_mount_returns [of "\<lambda>k. \<lparr>env_fs = (if k < 2 then empty_fs else example_runtime_fs),
        env_kill = (\<lambda>p. None), env_ctx = None\<rparr>" 2 "\<lambda>b. b" "NewRuntime ''/r''" "''/m''" 7]
    by (auto simp: Let_def example_state_def mount_statuses)
qed

lemma example_runtime_nodes:
  "nodes example_runtime_fs = [((True, [''r'']), DirNode 0x1ED), ((True, [''r'', ''mounts'']), DirNode 0x1ED),
     ((True, [''r'', ''mounts'', ''2f6d.json'']), FileNode 0x1A4 (projr (state_MarshalJSON
        (example_state\<lparr>ms_UpdatedAt := 5\<rparr>))))]"
  unfolding example_runtime_fs_def by code_simp

lemma runtime_Save_fault: "fault (snd (runtime_Save sha256 now r st s)) = fault s"
proof (cases "os_MkdirAll r 0x1ED s")
  case (Pair a t)
  then have "fault t = fault s" using MkdirAll_fault [of r "0x1ED" s] by simp
  with Pair show ?thesis by (simp add: runtime_Save_def Let_def split: sum.splits)
qed

lemma list_is_complete_witness:
  "runtime_List (NewRuntime ''/r'') example_runtime_fs = Inr [example_state\<lparr>ms_UpdatedAt := 5\<rparr>] \<and>
   (\<exists>n m c. node example_runtime_fs (True, [''r'', ''mounts'', n]) = Some (FileNode m c) \<and>
      state_UnmarshalJSON c = Inr (example_state\<lparr>ms_UpdatedAt := 5\<rparr>))"
proof -
  have l: "runtime_List (NewRuntime ''/r'') example_runtime_fs = Inr [example_state\<lparr>ms_UpdatedAt := 5\<rparr>]"
    unfolding example_runtime_fs_def by code_simp
  have r: "lp (NewRuntime ''/r'') = (True, [''r'', ''mounts''])" by code_simp
  have "names_ok example_runtime_fs"
    by (simp add: names_ok_def example_runtime_nodes path_name_def slash_def)
  moreover have "\<forall>q. fault example_runtime_fs q = None"
    unfolding example_runtime_fs_def by (simp add: runtime_Save_fault) (simp add: empty_fs_def)
  moreover have "case node example_runtime_fs (True, [''r'', ''mounts'', n]) of
      Some (LinkNode _) \<Rightarrow> False | _ \<Rightarrow> True" for n
    by (auto simp: node_def example_runtime_nodes)
  ultimately show ?thesis
    using list_is_complete [OF l, of "example_state\<lparr>ms_UpdatedAt := 5\<rparr>"] l by (auto simp: r)
qed

end
