(* ===== verification/Cli_State.thy ===== *)
theory Cli_State
  imports Workspace Fuse_Runtime
begin

text \<open>
  How the command line (\<open>cmd/agentic9/main.go\<close>) keeps its two records of a workspace in
  step: the metadata file under the state directory and the state file that the mount helper
  writes under the runtime directory. Both live on the local file system. The hash, the
  probe of a process and the clock are parameters.
\<close>

type_synonym hash_fn = "bytes \<Rightarrow> bytes"
type_synonym kill_fn = "int \<Rightarrow> errno_code option"

subsection \<open>Writing metadata\<close>

definition saveWorkspaceMetadata ::
  "int \<Rightarrow> manager \<Rightarrow> string \<Rightarrow> string \<Rightarrow> string \<Rightarrow> string \<Rightarrow> int \<Rightarrow> content local_fs \<Rightarrow>
   unit result \<times> content local_fs" where
  "saveWorkspaceMetadata now manager profileName agentID remoteRoot mountpoint pid s =
     (let start = (case manager_Load manager profileName agentID s of
            Inr meta \<Rightarrow> Inr meta
          | Inl err \<Rightarrow>
              (if errors_Is err OsErrNotExist
               then Inr (zero_metadata\<lparr>m_Profile := profileName, m_AgentID := agentID,
                 m_CreatedAt := now\<rparr>)
               else Inl err))
      in (case start of
            Inl err \<Rightarrow> (Inl err, s)
          | Inr meta \<Rightarrow>
              (let meta = meta\<lparr>m_Profile := profileName, m_AgentID := agentID,
                     m_RemoteRoot := remoteRoot, m_Mountpoint := mountpoint, m_Mounted := True,
                     m_MountPID := pid\<rparr>;
                   meta = (if m_CreatedAt meta = 0 then meta\<lparr>m_CreatedAt := now\<rparr> else meta)
               in manager_Save manager meta s)))"

definition clearWorkspaceMountState ::
  "manager \<Rightarrow> string \<Rightarrow> string \<Rightarrow> content local_fs \<Rightarrow> unit result \<times> content local_fs" where
  "clearWorkspaceMountState manager profileName agentID s =
     (case manager_Load manager profileName agentID s of
        Inl err \<Rightarrow> (if errors_Is err OsErrNotExist then (Inr (), s) else (Inl err, s))
      | Inr meta \<Rightarrow>
          manager_Save manager (meta\<lparr>m_Mounted := False, m_MountPID := 0, m_Mountpoint := []\<rparr>) s)"

subsection \<open>Finding the runtime state of an agent\<close>

definition state_of_agent :: "string \<Rightarrow> string \<Rightarrow> (mount_state \<Rightarrow> bool) \<Rightarrow> mount_state \<Rightarrow> bool" where
  "state_of_agent profileName agentID selectState state \<longleftrightarrow>
     ms_Profile state = profileName \<and> ms_AgentID state = agentID \<and> selectState state"

text \<open>The loop over the listed states, with the best one so far.\<close>

fun best_state :: "(mount_state \<Rightarrow> bool) \<Rightarrow> mount_state option \<Rightarrow> mount_state list \<Rightarrow> mount_state option" where
  "best_state ok best [] = best"
| "best_state ok best (state # states) =
     (if \<not> ok state then best_state ok best states
      else (case best of
              None \<Rightarrow> best_state ok (Some state) states
            | Some b \<Rightarrow>
                best_state ok (if ms_UpdatedAt state > ms_UpdatedAt b then Some state else Some b) states))"

definition findRuntimeStateByAgent ::
  "hash_fn \<Rightarrow> string \<Rightarrow> string \<Rightarrow> string \<Rightarrow> string \<Rightarrow> (mount_state \<Rightarrow> bool) \<Rightarrow> content local_fs \<Rightarrow>
   mount_state option result" where
  "findRuntimeStateByAgent sha256 runtimeRoot profileName agentID hint selectState s =
     (let runtime = NewRuntime runtimeRoot;
          ok = state_of_agent profileName agentID selectState;
          all = bind_result (runtime_List runtime s) (\<lambda>states. Inr (best_state ok None states))
      in if hint \<noteq> [] then
           (case runtime_Load sha256 runtime hint s of
              Inr state \<Rightarrow> (if ok state then Inr (Some state) else all)
            | Inl err \<Rightarrow> (if \<not> errors_Is err OsErrNotExist then Inl err else all))
         else all)"

definition mounted_and_alive :: "kill_fn \<Rightarrow> mount_state \<Rightarrow> bool" where
  "mounted_and_alive kill state \<longleftrightarrow>
     ms_Status state = MountStatusMounted \<and> ProcessExists kill (ms_PID state)"

definition findMountedRuntimeStateByAgent ::
  "hash_fn \<Rightarrow> kill_fn \<Rightarrow> string \<Rightarrow> string \<Rightarrow> string \<Rightarrow> string \<Rightarrow> content local_fs \<Rightarrow>
   mount_state option result" where
  "findMountedRuntimeStateByAgent sha256 kill runtimeRoot profileName agentID hint s =
     findRuntimeStateByAgent sha256 runtimeRoot profileName agentID hint (mounted_and_alive kill) s"

definition findAnyRuntimeStateByAgent ::
  "hash_fn \<Rightarrow> string \<Rightarrow> string \<Rightarrow> string \<Rightarrow> string \<Rightarrow> content local_fs \<Rightarrow> mount_state option result" where
  "findAnyRuntimeStateByAgent sha256 runtimeRoot profileName agentID hint s =
     findRuntimeStateByAgent sha256 runtimeRoot profileName agentID hint (\<lambda>_. True) s"

subsection \<open>Refreshing and loading metadata\<close>

text \<open>\<open>saveErr := manager.Save(meta)\<close>, then the metadata or the error.\<close>

definition save_and_return ::
  "manager \<Rightarrow> metadata \<Rightarrow> content local_fs \<Rightarrow> metadata result \<times> content local_fs" where
  "save_and_return manager meta s =
     (case manager_Save manager meta s of (Inl e, s) \<Rightarrow> (Inl e, s) | (Inr _, s) \<Rightarrow> (Inr meta, s))"

definition adopt_state :: "mount_state \<Rightarrow> metadata \<Rightarrow> metadata" where
  "adopt_state state meta =
     meta\<lparr>m_Mountpoint := ms_Mountpoint state, m_Mounted := True, m_MountPID := ms_PID state\<rparr>"

definition refreshWorkspaceMetadata ::
  "hash_fn \<Rightarrow> kill_fn \<Rightarrow> string \<Rightarrow> manager \<Rightarrow> metadata \<Rightarrow> content local_fs \<Rightarrow>
   metadata result \<times> content local_fs" where
  "refreshWorkspaceMetadata sha256 kill runtimeRoot manager meta s =
     (let find = findMountedRuntimeStateByAgent sha256 kill runtimeRoot (m_Profile meta)
            (m_AgentID meta) (m_Mountpoint meta) s
      in if \<not> m_Mounted meta \<or> m_Mountpoint meta = [] \<or> m_MountPID meta = 0 then
           (case find of
              Inl err \<Rightarrow> (Inl err, s)
            | Inr (Some state) \<Rightarrow> save_and_return manager (adopt_state state meta) s
            | Inr None \<Rightarrow> (Inr meta, s))
         else
           (let loaded = runtime_Load sha256 (NewRuntime runtimeRoot) (m_Mountpoint meta) s;
                current = (case loaded of
                    Inr state \<Rightarrow> ms_Status state = MountStatusMounted \<and>
                      ms_PID state = m_MountPID meta \<and> ProcessExists kill (ms_PID state)
                  | Inl _ \<Rightarrow> False);
                failed = (case loaded of
                    Inl err \<Rightarrow> if \<not> errors_Is err OsErrNotExist then Some err else None
                  | Inr _ \<Rightarrow> None)
            in if current then (Inr meta, s)
               else (case failed of
                 Some err \<Rightarrow> (Inl err, s)
               | None \<Rightarrow>
                   (case find of
                      Inl err \<Rightarrow> (Inl err, s)
                    | Inr (Some state) \<Rightarrow> save_and_return manager (adopt_state state meta) s
                    | Inr None \<Rightarrow>
                        save_and_return manager
                          (meta\<lparr>m_Mounted := False, m_MountPID := 0, m_Mountpoint := []\<rparr>) s))))"

definition loadWorkspaceMetadata ::
  "hash_fn \<Rightarrow> kill_fn \<Rightarrow> int \<Rightarrow> string \<Rightarrow> manager \<Rightarrow> profile \<Rightarrow> string \<Rightarrow> string \<Rightarrow> content local_fs \<Rightarrow>
   metadata result \<times> content local_fs" where
  "loadWorkspaceMetadata sha256 kill now runtimeRoot manager prof profileName agentID s =
     (case manager_Load manager profileName agentID s of
        Inr meta \<Rightarrow> (Inr meta, s)
      | Inl err \<Rightarrow>
          (if \<not> errors_Is err OsErrNotExist then (Inl err, s)
           else (case findMountedRuntimeStateByAgent sha256 kill runtimeRoot profileName agentID [] s of
                   Inl err \<Rightarrow> (Inl err, s)
                 | Inr None \<Rightarrow> (Inl OsErrNotExist, s)
                 | Inr (Some state) \<Rightarrow>
                     (let meta = \<lparr>m_Profile = profileName, m_AgentID = agentID,
                            m_RemoteRoot = RemoteRoot prof agentID,
                            m_Mountpoint = ms_Mountpoint state, m_Mounted = True,
                            m_MountPID = ms_PID state, m_CreatedAt = ms_UpdatedAt state\<rparr>;
                          meta = (if m_CreatedAt meta = 0 then meta\<lparr>m_CreatedAt := now\<rparr> else meta)
                      in save_and_return manager meta s))))"

subsection \<open>The status report\<close>

record workspaceStatusMetadata =
  sm_Present :: bool
  sm_Path :: string
  sm_RemoteRoot :: string
  sm_Mountpoint :: string
  sm_Mounted :: bool
  sm_PID :: int

record workspaceStatusRuntime =
  sr_Present :: bool
  sr_StatePath :: string
  sr_LogPath :: string
  sr_Mountpoint :: string
  sr_Status :: string
  sr_PID :: int
  sr_ProcessAlive :: bool
  sr_UpdatedAt :: int

record workspaceStatusRemote =
  se_Checked :: bool
  se_Exists :: bool
  se_Root :: string
  se_Error :: string

record versionReport =
  CLIVersion :: string
  ExpectedSkillVersion :: string

record workspaceStatusReport =
  st_OK :: bool
  st_AgentID :: string
  st_Profile :: string
  st_ProjectRoot :: string
  st_RemoteProjectRoot :: string
  st_Mounted :: bool
  st_Inconsistencies :: "string list"
  st_Version :: versionReport
  st_Metadata :: workspaceStatusMetadata
  st_Runtime :: workspaceStatusRuntime
  st_Remote :: workspaceStatusRemote

definition zero_runtime :: workspaceStatusRuntime where
  "zero_runtime = \<lparr>sr_Present = False, sr_StatePath = [], sr_LogPath = [], sr_Mountpoint = [],
     sr_Status = [], sr_PID = 0, sr_ProcessAlive = False, sr_UpdatedAt = 0\<rparr>"

definition runtime_report :: "hash_fn \<Rightarrow> kill_fn \<Rightarrow> string \<Rightarrow> mount_state \<Rightarrow> workspaceStatusRuntime" where
  "runtime_report sha256 kill runtimeRoot state =
     (let runtime = NewRuntime runtimeRoot in
      \<lparr>sr_Present = True, sr_StatePath = runtime_StatePath sha256 runtime (ms_Mountpoint state),
       sr_LogPath = LogPath sha256 runtime (ms_Mountpoint state), sr_Mountpoint = ms_Mountpoint state,
       sr_Status = ms_Status state, sr_PID = ms_PID state,
       sr_ProcessAlive = ProcessExists kill (ms_PID state), sr_UpdatedAt = ms_UpdatedAt state\<rparr>)"

text \<open>The warnings of the report; \<open>state\<close> is the runtime state, zero when none was found.\<close>

definition inconsistencies ::
  "workspaceStatusMetadata \<Rightarrow> bool \<Rightarrow> mount_state \<Rightarrow> string list" where
  "inconsistencies meta mounted state =
     (if \<not> sm_Present meta \<and> mounted
      then [''metadata is missing while an active runtime mount exists''] else []) @
     (if sm_Present meta \<and> sm_Mounted meta \<and> \<not> mounted
      then [''metadata says the workspace is mounted but runtime state is not active''] else []) @
     (if sm_Present meta \<and> mounted then
        (if sm_Mountpoint meta \<noteq> [] \<and> sm_Mountpoint meta \<noteq> ms_Mountpoint state
         then [''metadata mountpoint does not match the active runtime mountpoint''] else []) @
        (if sm_PID meta \<noteq> 0 \<and> sm_PID meta \<noteq> ms_PID state
         then [''metadata mount pid does not match the active runtime pid''] else [])
      else [])"

definition inspectWorkspaceState ::
  "hash_fn \<Rightarrow> kill_fn \<Rightarrow> string \<Rightarrow> manager \<Rightarrow> profile \<Rightarrow> string \<Rightarrow> string \<Rightarrow> content local_fs \<Rightarrow>
   workspaceStatusReport result" where
  "inspectWorkspaceState sha256 kill runtimeRoot manager prof profileName agentID s =
     (let absent = \<lparr>sm_Present = False, sm_Path = manager_Path manager profileName agentID,
            sm_RemoteRoot = [], sm_Mountpoint = [], sm_Mounted = False, sm_PID = 0\<rparr>;
          looked = (case manager_Load manager profileName agentID s of
              Inr meta \<Rightarrow> Inr (absent\<lparr>sm_Present := True, sm_RemoteRoot := m_RemoteRoot meta,
                sm_Mountpoint := m_Mountpoint meta, sm_Mounted := m_Mounted meta,
                sm_PID := m_MountPID meta\<rparr>)
            | Inl err \<Rightarrow> (if errors_Is err OsErrNotExist then Inr absent else Inl err))
      in bind_result looked (\<lambda>meta.
         bind_result (findAnyRuntimeStateByAgent sha256 runtimeRoot profileName agentID
             (sm_Mountpoint meta) s) (\<lambda>found.
           let state = (case found of Some st \<Rightarrow> st | None \<Rightarrow> zero_mount_state);
               rt = (case found of Some st \<Rightarrow> runtime_report sha256 kill runtimeRoot st | None \<Rightarrow> zero_runtime);
               mounted = (found \<noteq> None \<and> ms_Status state = MountStatusMounted \<and> sr_ProcessAlive rt);
               root = (if sm_RemoteRoot meta \<noteq> [] then sm_RemoteRoot meta else RemoteRoot prof agentID)
           in Inr \<lparr>st_OK = True, st_AgentID = agentID, st_Profile = profileName,
             st_ProjectRoot = (if mounted then ms_Mountpoint state
               else if sm_Mountpoint meta \<noteq> [] then sm_Mountpoint meta else []),
             st_RemoteProjectRoot = root, st_Mounted = mounted,
             st_Inconsistencies = inconsistencies meta mounted state,
             st_Version = \<lparr>CLIVersion = [], ExpectedSkillVersion = []\<rparr>,
             st_Metadata = meta, st_Runtime = rt,
             st_Remote = \<lparr>se_Checked = False, se_Exists = False, se_Root = root, se_Error = []\<rparr>\<rparr>)))"

subsection \<open>Lemmas\<close>

lemma manager_Save_Load:
  "manager_Save m meta s = (Inr (), s') \<Longrightarrow>
   manager_Load m (m_Profile meta) (m_AgentID meta) s' = Inr meta"
  by (auto simp: manager_Save_def manager_Load_def Let_def WriteFile_read metadata_roundtrip
      split: prod.splits sum.splits)

lemma save_and_return_Load:
  "save_and_return m meta s = (Inr meta', s') \<Longrightarrow>
   meta' = meta \<and> manager_Load m (m_Profile meta) (m_AgentID meta) s' = Inr meta"
  by (auto simp: save_and_return_def dest: manager_Save_Load split: prod.splits sum.splits)

definition later :: "mount_state \<Rightarrow> mount_state \<Rightarrow> mount_state" where
  "later state b = (if ms_UpdatedAt state > ms_UpdatedAt b then state else b)"

lemma best_state_Some: "best_state ok (Some b) states = Some (fold later (filter ok states) b)"
  by (induction states arbitrary: b) (simp_all add: later_def)

lemma best_state_None:
  "best_state ok None states =
     (case filter ok states of [] \<Rightarrow> None | b # bs \<Rightarrow> Some (fold later bs b))"
  by (induction states) (simp_all add: best_state_Some)

lemma fold_later:
  "fold later xs b \<in> insert b (set xs) \<and>
   (\<forall>x \<in> insert b (set xs). ms_UpdatedAt x \<le> ms_UpdatedAt (fold later xs b))"
proof (induction xs arbitrary: b)
  case (Cons x xs)
  show ?case
    using Cons.IH [of "later x b"] by (auto simp: later_def split: if_splits)
qed simp

text \<open>The chosen state is one of the accepted states, and none of them is newer.\<close>

lemma best_state_latest:
  "best_state ok None states = Some st \<Longrightarrow>
   st \<in> set states \<and> ok st \<and> (\<forall>x \<in> set states. ok x \<longrightarrow> ms_UpdatedAt x \<le> ms_UpdatedAt st)"
proof -
  assume "best_state ok None states = Some st"
  then obtain b bs where f: "filter ok states = b # bs" and st: "st = fold later bs b"
    by (auto simp: best_state_None split: list.splits)
  have mem: "x \<in> insert b (set bs) \<longleftrightarrow> x \<in> set states \<and> ok x" for x
    using arg_cong [OF f, of set] by auto
  then show ?thesis using fold_later [of bs b] st by blast
qed

lemma best_state_none: "best_state ok None states = None \<longleftrightarrow> filter ok states = []"
  by (simp add: best_state_None split: list.split)

text \<open>A state the runtime directory holds.\<close>

definition known_state :: "hash_fn \<Rightarrow> string \<Rightarrow> content local_fs \<Rightarrow> mount_state \<Rightarrow> bool" where
  "known_state sha256 root s st \<longleftrightarrow>
     (\<exists>mp. runtime_Load sha256 (NewRuntime root) mp s = Inr st) \<or>
     (\<exists>states. runtime_List (NewRuntime root) s = Inr states \<and> st \<in> set states)"

lemma find_known:
  assumes "findRuntimeStateByAgent sha256 root p a hint sel s = Inr (Some st)"
  shows "known_state sha256 root s st \<and> state_of_agent p a sel st"
proof -
  have all: "known_state sha256 root s st \<and> state_of_agent p a sel st"
    if "bind_result (runtime_List (NewRuntime root) s)
      (\<lambda>states. Inr (best_state (state_of_agent p a sel) None states)) = Inr (Some st)"
    using that best_state_latest by (fastforce simp: bind_result_eq_Inr known_state_def)
  show ?thesis
    using assms all
    by (auto simp: findRuntimeStateByAgent_def known_state_def Let_def split: if_splits sum.splits)
qed

text \<open>The four ways in which a refresh succeeds.\<close>

lemma refresh_cases:
  assumes "refreshWorkspaceMetadata sha256 kill root m meta s = (Inr meta', s')"
  obtains (same) "meta' = meta" "s' = s"
      "findMountedRuntimeStateByAgent sha256 kill root (m_Profile meta) (m_AgentID meta)
        (m_Mountpoint meta) s = Inr None"
      "\<not> m_Mounted meta \<or> m_Mountpoint meta = [] \<or> m_MountPID meta = 0"
    | (current) st where "meta' = meta" "s' = s" "m_Mounted meta"
        "runtime_Load sha256 (NewRuntime root) (m_Mountpoint meta) s = Inr st"
        "mounted_and_alive kill st" "ms_PID st = m_MountPID meta"
    | (adopted) st where
        "findMountedRuntimeStateByAgent sha256 kill root (m_Profile meta) (m_AgentID meta)
          (m_Mountpoint meta) s = Inr (Some st)"
        "save_and_return m (adopt_state st meta) s = (Inr meta', s')"
    | (cleared)
        "findMountedRuntimeStateByAgent sha256 kill root (m_Profile meta) (m_AgentID meta)
          (m_Mountpoint meta) s = Inr None"
        "save_and_return m (meta\<lparr>m_Mounted := False, m_MountPID := 0, m_Mountpoint := []\<rparr>) s = (Inr meta', s')"
proof (cases "\<not> m_Mounted meta \<or> m_Mountpoint meta = [] \<or> m_MountPID meta = 0")
  case True
  with assms that(1,3) show thesis
    unfolding refreshWorkspaceMetadata_def Let_def
    by (cases "findMountedRuntimeStateByAgent sha256 kill root (m_Profile meta) (m_AgentID meta)
          (m_Mountpoint meta) s") (auto split: option.splits)
next
  case False
  let ?find = "findMountedRuntimeStateByAgent sha256 kill root (m_Profile meta) (m_AgentID meta)
          (m_Mountpoint meta) s"
  have found: thesis if "(case ?find of Inl err \<Rightarrow> (Inl err, s)
      | Inr (Some state) \<Rightarrow> save_and_return m (adopt_state state meta) s
      | Inr None \<Rightarrow> save_and_return m (meta\<lparr>m_Mounted := False, m_MountPID := 0, m_Mountpoint := []\<rparr>) s) =
      (Inr meta', s')"
    using that adopted cleared by (auto split: sum.splits option.splits)
  show thesis
  proof (cases "runtime_Load sha256 (NewRuntime root) (m_Mountpoint meta) s")
    case (Inl e)
    with assms False found show thesis
      by (simp add: refreshWorkspaceMetadata_def Let_def split: if_splits)
  next
    case (Inr st)
    show thesis
    proof (cases "ms_Status st = MountStatusMounted \<and> ms_PID st = m_MountPID meta \<and>
        ProcessExists kill (ms_PID st)")
      case True
      with assms False Inr have "meta' = meta" "s' = s"
        by (auto simp: refreshWorkspaceMetadata_def Let_def)
      with True False Inr show thesis by (intro current [of st]) (auto simp: mounted_and_alive_def)
    next
      case no: False
      show thesis
        using assms False Inr
        by (intro found) (simp only: refreshWorkspaceMetadata_def Let_def no if_False sum.case
          option.case de_Morgan_disj not_not simp_thms)
    qed
  qed
qed

subsection \<open>Properties\<close>

text \<open>
  Property C14: refreshed metadata tells the truth and is what the file holds. When the
  metadata of a workspace is refreshed successfully, the file holds exactly the returned
  record; identity, remote root and creation time are unchanged; a record that says mounted
  (with mountpoint and process) names the process of a known mount state that is mounted and
  whose process is alive; and a record that was not mounted stays so, and one that was
  mounted is cleared, only when no live mount of the agent is found.
\<close>

theorem refreshed_metadata_true:
  assumes "manager_Load m (m_Profile meta) (m_AgentID meta) s = Inr meta"
    and "refreshWorkspaceMetadata sha256 kill root m meta s = (Inr meta', s')"
  shows "manager_Load m (m_Profile meta) (m_AgentID meta) s' = Inr meta' \<and>
    m_Profile meta' = m_Profile meta \<and> m_AgentID meta' = m_AgentID meta \<and>
    m_RemoteRoot meta' = m_RemoteRoot meta \<and> m_CreatedAt meta' = m_CreatedAt meta \<and>
    (m_Mounted meta' \<and> m_Mountpoint meta' \<noteq> [] \<and> m_MountPID meta' \<noteq> 0 \<longrightarrow>
      (\<exists>st. known_state sha256 root s st \<and> mounted_and_alive kill st \<and>
        ms_PID st = m_MountPID meta')) \<and>
    (\<not> m_Mounted meta' \<longrightarrow>
      findMountedRuntimeStateByAgent sha256 kill root (m_Profile meta) (m_AgentID meta)
        (m_Mountpoint meta) s = Inr None)"
proof -
  let ?find = "findMountedRuntimeStateByAgent sha256 kill root (m_Profile meta) (m_AgentID meta)
    (m_Mountpoint meta) s"
  consider (same) "meta' = meta" "s' = s" "?find = Inr None"
      "\<not> m_Mounted meta \<or> m_Mountpoint meta = [] \<or> m_MountPID meta = 0"
    | (current) st where "meta' = meta" "s' = s" "m_Mounted meta"
        "runtime_Load sha256 (NewRuntime root) (m_Mountpoint meta) s = Inr st"
        "mounted_and_alive kill st" "ms_PID st = m_MountPID meta"
    | (adopted) st where "?find = Inr (Some st)" "save_and_return m (adopt_state st meta) s = (Inr meta', s')"
    | (cleared) "?find = Inr None"
        "save_and_return m (meta\<lparr>m_Mounted := False, m_MountPID := 0, m_Mountpoint := []\<rparr>) s = (Inr meta', s')"
    using assms(2) by (rule refresh_cases)
  then show ?thesis
  proof cases
    case same
    with assms(1) show ?thesis by auto
  next
    case current
    with assms(1) show ?thesis by (auto simp: known_state_def)
  next
    case adopted
    from find_known [OF adopted(1) [unfolded findMountedRuntimeStateByAgent_def]]
      save_and_return_Load [OF adopted(2)]
    show ?thesis by (auto simp: adopt_state_def state_of_agent_def)
  next
    case cleared
    from save_and_return_Load [OF cleared(2)] cleared(1) show ?thesis by auto
  qed
qed

text \<open>A world for the witnesses: metadata that says mounted, a helper that is gone.\<close>

definition demo_meta :: metadata where
  "demo_meta = \<lparr>m_Profile = ''home'', m_AgentID = ''a1'', m_RemoteRoot = ''/r'', m_Mountpoint = ''/mnt'',
     m_Mounted = True, m_MountPID = 7, m_CreatedAt = 5\<rparr>"

definition demo_fs :: "content local_fs" where
  "demo_fs = snd (manager_Save ''/state'' demo_meta (snd (runtime_Save (\<lambda>b. b) 9 (NewRuntime ''/run'')
     \<lparr>ms_Profile = ''home'', ms_AgentID = ''a1'', ms_Mountpoint = ''/mnt'', ms_PID = 7,
      ms_Status = MountStatusMounted, ms_Error = [], ms_UpdatedAt = 0\<rparr>
     \<lparr>nodes = [], fault = (\<lambda>_. None)\<rparr>)))"

definition demo_kill :: kill_fn where
  "demo_kill pid = (if pid = 8 then None else Some (EOTHER 3))"

theorem refreshed_metadata_true_witness:
  "\<exists>meta s'. refreshWorkspaceMetadata (\<lambda>b. b) demo_kill ''/run'' ''/state'' demo_meta demo_fs =
      (Inr meta, s') \<and> \<not> m_Mounted meta \<and> manager_Load ''/state'' ''home'' ''a1'' s' = Inr meta"
proof -
  have load: "manager_Load ''/state'' (m_Profile demo_meta) (m_AgentID demo_meta) demo_fs = Inr demo_meta"
    by code_simp
  have "case refreshWorkspaceMetadata (\<lambda>b. b) demo_kill ''/run'' ''/state'' demo_meta demo_fs of
      (Inr meta, _) \<Rightarrow> \<not> m_Mounted meta | _ \<Rightarrow> False"
    by code_simp
  then obtain meta s' where run:
    "refreshWorkspaceMetadata (\<lambda>b. b) demo_kill ''/run'' ''/state'' demo_meta demo_fs = (Inr meta, s')"
    "\<not> m_Mounted meta" by (auto split: prod.splits sum.splits)
  from refreshed_metadata_true [OF load run(1)] run show ?thesis by (simp add: demo_meta_def)
qed


definition demo_run_fs :: "content local_fs" where
  "demo_run_fs = snd (runtime_Save (\<lambda>b. b) 9 (NewRuntime ''/run'')
     \<lparr>ms_Profile = ''home'', ms_AgentID = ''a1'', ms_Mountpoint = ''/mnt'', ms_PID = 8,
      ms_Status = MountStatusMounted, ms_Error = [], ms_UpdatedAt = 0\<rparr>
     \<lparr>nodes = [], fault = (\<lambda>_. None)\<rparr>)"


end
