(* ===== verification/Fusefs.thy ===== *)
theory Fusefs
  imports Exportfs_Server Go_Os
begin

text \<open>
  The FUSE file system of \<open>internal/fusefs/fs.go\<close> and \<open>path.go\<close>: nodes that are paths,
  their operations on the remote file system client, file handles, the mapping of errors to
  error numbers, and the table of mounts. The FUSE library is not part of the repository: a
  new inode is described by the path and the mode the code gives the library, mounting and
  unmounting are parameters. A panic of the backend ends the program (\<open>Crash\<close>).
\<close>

datatype 'a freply = Reply 'a | Fail errno_code | Crash

type_synonym ('o, 'p, 'a) fop = "('o, 'p) xclient \<Rightarrow> 'a freply \<times> ('o, 'p) xclient"

definition JoinPath :: "string \<Rightarrow> string \<Rightarrow> string" where
  "JoinPath base name =
     (if base = [slash] then Clean ([slash] @ name) else Clean (base @ [slash] @ name))"

definition errno_of :: "go_error \<Rightarrow> errno_code" where
  "errno_of err =
     (if errors_Is err ErrNotSupported then ENOSYS
      else if errors_Is err ErrDisconnected then EIO
      else if errors_Is err OsErrNotExist then ENOENT
      else if errors_Is err OsErrPermission then EPERM
      else EIO)"

definition fail :: "go_error \<Rightarrow> 'a freply" where
  "fail e = (if is_panic e then Crash else Fail (errno_of e))"

text \<open>\<open>if err != nil { return errno(err) }\<close> and \<open>return errno(m)\<close>.\<close>

definition on_ok :: "('o, 'p, 'a) xop \<Rightarrow> ('a \<Rightarrow> ('o, 'p, 'b) fop) \<Rightarrow> ('o, 'p, 'b) fop" where
  "on_ok m k x = (case m x of (Inl e, x) \<Rightarrow> (fail e, x) | (Inr v, x) \<Rightarrow> k v x)"

definition done_with :: "'a \<Rightarrow> ('o, 'p, 'a) fop" where
  "done_with v x = (Reply v, x)"

definition S_IFMT :: u32 where "S_IFMT = 0xF000"
definition S_IFDIR :: u32 where "S_IFDIR = 0x4000"
definition S_IFREG :: u32 where "S_IFREG = 0x8000"
definition S_IFLNK :: u32 where "S_IFLNK = 0xA000"
definition ModeSymlink :: file_mode where "ModeSymlink = 0x8000000"

definition modeBits :: "file_mode \<Rightarrow> u32" where
  "modeBits mode =
     (let out = Perm mode in
      if mode AND ModeDir \<noteq> 0 then out OR S_IFDIR
      else if mode AND ModeSymlink \<noteq> 0 then out OR S_IFLNK
      else out OR S_IFREG)"

record fattr =
  a_Mode :: u32
  a_Size :: u64
  a_Time :: int

definition fillAttr :: "entry \<Rightarrow> fattr" where
  "fillAttr e = \<lparr>a_Mode = modeBits (eMode e), a_Size = eSize e, a_Time = eModTime e\<rparr>"

definition fillEntry :: "entry \<Rightarrow> fattr" where
  "fillEntry e = \<lparr>a_Mode = modeBits (eMode e), a_Size = eSize e, a_Time = eModTime e\<rparr>"

text \<open>A node is its path; an inode given to the library has the node and its stable mode.\<close>

record inode =
  n_path :: string
  n_mode :: u32

subsection \<open>Operations on nodes\<close>

definition node_Getattr ::
  "'p peer_fn \<Rightarrow> ('o, 'p) opener_fn \<Rightarrow> ctx \<Rightarrow> string \<Rightarrow> ('o, 'p, fattr) fop" where
  "node_Getattr react openfs ctx path =
     on_ok (fs_Stat react openfs ctx path) (\<lambda>entry. done_with (fillAttr entry))"

definition node_Lookup ::
  "'p peer_fn \<Rightarrow> ('o, 'p) opener_fn \<Rightarrow> ctx \<Rightarrow> string \<Rightarrow> string \<Rightarrow> ('o, 'p, inode \<times> fattr) fop" where
  "node_Lookup react openfs ctx path name =
     (let childPath = JoinPath path name in
      on_ok (fs_Stat react openfs ctx childPath) (\<lambda>entry.
        done_with (\<lparr>n_path = childPath, n_mode = modeBits (eMode entry)\<rparr>, fillEntry entry)))"

definition node_Readdir ::
  "'p peer_fn \<Rightarrow> ('o, 'p) opener_fn \<Rightarrow> ctx \<Rightarrow> string \<Rightarrow> ('o, 'p) xclient \<Rightarrow>
   ((string \<times> u32) list freply \<times> ('o, 'p) xclient) option" where
  "node_Readdir react openfs ctx path x =
     map_option (\<lambda>(r, x). (case r of
         Inl e \<Rightarrow> fail e
       | Inr entries \<Rightarrow> Reply (map (\<lambda>e. (Base (ePath e), modeBits (eMode e))) entries), x))
       (fs_List react openfs ctx path x)"

definition node_Open ::
  "'p peer_fn \<Rightarrow> ('o, 'p) opener_fn \<Rightarrow> ctx \<Rightarrow> string \<Rightarrow> u32 \<Rightarrow> ('o, 'p, remoteFile) fop" where
  "node_Open react openfs ctx path flags =
     on_ok (fs_Open react openfs ctx path flags) (\<lambda>(handle, _). done_with handle)"

definition node_Create ::
  "'p peer_fn \<Rightarrow> ('o, 'p) opener_fn \<Rightarrow> int \<Rightarrow> ctx \<Rightarrow> string \<Rightarrow> string \<Rightarrow> u32 \<Rightarrow> u32 \<Rightarrow>
   ('o, 'p, inode \<times> remoteFile \<times> fattr) fop" where
  "node_Create react openfs now ctx path name flags mode =
     (let childPath = JoinPath path name in
      on_ok (fs_Create react openfs now ctx childPath mode flags) (\<lambda>(handle, entry).
        done_with (\<lparr>n_path = childPath, n_mode = modeBits (eMode entry)\<rparr>, handle, fillEntry entry)))"

definition node_Mknod ::
  "'p peer_fn \<Rightarrow> ('o, 'p) opener_fn \<Rightarrow> int \<Rightarrow> ctx \<Rightarrow> string \<Rightarrow> string \<Rightarrow> u32 \<Rightarrow> u32 \<Rightarrow>
   ('o, 'p, inode \<times> fattr) fop" where
  "node_Mknod react openfs now ctx path name mode dev =
     (let childPath = JoinPath path name; fileType = mode AND S_IFMT in
      if fileType \<noteq> 0 \<and> fileType \<noteq> S_IFREG then (\<lambda>x. (Fail ENOSYS, x))
      else on_ok (fs_Create react openfs now ctx childPath mode 1) (\<lambda>(handle, entry).
        on_ok (remoteFile_Close react handle) (\<lambda>_.
          done_with (\<lparr>n_path = childPath, n_mode = modeBits (eMode entry)\<rparr>, fillEntry entry))))"

definition node_Mkdir ::
  "'p peer_fn \<Rightarrow> ('o, 'p) opener_fn \<Rightarrow> int \<Rightarrow> ctx \<Rightarrow> string \<Rightarrow> string \<Rightarrow> u32 \<Rightarrow>
   ('o, 'p, inode \<times> fattr) fop" where
  "node_Mkdir react openfs now ctx path name mode =
     (let childPath = JoinPath path name in
      on_ok (fs_Mkdir react openfs now ctx childPath (mode OR ModeDir)) (\<lambda>_.
        on_ok (fs_Stat react openfs ctx childPath) (\<lambda>entry.
          done_with (\<lparr>n_path = childPath, n_mode = S_IFDIR\<rparr>, fillEntry entry))))"

definition node_Unlink ::
  "'p peer_fn \<Rightarrow> ('o, 'p) opener_fn \<Rightarrow> ctx \<Rightarrow> string \<Rightarrow> string \<Rightarrow> ('o, 'p, unit) fop" where
  "node_Unlink react openfs ctx path name = on_ok (fs_Remove react openfs ctx (JoinPath path name)) done_with"

definition node_Rmdir ::
  "'p peer_fn \<Rightarrow> ('o, 'p) opener_fn \<Rightarrow> ctx \<Rightarrow> string \<Rightarrow> string \<Rightarrow> ('o, 'p, unit) fop" where
  "node_Rmdir react openfs ctx path name = on_ok (fs_Remove react openfs ctx (JoinPath path name)) done_with"

text \<open>\<open>newParent\<close> is \<open>None\<close> when it is not a node of this file system.\<close>

definition node_Rename ::
  "'p peer_fn \<Rightarrow> ('o, 'p) opener_fn \<Rightarrow> ctx \<Rightarrow> string \<Rightarrow> string \<Rightarrow> string option \<Rightarrow> string \<Rightarrow> u32 \<Rightarrow>
   ('o, 'p, unit) fop" where
  "node_Rename react openfs ctx path name newParent newName flags =
     (case newParent of
        None \<Rightarrow> (\<lambda>x. (Fail EIO, x))
      | Some parent_path \<Rightarrow>
          on_ok (fs_Rename react openfs ctx (JoinPath path name) (JoinPath parent_path newName)) done_with)"

definition FATTR_MODE :: u32 where "FATTR_MODE = 1"
definition FATTR_SIZE :: u32 where "FATTR_SIZE = 8"

record setattr_in =
  sa_Valid :: u32
  sa_Mode :: u32
  sa_Size :: u64

definition node_Setattr ::
  "'p peer_fn \<Rightarrow> ('o, 'p) opener_fn \<Rightarrow> ctx \<Rightarrow> string \<Rightarrow> setattr_in \<Rightarrow> ('o, 'p, fattr) fop" where
  "node_Setattr react openfs ctx path inp =
     on_ok (if sa_Valid inp AND FATTR_MODE \<noteq> 0 then fs_Chmod react openfs ctx path (sa_Mode inp)
            else ret (Inr ())) (\<lambda>_.
     on_ok (if sa_Valid inp AND FATTR_SIZE \<noteq> 0 then fs_Truncate react openfs ctx path (sa_Size inp)
            else ret (Inr ())) (\<lambda>_.
     on_ok (fs_Stat react openfs ctx path) (\<lambda>entry. done_with (fillAttr entry))))"

definition node_Readlink :: "ctx \<Rightarrow> string \<Rightarrow> ('o, 'p, bytes) fop" where
  "node_Readlink ctx path = on_ok (fs_Readlink ctx path) done_with"

definition node_Symlink ::
  "'p peer_fn \<Rightarrow> ('o, 'p) opener_fn \<Rightarrow> ctx \<Rightarrow> string \<Rightarrow> string \<Rightarrow> string \<Rightarrow> ('o, 'p, inode \<times> fattr) fop" where
  "node_Symlink react openfs ctx path target name =
     (let childPath = JoinPath path name in
      on_ok (fs_Symlink ctx target childPath) (\<lambda>_.
        on_ok (fs_Stat react openfs ctx childPath) (\<lambda>entry.
          done_with (\<lparr>n_path = childPath, n_mode = modeBits (eMode entry)\<rparr>, fillEntry entry))))"

subsection \<open>File handles\<close>

definition handle_Read ::
  "'p peer_fn \<Rightarrow> remoteFile \<Rightarrow> bytes \<Rightarrow> u64 \<Rightarrow> ('o, 'p, bytes) fop" where
  "handle_Read react f dest off x =
     (case ReadAt react f dest off x of
        ((n, dest, err), x) \<Rightarrow>
          (case err of
             Some e \<Rightarrow>
               (if \<not> errors_Is e OsErrClosed \<and> \<not> errors_Is e IoEOF then (fail e, x)
                else (Reply (take n dest), x))
           | None \<Rightarrow> (Reply (take n dest), x)))"

text \<open>\<open>Write\<close> returns the count together with the error number.\<close>

definition handle_Write ::
  "'p peer_fn \<Rightarrow> remoteFile \<Rightarrow> bytes \<Rightarrow> u64 \<Rightarrow> ('o, 'p) xclient \<Rightarrow>
   (u32 \<times> unit freply) \<times> ('o, 'p) xclient" where
  "handle_Write react f data off x =
     (case WriteAt react f data off x of
        ((n, err), x) \<Rightarrow> ((of_nat n, case err of None \<Rightarrow> Reply () | Some e \<Rightarrow> fail e), x))"

definition handle_Flush :: "remoteFile \<Rightarrow> ('o, 'p, unit) fop" where
  "handle_Flush f = on_ok (remoteFile_Flush f) done_with"

definition handle_Fsync :: "remoteFile \<Rightarrow> u32 \<Rightarrow> ('o, 'p, unit) fop" where
  "handle_Fsync f flags = on_ok (remoteFile_Flush f) done_with"

subsection \<open>Mounts\<close>

text \<open>
  The mount table. \<open>gomount\<close> is \<open>gofuse.Mount\<close>, which returns a server, and
  \<open>srv_unmount\<close> its \<open>Unmount\<close>; \<open>run_bin\<close> tells whether an unmount helper is installed
  and whether running it succeeds. All act on a kernel state of their own.
\<close>

record 'h mount_manager =
  mm_root :: string
  mm_mounts :: "(string \<times> 'h) list"

definition NewMountManager :: "string \<Rightarrow> 'h mount_manager" where
  "NewMountManager root = \<lparr>mm_root = root, mm_mounts = []\<rparr>"

definition Mount ::
  "(string \<Rightarrow> 'k \<Rightarrow> 'h result \<times> 'k) \<Rightarrow> string \<Rightarrow> 'c local_fs \<Rightarrow> 'k \<Rightarrow> 'h mount_manager \<Rightarrow>
   'h result \<times> 'c local_fs \<times> 'k \<times> 'h mount_manager" where
  "Mount gomount mountpoint s k m =
     (case os_MkdirAll (path_Dir mountpoint) 0x1ED s of
        (Inl e, s) \<Rightarrow> (Inl e, s, k, m)
      | (Inr _, s) \<Rightarrow>
          (case gomount mountpoint k of
             (Inl e, k) \<Rightarrow> (Inl e, s, k, m)
           | (Inr h, k) \<Rightarrow>
               (Inr h, s, k, m\<lparr>mm_mounts := AList.update mountpoint h (mm_mounts m)\<rparr>)))"

fun unmountPath ::
  "(string \<Rightarrow> string \<Rightarrow> 'k \<Rightarrow> bool \<times> 'k) \<Rightarrow> string list \<Rightarrow> string \<Rightarrow> 'k \<Rightarrow> unit result \<times> 'k" where
  "unmountPath run_bin [] mountpoint k = (Inl (Errno ENOSYS), k)"
| "unmountPath run_bin (bin # bins) mountpoint k =
     (case run_bin bin mountpoint k of
        (True, k) \<Rightarrow> (Inr (), k)
      | (False, k) \<Rightarrow> unmountPath run_bin bins mountpoint k)"

definition Unmount ::
  "('h \<Rightarrow> 'k \<Rightarrow> unit result \<times> 'k) \<Rightarrow> (string \<Rightarrow> string \<Rightarrow> 'k \<Rightarrow> bool \<times> 'k) \<Rightarrow> string \<Rightarrow> 'k \<Rightarrow>
   'h mount_manager \<Rightarrow> unit result \<times> 'k \<times> 'h mount_manager" where
  "Unmount srv_unmount run_bin mountpoint k m =
     (case map_of (mm_mounts m) mountpoint of
        None \<Rightarrow>
          (let (r, k) = unmountPath run_bin [''fusermount3'', ''fusermount''] mountpoint k
           in (r, k, m))
      | Some h \<Rightarrow>
          (let m = m\<lparr>mm_mounts := AList.delete mountpoint (mm_mounts m)\<rparr>; (r, k) = srv_unmount h k
           in (r, k, m)))"

subsection \<open>Paths of nodes\<close>

lemma JoinPath_names:
  assumes "list_all path_name ns" "path_name n"
  shows "JoinPath (rooted_path ns) n = rooted_path (ns @ [n])"
proof (cases "ns = []")
  case True
  with assms show ?thesis by (simp add: JoinPath_def rooted_path_def Clean_rooted path_names_single)
next
  case False
  then have "rooted_path ns \<noteq> [slash]" using assms(1) by (simp add: rooted_path_eq_root)
  then have "JoinPath (rooted_path ns) n = Clean (slash # (Join ns [slash] @ slash # n))"
    by (simp add: JoinPath_def rooted_path_def)
  also have "\<dots> = rooted_path (path_names (Join ns [slash]) @ [n])"
    using assms(2) by (simp add: Clean_rooted path_names_extend)
  also have "path_names (Join ns [slash]) = ns"
    using path_names_rooted_path [OF assms(1)] by (simp add: rooted_path_def)
  finally show ?thesis .
qed

lemma Base_rooted:
  assumes "list_all path_name (ns @ [n])"
  shows "Base (rooted_path (ns @ [n])) = n"
proof -
  have n: "n \<noteq> []" "last n \<noteq> slash" using assms by (auto simp: path_name_def dest: last_in_set)
  define d where "d = (if ns = [] then [slash] else rooted_path ns @ [slash])"
  have e: "rooted_path (ns @ [n]) = d @ n" by (simp add: d_def rooted_path_def Join_snoc)
  then have "TrimRight (rooted_path (ns @ [n])) [slash] = rooted_path (ns @ [n])"
    using n by (cases n rule: rev_cases) (simp_all add: TrimRight_def)
  then show ?thesis
    using path_Split_rooted(1) [OF assms] by (simp add: Base_def) (simp add: rooted_path_def)
qed

lemma foldl_JoinPath:
  "list_all path_name (ms @ ns) \<Longrightarrow> foldl JoinPath (rooted_path ms) ns = rooted_path (ms @ ns)"
  by (induction ns arbitrary: ms) (simp_all add: JoinPath_names)

subsection \<open>Properties\<close>

text \<open>
  Property C35: the path of a node is where the kernel found it. Looking up names one after
  the other from the root of the mount gives the path made of exactly these names, and the
  backend walks exactly these names, so different places in the tree are different files.
\<close>

theorem node_paths_faithful:
  assumes "list_all path_name ns"
  shows "foldl JoinPath [slash] ns = rooted_path ns \<and>
    walk_names (cleanPath (foldl JoinPath [slash] ns)) = ns \<and>
    (list_all path_name ms \<and> foldl JoinPath [slash] ms = foldl JoinPath [slash] ns \<longrightarrow> ms = ns)"
proof -
  have r: "[slash] = rooted_path []" by (simp add: rooted_path_def)
  have f: "foldl JoinPath [slash] ks = rooted_path ks" if "list_all path_name ks" for ks
    unfolding r using foldl_JoinPath [of "[]" ks] that by simp
  then show ?thesis
    using f [OF assms] assms rooted_path_inject [of ms ns] f [of ms]
    by (auto simp: walk_names_cleanPath path_names_rooted_path)
qed

theorem node_paths_faithful_witness:
  "foldl JoinPath [slash] [''src'', ''main.go''] = ''/src/main.go''"
  using node_paths_faithful [of "[''src'', ''main.go'']" "[]"]
  by (simp add: path_name_def slash_def rooted_path_def)

text \<open>
  Property C36: a rename never moves a file to another directory. Whatever the new parent
  directory is, the operation does the same: it renames the file inside its old directory,
  because only the last element of the new path reaches the server, and reports success when
  the server does.
\<close>

theorem rename_ignores_directory:
  assumes "list_all path_name ps" and "list_all path_name qs" and "path_name newName"
  shows "node_Rename react openfs ctx path name (Some (rooted_path ps)) newName flags x =
      node_Rename react openfs ctx path name (Some (rooted_path qs)) newName flags x \<and>
    node_Rename react openfs ctx path name (Some (rooted_path ps)) newName flags x =
      on_ok (update_dir react openfs ctx (JoinPath path name) (\<lambda>d. d\<lparr>dname := newName\<rparr>)) done_with x"
  using assms by (simp add: node_Rename_def fs_Rename_def JoinPath_names Base_rooted)

theorem rename_ignores_directory_witness:
  "node_Rename eof_peer example_opener None ''/a'' ''f'' (Some ''/b'') ''g'' 0 (fs_New 0 ''/n'') =
   node_Rename eof_peer example_opener None ''/a'' ''f'' (Some ''/a'') ''g'' 0 (fs_New 0 ''/n'')"
  using rename_ignores_directory [of "[''b'']" "[''a'']" "''g''" eof_peer example_opener None "''/a''" "''f''" 0
      "fs_New 0 ''/n''"]
  by (simp add: rooted_path_def path_name_def slash_def)

text \<open>
  Error numbers. An operation fails with one of four error numbers. A remote
  error whose text says that something is not found becomes \<open>ENOENT\<close>, one that says
  permission denied becomes \<open>EPERM\<close>, a broken connection becomes \<open>EIO\<close> and leaves the
  client unhealthy; and an existing file becomes \<open>EIO\<close> as well, not \<open>EEXIST\<close>.
\<close>

lemma error_numbers:
  assumes "\<not> (\<exists>t \<in> {ErrNotSupported, ErrDisconnected, CtxCanceled, CtxDeadlineExceeded}. errors_Is err t)"
    and "recordError (Inl err :: unit result) x = (Inl e, x')" and "txt = ToLower (error_text err)"
  shows "errno_of e' \<in> {ENOSYS, EIO, ENOENT, EPERM} \<and>
    (not_found_text txt \<longrightarrow> errno_of e = ENOENT) \<and>
    (\<not> not_found_text txt \<and> denied_text txt \<longrightarrow> errno_of e = EPERM) \<and>
    (\<not> not_found_text txt \<and> \<not> denied_text txt \<and> exists_text txt \<longrightarrow> errno_of e = EIO) \<and>
    (\<not> not_found_text txt \<and> \<not> denied_text txt \<and> \<not> exists_text txt \<and> isDisconnectError err \<longrightarrow>
      errno_of e = EIO \<and> unhealthy x' = Some ErrDisconnected)"
  using assms
  by (auto simp: recordError.simps normalize_cases errno_of_def Let_def drop_connection_def close_at_def
      split: if_splits option.splits)

lemma error_numbers_witness:
  "\<exists>e x'. recordError (Inl (ErrorString ''9p error: File Not Found'') :: unit result)
      (fs_New () ''/n'' :: (unit, unit) xclient) = (Inl e, x') \<and> errno_of e = ENOENT"
proof -
  let ?e = "ErrorString ''9p error: File Not Found''"
  have t: "ToLower (error_text ?e) = ''9p error: file not found''" by code_simp
  then have nf: "not_found_text (ToLower (error_text ?e))"
    unfolding t by (simp add: not_found_text_def contains_eval)
  then obtain n where "recordError (Inl ?e :: unit result) (fs_New () ''/n'' :: (unit, unit) xclient) =
      (Inl n, fs_New () ''/n'')"
    by (simp add: recordError.simps normalize_cases Let_def)
  with error_numbers [OF _ this refl] nf show ?thesis by auto
qed

text \<open>
  Attributes. The mode reported for a remote entry has the entry's nine
  permission bits and the kind directory or regular file, as its directory bit says.
\<close>

lemma mode_bits_of_entry:
  "modeBits (eMode (entryFromDir p d)) =
     (dmode d AND 0x1FF) OR (if dmode d AND 0x80000000 \<noteq> 0 then S_IFDIR else S_IFREG) \<and>
   modeBits (eMode (entryFromDir p d)) AND S_IFMT =
     (if dmode d AND 0x80000000 \<noteq> 0 then S_IFDIR else S_IFREG) \<and>
   modeBits (eMode (entryFromDir p d)) AND 0x1FF = dmode d AND 0x1FF"
proof -
  have a: "(x AND 0x1FF) AND 0x1FF = x AND 0x1FF" "(x AND 0x1FF) AND 0x80000000 = 0"
    "(x AND 0x1FF) AND 0x8000000 = 0" "(x AND 0x1FF) AND 0xF000 = 0" for x :: u32
    by (simp_all add: and.assoc)
  show ?thesis
    by (simp add: entryFromDir_def modeBits_def Perm_def Let_def ModeDir_def ModeSymlink_def S_IFDIR_def
        S_IFREG_def S_IFLNK_def S_IFMT_def bit.conj_disj_distrib2 a)
qed

text \<open>
  The mount table. Unmounting a mountpoint that was mounted unmounts the server
  that \<open>Mount\<close> returned for it and forgets it, leaving other mounts alone.
\<close>

lemma unmount_after_mount:
  assumes "Mount gomount mountpoint s k m = (Inr h, s', k', m')"
  shows "\<exists>m''. Unmount srv_unmount run_bin mountpoint k2 m' =
      (fst (srv_unmount h k2), snd (srv_unmount h k2), m'') \<and>
    map_of (mm_mounts m'') mountpoint = None \<and>
    (\<forall>q. q \<noteq> mountpoint \<longrightarrow> map_of (mm_mounts m'') q = map_of (mm_mounts m) q)"
proof -
  from assms have m': "m' = m\<lparr>mm_mounts := AList.update mountpoint h (mm_mounts m)\<rparr>"
    by (auto simp: Mount_def split: prod.splits sum.splits)
  show ?thesis
    by (simp add: m' Unmount_def update_conv delete_conv case_prod_beta)
qed

lemma unmount_after_mount_witness:
  "let (r, s', k', m') = Mount (\<lambda>mp k. (Inr mp, Suc k)) ''/m'' (empty_fs :: unit local_fs) (0 :: nat)
        (NewMountManager ''/r'')
   in \<exists>m''. Unmount (\<lambda>h k. (Inr (), k + 10)) (\<lambda>b mp k. (False, k)) ''/m'' k' m' = (Inr (), 11, m'')"
proof -
  have m: "Mount (\<lambda>mp k. (Inr mp, Suc k)) ''/m'' (empty_fs :: unit local_fs) (0 :: nat) (NewMountManager ''/r'') =
      (Inr ''/m'', empty_fs, 1, (NewMountManager ''/r'')\<lparr>mm_mounts := [(''/m'', ''/m'')]\<rparr>)"
    by (simp add: Mount_def os_MkdirAll_def path_Dir_def path_Split_def slash_def Clean_def lp_def
        ancestors_def NewMountManager_def clean_elems_def)
  show ?thesis
    using unmount_after_mount [OF m, of "\<lambda>h k. (Inr (), k + 10)" "\<lambda>b mp k. (False, k)" "1 :: nat"]
    by (auto simp: m)
qed

end
