(* ===== verification/Go_Walk.thy ===== *)
theory Go_Walk
  imports Go_Os "HOL-Library.Sublist"
begin

text \<open>
  \<open>filepath.WalkDir\<close>, \<open>filepath.Rel\<close> and the file operations the copying code uses, on the
  local file system of \<open>Go_Os\<close>. Symbolic links are never followed: an operation that would
  follow one fails as it does for a dangling link. A visitor of the walk may change its state,
  the file system included; \<open>getfs\<close> says where the file system is. The walk has fuel for its
  depth, \<open>None\<close> when it runs out.
\<close>

subsection \<open>Single operations\<close>

definition os_Lstat :: "string \<Rightarrow> 'c local_fs \<Rightarrow> 'c fnode result" where
  "os_Lstat path s =
     (case fault s (lp path) of Some e \<Rightarrow> Inl e | None \<Rightarrow>
      (case node s (lp path) of
         None \<Rightarrow> Inl (path_error ''lstat'' path (missing_errno s (lp path)))
       | Some nd \<Rightarrow> Inr nd))"

definition os_Stat :: "string \<Rightarrow> 'c local_fs \<Rightarrow> 'c fnode result" where
  "os_Stat path s =
     (case fault s (lp path) of Some e \<Rightarrow> Inl e | None \<Rightarrow>
      (case node s (lp path) of
         None \<Rightarrow> Inl (path_error ''stat'' path (missing_errno s (lp path)))
       | Some (LinkNode _) \<Rightarrow> Inl (path_error ''stat'' path ENOENT)
       | Some nd \<Rightarrow> Inr nd))"

definition os_Readlink :: "string \<Rightarrow> 'c local_fs \<Rightarrow> string result" where
  "os_Readlink path s =
     (case os_Lstat path s of
        Inl e \<Rightarrow> Inl e
      | Inr (LinkNode t) \<Rightarrow> Inr t
      | Inr _ \<Rightarrow> Inl (path_error ''readlink'' path (EOTHER 22)))"

definition os_Symlink :: "string \<Rightarrow> string \<Rightarrow> 'c local_fs \<Rightarrow> unit result \<times> 'c local_fs" where
  "os_Symlink target path s =
     (case fault s (lp path) of Some e \<Rightarrow> (Inl e, s) | None \<Rightarrow>
      (case node s (lp path) of
         Some _ \<Rightarrow> (Inl (path_error ''symlink'' path EEXIST), s)
       | None \<Rightarrow>
           (if is_dir_node (node s (parent (lp path))) then (Inr (), set_node (lp path) (LinkNode target) s)
            else (Inl (path_error ''symlink'' path (missing_errno s (lp path))), s))))"

text \<open>\<open>os.RemoveAll\<close> removes a path and everything below it; a missing path is no error.\<close>

definition below :: "lpath \<Rightarrow> lpath \<Rightarrow> bool" where
  "below p q \<longleftrightarrow> fst q = fst p \<and> take (length (snd p)) (snd q) = snd p"

definition os_RemoveAll :: "string \<Rightarrow> 'c local_fs \<Rightarrow> unit result \<times> 'c local_fs" where
  "os_RemoveAll path s =
     (case fault s (lp path) of Some e \<Rightarrow> (Inl e, s) | None \<Rightarrow>
      (Inr (), s\<lparr>nodes := filter (\<lambda>(q, _). \<not> below (lp path) q) (nodes s)\<rparr>))"

subsection \<open>Relative paths\<close>

fun strip_common :: "string list \<Rightarrow> string list \<Rightarrow> string list \<times> string list" where
  "strip_common (b # bs) (t # ts) = (if b = t then strip_common bs ts else (b # bs, t # ts))"
| "strip_common bs ts = (bs, ts)"

definition path_Rel :: "string \<Rightarrow> string \<Rightarrow> string result" where
  "path_Rel base targ =
     (let b = lp base; t = lp targ in
      if fst b \<noteq> fst t then Inl (ErrorString (''Rel: can't make '' @ targ @ '' relative to '' @ base))
      else (case strip_common (snd b) (snd t) of (bs, ts) \<Rightarrow>
        if bs \<noteq> [] \<and> hd bs = ''..''
        then Inl (ErrorString (''Rel: can't make '' @ targ @ '' relative to '' @ base))
        else if bs = [] \<and> ts = [] then Inr ''.''
        else Inr (Join (replicate (length bs) ''..'' @ ts) [slash])))"

subsection \<open>Walking\<close>

datatype walk_ctl = Go | SkipDir | Fail go_error

type_synonym ('c, 's) visitor = "string \<Rightarrow> 'c fnode option \<Rightarrow> go_error option \<Rightarrow> 's \<Rightarrow> walk_ctl \<times> 's"

function (sequential) walk_dir ::
  "nat \<Rightarrow> ('s \<Rightarrow> 'c local_fs) \<Rightarrow> ('c, 's) visitor \<Rightarrow> string \<Rightarrow> 'c fnode \<Rightarrow> 's \<Rightarrow> walk_ctl option \<times> 's"
  and walk_list ::
  "nat \<Rightarrow> ('s \<Rightarrow> 'c local_fs) \<Rightarrow> ('c, 's) visitor \<Rightarrow> string \<Rightarrow> (string \<times> 'c fnode) list \<Rightarrow> 's \<Rightarrow>
   walk_ctl option \<times> 's" where
  "walk_dir 0 getfs fn path d s = (None, s)"
| "walk_dir (Suc n) getfs fn path d s =
     (case fn path (Some d) None s of
        (Go, s1) \<Rightarrow>
          (if \<not> is_dir_node (Some d) then (Some Go, s1)
           else (case os_ReadDir path (getfs s1) of
                   Inl e \<Rightarrow>
                     (case fn path (Some d) (Some e) s1 of
                        (Go, s2) \<Rightarrow> (Some Go, s2)
                      | (SkipDir, s2) \<Rightarrow> (Some Go, s2)
                      | (Fail e, s2) \<Rightarrow> (Some (Fail e), s2))
                 | Inr ds \<Rightarrow> walk_list n getfs fn path ds s1))
      | (SkipDir, s1) \<Rightarrow> (Some (if is_dir_node (Some d) then Go else SkipDir), s1)
      | (Fail e, s1) \<Rightarrow> (Some (Fail e), s1))"
| "walk_list n getfs fn path [] s = (Some Go, s)"
| "walk_list n getfs fn path ((name, d) # ds) s =
     (case walk_dir n getfs fn (path_Join [path, name]) d s of
        (Some Go, s1) \<Rightarrow> walk_list n getfs fn path ds s1
      | (Some SkipDir, s1) \<Rightarrow> (Some Go, s1)
      | (Some (Fail e), s1) \<Rightarrow> (Some (Fail e), s1)
      | (None, s1) \<Rightarrow> (None, s1))"
  by pat_completeness auto
termination
  by (relation "measures [\<lambda>x. case x of Inl (n, _) \<Rightarrow> n | Inr (n, _) \<Rightarrow> n,
      \<lambda>x. case x of Inl _ \<Rightarrow> 0 | Inr (_, _, _, _, ds, _) \<Rightarrow> Suc (length ds)]") auto

definition WalkDir ::
  "nat \<Rightarrow> ('s \<Rightarrow> 'c local_fs) \<Rightarrow> ('c, 's) visitor \<Rightarrow> string \<Rightarrow> 's \<Rightarrow> unit result option \<times> 's" where
  "WalkDir fuel getfs fn root s =
     (let (r, s1) = (case os_Lstat root (getfs s) of
            Inl e \<Rightarrow> (case fn root None (Some e) s of (c, s1) \<Rightarrow> (Some c, s1))
          | Inr d \<Rightarrow> walk_dir fuel getfs fn root d s)
      in (case r of
            None \<Rightarrow> (None, s1)
          | Some (Fail e) \<Rightarrow> (Some (Inl e), s1)
          | Some _ \<Rightarrow> (Some (Inr ()), s1)))"

subsection \<open>Laws\<close>

lemma below_prefix: "below p q \<longleftrightarrow> fst q = fst p \<and> prefix (snd p) (snd q)"
proof -
  have "take (length xs) ys = xs \<longleftrightarrow> prefix xs ys" for xs ys :: "string list"
    by (metis append_eq_conv_conj prefix_def take_is_prefix)
  then show ?thesis by (simp add: below_def)
qed

lemma children_set: "set (children s p) = {n. node s (fst p, snd p @ [n]) \<noteq> None}"
  by (simp add: set_eq_iff children_mem node_def map_of_eq_None_iff del: not_None_eq)

lemma children_cong:
  "(\<And>n. node s (fst p, snd p @ [n]) = node t (fst p, snd p @ [n])) \<Longrightarrow> children s p = children t p"
  by (rule sorted_distinct_set_unique) (auto simp: children_set, simp_all add: children_def)

lemma node_depth:
  assumes "node s p \<noteq> None" "\<forall>q \<in> fst ` set (nodes s). length (snd q) < n" "0 < n"
  shows "length (snd p) < n"
proof (cases "snd p = []")
  case False
  with assms(1) have "p \<in> fst ` set (nodes s)" by (simp add: node_def map_of_eq_None_iff del: not_None_eq)
  with assms(2) show ?thesis by blast
qed (use assms(3) in simp)

lemma ReadDir_below_cong:
  assumes "node s (lp path) = Some (DirNode m)" "\<And>q. below (lp path) q \<Longrightarrow> node s q = node t q"
    and "fault s (lp path) = fault t (lp path)"
  shows "os_ReadDir path s = os_ReadDir path t"
proof -
  have sub: "node s (fst (lp path), snd (lp path) @ [n]) = node t (fst (lp path), snd (lp path) @ [n])" for n
    using assms(2) by (simp add: below_def)
  moreover have "node t (lp path) = Some (DirNode m)" using assms(1,2) by (simp add: below_def)
  ultimately show ?thesis
    using assms(1,3) children_cong [of s "lp path" t]
    by (cases "fault t (lp path)") (simp_all add: os_ReadDir_def Let_def)
qed

text \<open>The relative path of an entry, and where it leads under another root.\<close>

lemma strip_common_prefix: "strip_common es (es @ ns) = ([], ns)"
  by (induction es) (cases ns; simp)+

lemma path_Rel_under:
  "lp path = (fst (lp src), snd (lp src) @ ns) \<Longrightarrow>
   path_Rel src path = Inr (if ns = [] then ''.'' else Join ns [slash])"
  by (simp add: path_Rel_def Let_def strip_common_prefix)

lemma Split_Join_names: "list_all path_name ns \<Longrightarrow> ns \<noteq> [] \<Longrightarrow> Split (Join ns [slash]) slash = ns"
  by (rule Split_Join) (auto simp: list_all_iff path_name_def)

lemma Join_names_not_dot: "list_all path_name ns \<Longrightarrow> ns \<noteq> [] \<Longrightarrow> Join ns [slash] \<noteq> ''.''"
  using Split_Join_names [of ns] by (auto simp: Split_id slash_def path_name_def)

lemma lp_Join_rel:
  assumes "dst \<noteq> []" "list_all path_name ns" "ns \<noteq> []"
  shows "path_Join [dst, Join ns [slash]] = path_Join (dst # ns)"
    and "lp (path_Join [dst, Join ns [slash]]) = (fst (lp dst), snd (lp dst) @ ns)"
proof -
  show j: "path_Join [dst, Join ns [slash]] = path_Join (dst # ns)"
    using assms by (simp add: path_Join_def Join_Cons)
  show "lp (path_Join [dst, Join ns [slash]]) = (fst (lp dst), snd (lp dst) @ ns)"
    unfolding j by (rule lp_path_Join) (rule assms)+
qed

lemma first_name_prefix:
  assumes "list_all path_name ns" "ns \<noteq> []" "slash \<notin> set g"
  shows "Join ns [slash] = g \<or> HasPrefix (Join ns [slash]) (g @ [slash]) \<longleftrightarrow> hd ns = g"
proof
  assume "Join ns [slash] = g \<or> HasPrefix (Join ns [slash]) (g @ [slash])"
  then consider "Join ns [slash] = g" | r where "Join ns [slash] = g @ slash # r"
    by (auto simp: HasPrefix_iff)
  then show "hd ns = g"
    using Split_Join_names [OF assms(1,2)] assms(3) by cases (auto simp: Split_append_sep Split_id)
next
  assume "hd ns = g"
  then show "Join ns [slash] = g \<or> HasPrefix (Join ns [slash]) (g @ [slash])"
    using assms(2) by (cases ns; cases "tl ns") (auto simp: HasPrefix_iff)
qed

text \<open>
  The contract between a walk and its visitor: the visitor keeps the walked tree as it was,
  turns every reported error into a failure, and establishes \<open>post\<close> for each entry it is
  called on, without destroying it for others. It may skip only directories that \<open>skips\<close>
  allows. \<open>under ns\<close> is the path of the entry with relative elements \<open>ns\<close>.
\<close>

locale walker =
  fixes getfs :: "'s \<Rightarrow> 'c local_fs" and fn :: "('c, 's) visitor" and src :: string
    and tree :: "'c local_fs" and inv :: "'s \<Rightarrow> bool"
    and skips :: "string list \<Rightarrow> bool" and post :: "string list \<Rightarrow> 's \<Rightarrow> bool"
  assumes src_nonempty: "\<And>s. inv s \<Longrightarrow> src \<noteq> []"
    and tree_ok: "\<And>s. inv s \<Longrightarrow> fs_ok tree"
    and tree_names: "\<And>s ns. inv s \<Longrightarrow> node tree (fst (lp src), snd (lp src) @ ns) \<noteq> None \<Longrightarrow> list_all path_name ns"
    and same_tree: "\<And>s q. inv s \<Longrightarrow> below (lp src) q \<Longrightarrow> node (getfs s) q = node tree q"
    and error_fails: "\<And>path d e s. \<exists>e' s'. fn path d (Some e) s = (Fail e', s')"
    and visit: "\<And>s s' c path ns d.
      inv s \<Longrightarrow> path \<noteq> [] \<Longrightarrow> lp path = (fst (lp src), snd (lp src) @ ns) \<Longrightarrow>
      node tree (lp path) = Some d \<Longrightarrow>
      fn path (Some d) None s = (c, s') \<Longrightarrow> (\<And>e. c \<noteq> Fail e) \<Longrightarrow>
      inv s' \<and> post ns s' \<and> (\<forall>ms. post ms s \<longrightarrow> post ms s') \<and>
      (c = SkipDir \<longrightarrow> is_dir_node (Some d) \<and> skips ns)"
begin

definition under :: "string list \<Rightarrow> lpath" where
  "under ns = (fst (lp src), snd (lp src) @ ns)"

lemma below_under: "below (lp src) (under ns)"
  by (simp add: below_def under_def)

definition reached :: "string list \<Rightarrow> string list \<Rightarrow> bool" where
  "reached ns ms \<longleftrightarrow> node tree (under (ns @ ms)) \<noteq> None \<and> (\<forall>k < length ms. \<not> skips (ns @ take k ms))"

lemma reached_step:
  "reached ns (n # ms) \<longleftrightarrow> \<not> skips ns \<and> reached (ns @ [n]) ms"
  by (auto simp: reached_def less_Suc_eq_0_disj)

lemma reached_dir:
  assumes "inv s" "reached ns (n # ms)"
  shows "is_dir_node (node tree (under ns))" "node tree (under (ns @ [n])) \<noteq> None"
proof -
  have full: "node tree (fst (lp src), snd (lp src) @ ns @ n # ms) \<noteq> None"
    using assms(2) by (simp add: reached_def under_def)
  show "is_dir_node (node tree (under ns))"
    using fs_ok_prefix [OF tree_ok [OF assms(1)] full, of "length (snd (lp src) @ ns)"] by (simp add: under_def)
  show "node tree (under (ns @ [n])) \<noteq> None"
    using fs_ok_prefix [OF tree_ok [OF assms(1)] full, of "Suc (length (snd (lp src) @ ns))"] full
    by (cases ms) (auto simp: under_def elim!: is_dir_node.elims)
qed

text \<open>What a walk that was not stopped has done, below one entry and below several.\<close>

definition walked :: "string list \<Rightarrow> 's \<Rightarrow> 's \<Rightarrow> bool" where
  "walked ns s s' \<longleftrightarrow> inv s' \<and> (\<forall>ms. post ms s \<longrightarrow> post ms s') \<and> (\<forall>ms. reached ns ms \<longrightarrow> post (ns @ ms) s')"

definition walks :: "nat \<Rightarrow> bool" where
  "walks n \<longleftrightarrow> (\<forall>path ns d s c s'. inv s \<longrightarrow> path \<noteq> [] \<longrightarrow> lp path = under ns \<longrightarrow>
     node tree (under ns) = Some d \<longrightarrow> walk_dir n getfs fn path d s = (Some c, s') \<longrightarrow>
     (\<forall>e. c \<noteq> Fail e) \<longrightarrow> c = Go \<and> walked ns s s')"

lemma names_under: "inv s \<Longrightarrow> node tree (under ns) \<noteq> None \<Longrightarrow> list_all path_name ns"
  unfolding under_def by (rule tree_names)

lemma lp_child:
  assumes "inv s" "path \<noteq> []" "lp path = under ns" "node tree (under (ns @ [m])) \<noteq> None"
  shows "lp (path_Join [path, m]) = under (ns @ [m])" "path_Join [path, m] \<noteq> []"
proof -
  have "path_name m" using names_under [OF assms(1,4)] by simp
  then show l: "lp (path_Join [path, m]) = under (ns @ [m])"
    using lp_path_Join [OF assms(2), of "[m]"] assms(3) by (simp add: under_def)
  from l show "path_Join [path, m] \<noteq> []" by (auto simp: under_def lp_dot)
qed

lemma walk_list_walked:
  assumes "walks n" "inv s" "path \<noteq> []" "lp path = under ns"
    and "\<forall>(m, d) \<in> set ds. node tree (under (ns @ [m])) = Some d"
    and "walk_list n getfs fn path ds s = (Some c, s')" "\<forall>e. c \<noteq> Fail e"
  shows "c = Go \<and> inv s' \<and> (\<forall>ms. post ms s \<longrightarrow> post ms s') \<and>
    (\<forall>(m, d) \<in> set ds. \<forall>ms. reached (ns @ [m]) ms \<longrightarrow> post (ns @ m # ms) s')"
  using assms(2,5-7)
proof (induction ds arbitrary: s)
  case (Cons a ds)
  obtain m d where a: "a = (m, d)" by (cases a)
  obtain r s1 where w: "walk_dir n getfs fn (path_Join [path, m]) d s = (r, s1)"
    by (cases "walk_dir n getfs fn (path_Join [path, m]) d s")
  have there: "node tree (under (ns @ [m])) = Some d" using Cons(3) a by simp
  from Cons(4) obtain c1 where r: "r = Some c1" by (auto simp: a w split: option.splits)
  have "\<forall>e. c1 \<noteq> Fail e" using Cons(4,5) a w r by (auto split: walk_ctl.splits)
  then have c1: "c1 = Go" and w1: "walked (ns @ [m]) s s1"
    using assms(1) lp_child [OF Cons(2) assms(3,4), of m] there w Cons(2) unfolding walks_def r by auto
  from Cons(4) have "walk_list n getfs fn path ds s1 = (Some c, s')" by (simp add: a w r c1)
  with Cons.IH [of s1] w1 Cons(3,5) show ?case by (auto simp: walked_def a)
qed simp

lemma walk_dir_walked: "walks n"
proof (induction n)
  case 0
  show ?case by (simp add: walks_def)
next
  case (Suc n)
  have "c = Go \<and> walked ns s s'"
    if i: "inv s" and p: "path \<noteq> []" "lp path = under ns" and d: "node tree (under ns) = Some d"
      and w: "walk_dir (Suc n) getfs fn path d s = (Some c, s')" and nf: "\<forall>e. c \<noteq> Fail e"
    for path ns d s c s'
  proof -
    obtain c1 s1 where f: "fn path (Some d) None s = (c1, s1)" by (cases "fn path (Some d) None s")
    have "\<And>e. c1 \<noteq> Fail e" using w f nf by auto
    then have v: "inv s1" "post ns s1" "\<forall>ms. post ms s \<longrightarrow> post ms s1"
        "c1 = SkipDir \<longrightarrow> is_dir_node (Some d) \<and> skips ns"
      using visit [OF i p(1) p(2) [unfolded under_def] d [folded p(2)] f] by blast+
    have stop: "walked ns s s1" if "\<not> is_dir_node (Some d) \<or> skips ns"
    proof -
      have "post (ns @ ms) s1" if r: "reached ns ms" for ms
      proof (cases ms)
        case (Cons a as)
        from r have "\<not> skips ns" by (simp add: Cons reached_step)
        with reached_dir(1) [OF v(1) r [unfolded Cons]] \<open>\<not> is_dir_node (Some d) \<or> skips ns\<close> d
        show ?thesis by simp
      qed (use v in simp)
      with v show ?thesis by (simp add: walked_def)
    qed
    show ?thesis
    proof (cases "c1 = SkipDir \<or> \<not> is_dir_node (Some d)")
      case True
      with w f v(4) \<open>\<And>e. c1 \<noteq> Fail e\<close> have "c = Go" "s' = s1" by (cases c1; auto)+
      with stop True v(4) show ?thesis by auto
    next
      case False
      then obtain m where m: "d = DirNode m" by (cases d) auto
      with False \<open>\<And>e. c1 \<noteq> Fail e\<close> have c1: "c1 = Go" by (cases c1) auto
      have tr: "node (getfs s1) (lp path) = Some (DirNode m)"
        using same_tree [OF v(1) below_under] d m p(2) by simp
      show ?thesis
      proof (cases "os_ReadDir path (getfs s1)")
        case (Inl e)
        obtain e' s2 where "fn path (Some d) (Some e) s1 = (Fail e', s2)"
          using error_fails by blast
        with w f c1 m Inl have "Fail e' = c" by simp
        with nf show ?thesis by blast
      next
        case (Inr ds)
        have ds: "(k, x) \<in> set ds \<longleftrightarrow> node tree (under (ns @ [k])) = Some x" for k x
          unfolding ReadDir_mem [OF Inr] using same_tree [OF v(1) below_under, of "ns @ [k]"] p(2)
          by (simp add: under_def)
        have "walk_list n getfs fn path ds s1 = (Some c, s')" using w f c1 m Inr by simp
        moreover have "\<forall>(k, x) \<in> set ds. node tree (under (ns @ [k])) = Some x" using ds by blast
        ultimately have k: "c = Go" "inv s'" "\<forall>ms. post ms s1 \<longrightarrow> post ms s'"
            "\<forall>(k, x) \<in> set ds. \<forall>ms. reached (ns @ [k]) ms \<longrightarrow> post (ns @ k # ms) s'"
          using walk_list_walked [OF Suc v(1) p _ _ nf] by blast+
        have "post (ns @ ms) s'" if r: "reached ns ms" for ms
        proof (cases ms)
          case (Cons a as)
          from reached_dir(2) [OF v(1) r [unfolded Cons]] ds obtain x where "(a, x) \<in> set ds" by auto
          with k(4) r show ?thesis by (auto simp: Cons reached_step)
        qed (use v k in simp)
        with k v show ?thesis by (simp add: walked_def)
      qed
    qed
  qed
  then show ?case unfolding walks_def by blast
qed

text \<open>
  A walk that succeeds has established \<open>post\<close> for every entry of the tree that no skipped
  directory hides.
\<close>

theorem WalkDir_visits:
  assumes "inv s" "WalkDir fuel getfs fn src s = (Some (Inr ()), s')"
  shows "inv s' \<and> (\<forall>ns. node tree (under ns) \<noteq> None \<and> (\<forall>k < length ns. \<not> skips (take k ns)) \<longrightarrow> post ns s')"
proof -
  have root: "lp src = under []" by (simp add: under_def)
  show ?thesis
  proof (cases "os_Lstat src (getfs s)")
    case (Inl e)
    obtain e' s2 where "fn src None (Some e) s = (Fail e', s2)" using error_fails by blast
    with assms(2) Inl show ?thesis by (simp add: WalkDir_def)
  next
    case (Inr d)
    then have "node (getfs s) (lp src) = Some d"
      by (auto simp: os_Lstat_def split: option.splits)
    then have d: "node tree (under []) = Some d"
      using same_tree [OF assms(1) below_under, of "[]"] root by simp
    obtain r s1 where w: "walk_dir fuel getfs fn src d s = (r, s1)" by (cases "walk_dir fuel getfs fn src d s")
    with assms(2) Inr obtain c where "r = Some c" "\<forall>e. c \<noteq> Fail e" "s1 = s'"
      by (auto simp: WalkDir_def split: option.splits walk_ctl.splits)
    with walk_dir_walked [of fuel] w assms(1) src_nonempty [OF assms(1)] root d have "walked [] s s'"
      unfolding walks_def by blast
    then show ?thesis by (auto simp: walked_def reached_def)
  qed
qed

text \<open>Fuel beyond the depth of the tree is never used up.\<close>

lemma walk_list_returns:
  assumes "\<And>path ns d s. inv s \<Longrightarrow> path \<noteq> [] \<Longrightarrow> lp path = under ns \<Longrightarrow> length ns = k \<Longrightarrow>
      node tree (under ns) = Some d \<Longrightarrow> fst (walk_dir n getfs fn path d s) \<noteq> None"
    and "inv s" "path \<noteq> []" "lp path = under ns" "Suc (length ns) = k"
    and "\<forall>(m, d) \<in> set ds. node tree (under (ns @ [m])) = Some d"
  shows "fst (walk_list n getfs fn path ds s) \<noteq> None"
  using assms(2,6)
proof (induction ds arbitrary: s)
  case (Cons a ds)
  obtain m d where a: "a = (m, d)" by (cases a)
  obtain r s1 where w: "walk_dir n getfs fn (path_Join [path, m]) d s = (r, s1)"
    by (cases "walk_dir n getfs fn (path_Join [path, m]) d s")
  have there: "node tree (under (ns @ [m])) = Some d" using Cons(3) a by simp
  have "r \<noteq> None"
    using assms(1) [OF Cons(2) _ _ _ there] lp_child [OF Cons(2) assms(3,4), of m] there assms(5) w by force
  then obtain c1 where r: "r = Some c1" by auto
  show ?case
  proof (cases "c1 = Go")
    case True
    then have "walked (ns @ [m]) s s1"
      using walk_dir_walked [of n] lp_child [OF Cons(2) assms(3,4), of m] there w Cons(2) r
      unfolding walks_def by blast
    then have "inv s1" by (simp add: walked_def)
    from Cons.IH [OF this] Cons(3) show ?thesis by (simp add: a w r True)
  qed (simp add: a w r split: walk_ctl.split)
qed simp

lemma walk_dir_returns:
  assumes "\<forall>ns. node tree (under ns) \<noteq> None \<longrightarrow> length ns < fuel"
    and "inv s" "path \<noteq> []" "lp path = under ns" "node tree (under ns) = Some d" "n + length ns = fuel"
  shows "fst (walk_dir n getfs fn path d s) \<noteq> None"
  using assms(2-6)
proof (induction n arbitrary: path ns d s)
  case 0
  with assms(1) show ?case by auto
next
  case (Suc n)
  obtain c1 s1 where f: "fn path (Some d) None s = (c1, s1)" by (cases "fn path (Some d) None s")
  show ?case
  proof (cases "c1 = Go \<and> is_dir_node (Some d)")
    case False
    then show ?thesis by (cases c1) (auto simp: f)
  next
    case True
    then have i: "inv s1"
      using visit [OF Suc(2,3) Suc(4) [unfolded under_def] Suc(5) [folded Suc(4)] f] by blast
    show ?thesis
    proof (cases "os_ReadDir path (getfs s1)")
      case (Inl e)
      obtain e' s2 where "fn path (Some d) (Some e) s1 = (Fail e', s2)" using error_fails by blast
      with True Inl show ?thesis by (simp add: f)
    next
      case (Inr ds)
      have "\<forall>(m, x) \<in> set ds. node tree (under (ns @ [m])) = Some x"
        using ReadDir_mem [OF Inr] same_tree [OF i below_under] Suc(4) by (auto simp: under_def)
      from walk_list_returns [OF Suc.IH i Suc(3,4) _ this, of "Suc (length ns)"] Suc(6)
      have "fst (walk_list n getfs fn path ds s1) \<noteq> None" by simp
      with True Inr show ?thesis by (simp add: f)
    qed
  qed
qed

theorem WalkDir_returns:
  assumes "\<forall>ns. node tree (under ns) \<noteq> None \<longrightarrow> length ns < fuel" "inv s"
  shows "fst (WalkDir fuel getfs fn src s) \<noteq> None"
proof (cases "os_Lstat src (getfs s)")
  case (Inl e)
  then show ?thesis by (auto simp: WalkDir_def split: prod.splits walk_ctl.splits)
next
  case (Inr d)
  have root: "lp src = under []" by (simp add: under_def)
  from Inr have "node (getfs s) (lp src) = Some d" by (auto simp: os_Lstat_def split: option.splits)
  then have "node tree (under []) = Some d"
    using same_tree [OF assms(2) below_under, of "[]"] root by simp
  from walk_dir_returns [OF assms src_nonempty [OF assms(2)] root this, of fuel]
  have "fst (walk_dir fuel getfs fn src d s) \<noteq> None" by simp
  with Inr show ?thesis
    by (auto simp: WalkDir_def split: prod.splits walk_ctl.splits option.splits)
qed

end

lemma walk_list_map:
  assumes "\<And>p d s. walk_dir n get2 fn2 p d (h s) =
      (fst (walk_dir n get1 fn1 p d s), h (snd (walk_dir n get1 fn1 p d s)))"
  shows "walk_list n get2 fn2 p ds (h s) =
    (fst (walk_list n get1 fn1 p ds s), h (snd (walk_list n get1 fn1 p ds s)))"
proof (induction ds arbitrary: s)
  case (Cons a ds)
  obtain m d where a: "a = (m, d)" by (cases a)
  obtain c s1 where "walk_dir n get1 fn1 (path_Join [p, m]) d s = (c, s1)"
    by (cases "walk_dir n get1 fn1 (path_Join [p, m]) d s")
  with assms [of "path_Join [p, m]" d s] Cons show ?case
    by (auto simp: a split: option.split walk_ctl.split)
qed simp

lemma walk_dir_map:
  assumes "\<And>p d e s. fn2 p d e (h s) = (fst (fn1 p d e s), h (snd (fn1 p d e s)))"
    and "\<And>s. get2 (h s) = get1 s"
  shows "walk_dir n get2 fn2 p d (h s) =
    (fst (walk_dir n get1 fn1 p d s), h (snd (walk_dir n get1 fn1 p d s)))"
proof (induction n arbitrary: p d s)
  case (Suc n)
  obtain c s1 where f: "fn1 p (Some d) None s = (c, s1)" by (cases "fn1 p (Some d) None s")
  show ?case
  proof (cases "os_ReadDir p (get1 s1)")
    case (Inl e)
    obtain c2 s2 where "fn1 p (Some d) (Some e) s1 = (c2, s2)" by (cases "fn1 p (Some d) (Some e) s1")
    with Inl f show ?thesis by (cases c; cases c2) (simp_all add: assms)
  next
    case (Inr ds)
    with f walk_list_map [OF Suc.IH] show ?thesis by (cases c) (simp_all add: assms)
  qed
qed simp

text \<open>Two walks that a map between their states relates visit by visit are related as a whole.\<close>

lemma WalkDir_map:
  assumes "\<And>p d e s. fn2 p d e (h s) = (fst (fn1 p d e s), h (snd (fn1 p d e s)))"
    and "\<And>s. get2 (h s) = get1 s"
  shows "WalkDir n get2 fn2 root (h s) =
    (fst (WalkDir n get1 fn1 root s), h (snd (WalkDir n get1 fn1 root s)))"
proof (cases "os_Lstat root (get1 s)")
  case (Inl e)
  obtain c s1 where "fn1 root None (Some e) s = (c, s1)" by (cases "fn1 root None (Some e) s")
  with Inl show ?thesis by (cases c) (simp_all add: WalkDir_def assms)
next
  case (Inr d)
  obtain c s1 where "walk_dir n get1 fn1 root d s = (c, s1)" by (cases "walk_dir n get1 fn1 root d s")
  with Inr walk_dir_map [of fn2 h fn1 get2 get1 n root d s, OF assms] show ?thesis
    by (simp add: WalkDir_def assms(2) split: option.split walk_ctl.split)
qed

end
