(* ===== verification/Sync.thy ===== *)
theory Sync
  imports Go_Walk
begin

text \<open>
  Package \<open>internal/sync\<close>: copying a directory tree on the local file system, and mirroring
  it by removing what the source does not have. Files hold bytes. The state of a walk is the
  file system and the relative paths seen so far.
\<close>

record sync_state =
  sy_fs :: "bytes local_fs"
  seen :: "string list"

definition skip :: "string \<Rightarrow> bool" where
  "skip rel \<longleftrightarrow> rel = ''.git'' \<or> HasPrefix rel (''.git'' @ [slash])"

definition ensureDir :: "string \<Rightarrow> u32 \<Rightarrow> 'c local_fs \<Rightarrow> unit result \<times> 'c local_fs" where
  "ensureDir path mode s =
     (case os_Stat path s of
        Inr nd \<Rightarrow>
          (if is_dir_node (Some nd) then (Inr (), s)
           else (Inl (WrapError (''mkdir '' @ path @ '': file already exists'') OsErrExist), s))
      | Inl err \<Rightarrow>
          (if \<not> errors_Is err OsErrNotExist then (Inl err, s) else os_MkdirAll path mode s))"

text \<open>
  The target is truncated before the source is read, so copying a file onto itself empties it.
\<close>

definition copyFile :: "string \<Rightarrow> string \<Rightarrow> string \<Rightarrow> u32 \<Rightarrow> bytes local_fs \<Rightarrow> unit result \<times> bytes local_fs" where
  "copyFile src dst root mode s =
     (let par = path_Dir dst in
      case (if par \<noteq> root then ensureDir par 0x1ED s else (Inr (), s)) of
        (Inl e, s) \<Rightarrow> (Inl e, s)
      | (Inr _, s) \<Rightarrow>
          (case os_ReadFile src s of
             Inl e \<Rightarrow> (Inl e, s)
           | Inr _ \<Rightarrow>
               (case os_WriteFile dst [] mode s of
                  (Inl e, s) \<Rightarrow> (Inl e, s)
                | (Inr _, s) \<Rightarrow>
                    (case os_ReadFile src s of
                       Inl e \<Rightarrow> (Inl e, s)
                     | Inr data \<Rightarrow> os_WriteFile dst data mode s))))"

definition ctl_of :: "unit result \<Rightarrow> walk_ctl" where
  "ctl_of r = (case r of Inl e \<Rightarrow> Fail e | Inr _ \<Rightarrow> Go)"

definition on_fs :: "(bytes local_fs \<Rightarrow> unit result \<times> bytes local_fs) \<Rightarrow> sync_state \<Rightarrow> walk_ctl \<times> sync_state" where
  "on_fs f st = (let (r, s) = f (sy_fs st) in (ctl_of r, st\<lparr>sy_fs := s\<rparr>))"

text \<open>What the walk does with one entry of the source.\<close>

definition copy_visit :: "string \<Rightarrow> string \<Rightarrow> (bytes, sync_state) visitor" where
  "copy_visit src dst path d err st =
     (case err of
        Some e \<Rightarrow> (Fail e, st)
      | None \<Rightarrow>
          (case path_Rel src path of
             Inl e \<Rightarrow> (Fail e, st)
           | Inr rel \<Rightarrow>
               (if rel = ''.'' then (Go, st)
                else if skip rel then (if is_dir_node d then (SkipDir, st) else (Go, st))
                else (let st = st\<lparr>seen := rel # seen st\<rparr>; target = path_Join [dst, rel] in
                  (case os_Lstat path (sy_fs st) of
                     Inl e \<Rightarrow> (Fail e, st)
                   | Inr (DirNode m) \<Rightarrow> on_fs (ensureDir target (and m 0x1FF)) st
                   | Inr (LinkNode _) \<Rightarrow>
                       (case os_Readlink path (sy_fs st) of
                          Inl e \<Rightarrow> (Fail e, st)
                        | Inr link \<Rightarrow>
                            on_fs (\<lambda>s. let (_, s) = os_Remove target s in os_Symlink link target s) st)
                   | Inr (FileNode m _) \<Rightarrow> on_fs (copyFile path target dst (and m 0x1FF)) st)))))"

definition mirror_visit :: "string \<Rightarrow> (bytes, sync_state) visitor" where
  "mirror_visit dst path d err st =
     (case err of
        Some e \<Rightarrow> (Fail e, st)
      | None \<Rightarrow>
          (case path_Rel dst path of
             Inl e \<Rightarrow> (Fail e, st)
           | Inr rel \<Rightarrow>
               (if rel = ''.'' then (Go, st)
                else if rel \<in> set (seen st) then (Go, st)
                else on_fs (os_RemoveAll path) st)))"

definition CopyTree ::
  "nat \<Rightarrow> bool \<Rightarrow> string \<Rightarrow> string \<Rightarrow> bytes local_fs \<Rightarrow> unit result option \<times> bytes local_fs" where
  "CopyTree fuel mirror src dst s =
     (case WalkDir fuel sy_fs (copy_visit src dst) src \<lparr>sy_fs = s, seen = []\<rparr> of
        (Some (Inr _), st) \<Rightarrow>
          (if mirror then (case WalkDir fuel sy_fs (mirror_visit dst) dst st of (r, st) \<Rightarrow> (r, sy_fs st))
           else (Some (Inr ()), sy_fs st))
      | (r, st) \<Rightarrow> (r, sy_fs st))"

text \<open>
  Mirroring removes an extra directory and then fails on it: the walk reads the directory
  after the visitor has removed it, and the visitor returns the error of that read. With an
  extra directory in the destination the copy is complete but reported as failed.
\<close>

definition extra_dir_fs :: "bytes local_fs" where
  "extra_dir_fs = \<lparr>nodes = [((True, [''src'']), DirNode 0x1ED), ((True, [''src'', ''f'']), FileNode 0x1A4 ''x''),
     ((True, [''dst'']), DirNode 0x1ED), ((True, [''dst'', ''old'']), DirNode 0x1ED)], fault = (\<lambda>_. None)\<rparr>"

lemma mirror_extra_directory_fails:
  "case CopyTree 9 True ''/src'' ''/dst'' extra_dir_fs of (r, s) \<Rightarrow>
     r = Some (Inl (path_error ''open'' ''/dst/old'' ENOENT)) \<and>
     node s (lp ''/dst/f'') = Some (FileNode 0x1A4 ''x'') \<and> node s (lp ''/dst/old'') = None"
  by code_simp

subsection \<open>What each step changes\<close>

text \<open>Nothing that was there is lost, except possibly at \<open>p\<close>; changes are confined to \<open>Q\<close>.\<close>

definition only_changes :: "lpath set \<Rightarrow> lpath option \<Rightarrow> 'c local_fs \<Rightarrow> 'c local_fs \<Rightarrow> bool" where
  "only_changes Q p s s' \<longleftrightarrow>
     (\<forall>q n. Some q \<noteq> p \<longrightarrow> node s q = Some n \<longrightarrow> node s' q = Some n) \<and>
     (\<forall>q. node s' q \<noteq> node s q \<longrightarrow> q \<in> Q)"

lemma only_changes_refl [simp]: "only_changes Q p s s"
  by (simp add: only_changes_def)

lemma only_changes_trans:
  "only_changes Q p s t \<Longrightarrow> only_changes Q p t u \<Longrightarrow> only_changes Q p s u"
  unfolding only_changes_def by metis

lemma only_changes_mono:
  "only_changes Q p s t \<Longrightarrow> Q \<subseteq> Q' \<Longrightarrow> p = None \<or> p = p' \<Longrightarrow> only_changes Q' p' s t"
  unfolding only_changes_def by blast

lemma MkdirAll_changes:
  "only_changes (set (ancestors (lp path))) None s (snd (os_MkdirAll path perm s))"
  unfolding only_changes_def os_MkdirAll_def
  using mkdirs_keeps [OF ancestors_props(1)] mkdirs_other [OF ancestors_props(1)] by blast

lemma ensureDir_effect:
  assumes "ensureDir path mode s = (r, s')"
  shows "only_changes (set (ancestors (lp path))) None s s'"
    and "r = Inr () \<Longrightarrow> is_dir_node (node s' (lp path))"
proof -
  have "s' = s \<or> os_MkdirAll path mode s = (r, s')"
    using assms by (auto simp: ensureDir_def split: sum.splits if_splits)
  then show "only_changes (set (ancestors (lp path))) None s s'"
    using MkdirAll_changes [of path s mode] by auto
  show "is_dir_node (node s' (lp path))" if "r = Inr ()"
    using assms that MkdirAll_dir [of path mode s s']
    by (auto simp: ensureDir_def os_Stat_def split: sum.splits if_splits option.splits fnode.splits)
qed

lemma WriteFile_effect:
  assumes "os_WriteFile path c perm s = (Inr (), s')"
  shows "only_changes {lp path} (Some (lp path)) s s'" "\<exists>m. node s' (lp path) = Some (FileNode m c)"
proof -
  show "only_changes {lp path} (Some (lp path)) s s'"
    using WriteFile_node [of _ path c perm s] assms by (auto simp: only_changes_def)
  have "snd (lp path) \<noteq> []" using assms by (auto simp: os_WriteFile_def node_def Let_def split: option.splits)
  with assms show "\<exists>m. node s' (lp path) = Some (FileNode m c)"
    by (auto simp: os_WriteFile_def Let_def split: option.splits fnode.splits if_splits)
qed

lemma Remove_Symlink_effect:
  assumes "os_Symlink link target (snd (os_Remove target s)) = (Inr (), s')"
  shows "only_changes {lp target} (Some (lp target)) s s'" "node s' (lp target) = Some (LinkNode link)"
proof -
  let ?s = "snd (os_Remove target s)"
  have ne: "snd (lp target) \<noteq> []"
    using assms by (auto simp: os_Symlink_def node_def Let_def split: option.splits if_splits)
  have "s' = set_node (lp target) (LinkNode link) ?s"
    using assms by (auto simp: os_Symlink_def Let_def split: option.splits if_splits)
  with ne Remove_node [of _ target s]
  show "only_changes {lp target} (Some (lp target)) s s'" "node s' (lp target) = Some (LinkNode link)"
    by (auto simp: only_changes_def)
qed

lemma copyFile_effect:
  assumes "copyFile src dst root mode s = (Inr (), s')"
    and "lp src \<noteq> lp dst" "node s (lp src) = Some (FileNode m c)"
  shows "only_changes (insert (lp dst) (set (ancestors (lp (path_Dir dst))))) (Some (lp dst)) s s'"
    and "\<exists>m. node s' (lp dst) = Some (FileNode m c)"
proof -
  let ?Q = "insert (lp dst) (set (ancestors (lp (path_Dir dst))))"
  obtain s1 s2 d where s1: "s1 = s \<or> ensureDir (path_Dir dst) 0x1ED s = (Inr (), s1)"
    and s2: "os_WriteFile dst [] mode s1 = (Inr (), s2)"
    and d: "os_ReadFile src s2 = Inr d" and w: "os_WriteFile dst d mode s2 = (Inr (), s')"
    using assms(1) by (auto simp: copyFile_def Let_def split: prod.splits sum.splits if_splits)
  have 1: "only_changes ?Q (Some (lp dst)) s s1"
    using s1
  proof
    assume "ensureDir (path_Dir dst) 0x1ED s = (Inr (), s1)"
    from ensureDir_effect(1) [OF this] show ?thesis by (rule only_changes_mono) auto
  qed simp
  have 2: "only_changes ?Q (Some (lp dst)) s1 s2" "only_changes ?Q (Some (lp dst)) s2 s'"
    by (rule only_changes_mono [OF WriteFile_effect(1) [OF s2]], simp, simp)
      (rule only_changes_mono [OF WriteFile_effect(1) [OF w]], simp, simp)
  show "only_changes ?Q (Some (lp dst)) s s'" by (rule only_changes_trans [OF 1 only_changes_trans [OF 2]])
  have "node s2 (lp src) = Some (FileNode m c)"
    using only_changes_trans [OF 1 2(1)] assms(2,3) unfolding only_changes_def by blast
  with d have "d = c" by (auto simp: os_ReadFile_def Let_def split: option.splits)
  with WriteFile_effect(2) [OF w] show "\<exists>m. node s' (lp dst) = Some (FileNode m c)" by simp
qed

subsection \<open>The copy\<close>

text \<open>A target that is a copy of a source node.\<close>

fun copied :: "'c fnode \<Rightarrow> 'c fnode option \<Rightarrow> bool" where
  "copied (DirNode _) t = is_dir_node t"
| "copied (FileNode _ c) (Some (FileNode _ d)) = (c = d)"
| "copied (LinkNode l) (Some (LinkNode k)) = (l = k)"
| "copied _ _ = False"

lemma copied_exists: "copied d t \<Longrightarrow> t \<noteq> None"
  by (cases d; cases t) auto

text \<open>
  The paths a copy may change: the counterpart of a source entry outside \<open>.git\<close>, and the
  destination with the directories above it.
\<close>

definition counterpart :: "string \<Rightarrow> string list \<Rightarrow> lpath" where
  "counterpart root ns = (fst (lp root), snd (lp root) @ ns)"

definition sent :: "string list \<Rightarrow> bool" where
  "sent ns \<longleftrightarrow> ns \<noteq> [] \<and> hd ns \<noteq> ''.git''"

definition touched :: "'c local_fs \<Rightarrow> string \<Rightarrow> string \<Rightarrow> lpath \<Rightarrow> bool" where
  "touched s src dst q \<longleftrightarrow>
     (\<exists>ns. sent ns \<and> node s (counterpart src ns) \<noteq> None \<and> q = counterpart dst ns) \<or>
     (\<exists>k. q = (fst (lp dst), take k (snd (lp dst))))"

text \<open>A copy makes sense when source and destination are apart in a well-formed file system.\<close>

definition copy_setting :: "string \<Rightarrow> string \<Rightarrow> 'c local_fs \<Rightarrow> bool" where
  "copy_setting src dst s \<longleftrightarrow> src \<noteq> [] \<and> dst \<noteq> [] \<and> fs_ok s \<and> names_ok s \<and>
     \<not> below (lp src) (lp dst) \<and> \<not> below (lp dst) (lp src)"

definition copy_inv :: "string \<Rightarrow> string \<Rightarrow> bytes local_fs \<Rightarrow> sync_state \<Rightarrow> bool" where
  "copy_inv src dst s st \<longleftrightarrow> copy_setting src dst s \<and>
     (\<forall>q. node (sy_fs st) q \<noteq> node s q \<longrightarrow> touched s src dst q)"

definition copy_post :: "string \<Rightarrow> string \<Rightarrow> bytes local_fs \<Rightarrow> string list \<Rightarrow> sync_state \<Rightarrow> bool" where
  "copy_post src dst s ns st \<longleftrightarrow>
     (sent ns \<longrightarrow> (\<forall>d. node s (counterpart src ns) = Some d \<longrightarrow>
       copied d (node (sy_fs st) (counterpart dst ns))))"

lemma touched_apart:
  assumes "copy_setting src dst s" "touched s src dst q"
  shows "\<not> below (lp src) q"
proof
  assume b: "below (lp src) q"
  have "fst q = fst (lp dst)" "prefix (snd (lp dst)) (snd q) \<or> prefix (snd q) (snd (lp dst))"
    using assms(2) by (auto simp: touched_def counterpart_def take_is_prefix)
  then have "below (lp src) (lp dst) \<or> below (lp dst) (lp src)"
    using b prefix_same_cases [of "snd (lp src)" "snd q" "snd (lp dst)"] prefix_order.trans
    unfolding below_prefix by auto
  with assms(1) show False by (simp add: copy_setting_def)
qed

lemma touched_prefix:
  assumes "copy_setting src dst s" "sent ns" "node s (counterpart src ns) \<noteq> None"
    and "prefix es (snd (lp dst) @ ns)"
  shows "touched s src dst (fst (lp dst), es)"
proof (cases "prefix es (snd (lp dst))")
  case True
  then have "es = take (length es) (snd (lp dst))" by (auto simp: prefix_def)
  then show ?thesis unfolding touched_def by metis
next
  case False
  with assms(4) obtain ms where ms: "es = snd (lp dst) @ ms" "prefix ms ns" "ms \<noteq> []"
    by (auto simp: prefix_append)
  then obtain rest where rest: "ns = ms @ rest" by (auto simp: prefix_def)
  have "sent ms" using assms(2) ms(3) rest by (simp add: sent_def)
  moreover have "node s (counterpart src ms) \<noteq> None"
  proof (cases rest)
    case (Cons a as)
    have "is_dir_node (node s (fst (lp src), take (length (snd (lp src) @ ms)) (snd (lp src) @ ns)))"
      using assms(1,3) Cons rest
      by (intro fs_ok_prefix) (simp_all add: copy_setting_def counterpart_def)
    then show ?thesis by (auto simp: counterpart_def rest elim: is_dir_node.elims)
  qed (use assms(3) rest in simp)
  ultimately show ?thesis using ms(1) unfolding touched_def counterpart_def by blast
qed

lemma ancestors_prefix: "q \<in> set (ancestors p) \<Longrightarrow> fst q = fst p \<and> prefix (snd q) (snd p)"
  by (auto simp: ancestors_def take_is_prefix)

text \<open>One visit that copies an entry keeps the contract of the walk.\<close>

lemma copy_step:
  assumes "copy_inv src dst s st" "sent ns" "node s (counterpart src ns) = Some d"
    and "only_changes Q p (sy_fs st) t" "p = None \<or> p = Some (counterpart dst ns)"
    and "\<forall>q \<in> Q. fst q = fst (lp dst) \<and> prefix (snd q) (snd (lp dst) @ ns)"
    and "copied d (node t (counterpart dst ns))" "sy_fs st' = t"
  shows "copy_inv src dst s st' \<and> copy_post src dst s ns st' \<and>
    (\<forall>ms. copy_post src dst s ms st \<longrightarrow> copy_post src dst s ms st')"
proof (intro conjI allI impI)
  have set: "copy_setting src dst s" and old: "node (sy_fs st) q \<noteq> node s q \<longrightarrow> touched s src dst q" for q
    using assms(1) unfolding copy_inv_def by blast+
  have "touched s src dst q" if "node t q \<noteq> node s q" for q
  proof (cases "node t q = node (sy_fs st) q")
    case False
    then have "q \<in> Q" using assms(4) unfolding only_changes_def by blast
    then show ?thesis
      using touched_prefix [OF set assms(2), of "snd q"] assms(3,6) by (cases q) auto
  qed (use old that in simp)
  with set assms(8) show "copy_inv src dst s st'" by (simp add: copy_inv_def)
  show post: "copy_post src dst s ns st'" using assms(3,7,8) by (simp add: copy_post_def)
  show "copy_post src dst s ms st'" if m: "copy_post src dst s ms st" for ms
  proof (cases "ms = ns")
    case False
    then have "Some (counterpart dst ms) \<noteq> p" using assms(5) by (auto simp: counterpart_def)
    then have "node t (counterpart dst ms) = Some n" if "node (sy_fs st) (counterpart dst ms) = Some n" for n
      using assms(4) that unfolding only_changes_def by blast
    with m assms(8) show ?thesis
      unfolding copy_post_def by (metis copied_exists not_None_eq)
  qed (use post in simp)
qed

lemma skip_names: "list_all path_name ns \<Longrightarrow> ns \<noteq> [] \<Longrightarrow> skip (Join ns [slash]) \<longleftrightarrow> \<not> sent ns"
  using first_name_prefix [of ns "''.git''"] by (simp add: skip_def sent_def slash_def)

lemma on_fs_ok:
  assumes "on_fs f st = (c, st')" "\<And>e. c \<noteq> Fail e"
  shows "f (sy_fs st) = (Inr (), sy_fs st')" "c = Go"
  using assms by (auto simp: on_fs_def ctl_of_def split: prod.splits sum.splits)

lemma copy_visit_contract:
  assumes inv: "copy_inv src dst s st" and path: "lp path = counterpart src ns"
    and d: "node s (lp path) = Some d"
    and v: "copy_visit src dst path (Some d) None st = (c, st')" and nf: "\<And>e. c \<noteq> Fail e"
  shows "copy_inv src dst s st' \<and> copy_post src dst s ns st' \<and>
    (\<forall>ms. copy_post src dst s ms st \<longrightarrow> copy_post src dst s ms st') \<and>
    (c = SkipDir \<longrightarrow> is_dir_node (Some d) \<and> ns \<noteq> [] \<and> \<not> sent ns)"
proof -
  have set: "copy_setting src dst s" using inv by (simp add: copy_inv_def)
  have same: "node (sy_fs st) (lp path) = Some d"
    using touched_apart [OF set] inv d path unfolding copy_inv_def counterpart_def below_def
    by (metis append_eq_conv_conj fst_conv snd_conv)
  have ns: "list_all path_name ns"
    using names_ok_below [of s "fst (lp src)" "snd (lp src)" ns] set d path
    by (simp add: copy_setting_def counterpart_def)
  note rel = path_Rel_under [OF path [unfolded counterpart_def]]
  show ?thesis
  proof (cases "sent ns")
    case False
    have "(c, st') = (if is_dir_node (Some d) \<and> ns \<noteq> [] then (SkipDir, st) else (Go, st))"
      using v rel False Join_names_not_dot [OF ns] skip_names [OF ns]
      by (auto simp: copy_visit_def sent_def split: if_splits)
    with False inv show ?thesis by (auto simp: copy_post_def split: if_splits)
  next
    case True
    then have ne: "ns \<noteq> []" by (simp add: sent_def)
    define target where "target = path_Join [dst, Join ns [slash]]"
    have dst: "dst \<noteq> []" using set by (simp add: copy_setting_def)
    have target: "lp target = counterpart dst ns"
      unfolding target_def counterpart_def by (rule lp_Join_rel(2) [OF dst ns ne])
    have parent: "lp (path_Dir target) = counterpart dst (butlast ns)"
      using lp_path_Dir_Join [OF dst, of "butlast ns" "last ns"] lp_Join_rel(1) [OF dst ns ne] ns ne
      by (simp add: target_def counterpart_def)
    have pre: "fst q = fst (lp dst) \<and> prefix (snd q) (snd (lp dst) @ ns)"
      if "q = lp target \<or> q \<in> set (ancestors (lp target)) \<or> q \<in> set (ancestors (lp (path_Dir target)))" for q
      using that ancestors_prefix [of q "lp target"] ancestors_prefix [of q "lp (path_Dir target)"]
        prefixeq_butlast [of ns] unfolding target parent
      by (auto simp: counterpart_def intro: prefix_order.trans)
    define st1 where "st1 = st\<lparr>seen := Join ns [slash] # seen st\<rparr>"
    then have st1: "sy_fs st1 = sy_fs st" by simp
    have v': "(case os_Lstat path (sy_fs st1) of
         Inl e \<Rightarrow> (Fail e, st1)
       | Inr (DirNode m) \<Rightarrow> on_fs (ensureDir target (and m 0x1FF)) st1
       | Inr (LinkNode _) \<Rightarrow>
           (case os_Readlink path (sy_fs st1) of
              Inl e \<Rightarrow> (Fail e, st1)
            | Inr link \<Rightarrow> on_fs (\<lambda>s. let (_, s) = os_Remove target s in os_Symlink link target s) st1)
       | Inr (FileNode m _) \<Rightarrow> on_fs (copyFile path target dst (and m 0x1FF)) st1) = (c, st')"
      using v rel True Join_names_not_dot [OF ns ne] skip_names [OF ns ne] ne
      by (simp add: copy_visit_def target_def Let_def st1_def cong: sum.case_cong fnode.case_cong)
    have stat: "os_Lstat path (sy_fs st1) = Inr d"
      using v' nf same st1 by (auto simp: os_Lstat_def split: option.splits)
    have step: "copied d (node (sy_fs st') (counterpart dst ns)) \<and> c = Go \<and>
      (\<exists>Q p. only_changes Q p (sy_fs st) (sy_fs st') \<and> (p = None \<or> p = Some (counterpart dst ns)) \<and>
        (\<forall>q \<in> Q. fst q = fst (lp dst) \<and> prefix (snd q) (snd (lp dst) @ ns)))"
    proof (cases d)
      case (DirNode m)
      with v' stat have "on_fs (ensureDir target (and m 0x1FF)) st1 = (c, st')" by simp
      from on_fs_ok [OF this nf] have e: "ensureDir target (and m 0x1FF) (sy_fs st) = (Inr (), sy_fs st')"
          "c = Go"
        by (simp_all add: st1)
      have "\<forall>q \<in> set (ancestors (lp target)). fst q = fst (lp dst) \<and> prefix (snd q) (snd (lp dst) @ ns)"
        using pre by blast
      moreover have "copied d (node (sy_fs st') (counterpart dst ns))"
        using ensureDir_effect(2) [OF e(1)] DirNode target by simp
      ultimately show ?thesis using ensureDir_effect(1) [OF e(1)] e(2) by blast
    next
      case (FileNode m x)
      with v' stat have "on_fs (copyFile path target dst (and m 0x1FF)) st1 = (c, st')" by simp
      from on_fs_ok [OF this nf]
      have e: "copyFile path target dst (and m 0x1FF) (sy_fs st) = (Inr (), sy_fs st')" "c = Go"
        by (simp_all add: st1)
      have "touched s src dst (lp target)" using True d target path unfolding touched_def by auto
      moreover have "below (lp src) (lp path)" using path by (simp add: counterpart_def below_def)
      ultimately have "lp path \<noteq> lp target" using touched_apart [OF set, of "lp target"] by metis
      note f = copyFile_effect [OF e(1) this same [unfolded FileNode]]
      have "\<forall>q \<in> insert (lp target) (set (ancestors (lp (path_Dir target)))).
          fst q = fst (lp dst) \<and> prefix (snd q) (snd (lp dst) @ ns)"
        using pre by blast
      moreover have "copied d (node (sy_fs st') (counterpart dst ns))"
        using f(2) FileNode target by auto
      ultimately show ?thesis using f(1) e(2) target by metis
    next
      case (LinkNode l)
      with v' stat same st1 have "on_fs (\<lambda>s. let (_, s) = os_Remove target s in os_Symlink l target s) st1 = (c, st')"
        by (simp add: os_Readlink_def)
      from on_fs_ok [OF this nf]
      have e: "os_Symlink l target (snd (os_Remove target (sy_fs st))) = (Inr (), sy_fs st')" "c = Go"
        by (simp_all add: st1 split: prod.splits)
      have "\<forall>q \<in> {lp target}. fst q = fst (lp dst) \<and> prefix (snd q) (snd (lp dst) @ ns)"
        using pre by blast
      moreover have "copied d (node (sy_fs st') (counterpart dst ns))"
        using Remove_Symlink_effect(2) [OF e(1)] LinkNode target by simp
      ultimately show ?thesis using Remove_Symlink_effect(1) [OF e(1)] e(2) target by metis
    qed
    then show ?thesis
      using copy_step [OF inv True d [unfolded path] _ _ _ _ refl] by blast
  qed
qed

interpretation copying: walker sy_fs "copy_visit src dst" src s "copy_inv src dst s"
    "\<lambda>ns. ns \<noteq> [] \<and> \<not> sent ns" "copy_post src dst s"
  for src dst :: string and s :: "bytes local_fs"
proof
  fix st q ns assume i: "copy_inv src dst s st"
  then have set: "copy_setting src dst s" by (simp add: copy_inv_def)
  then show "src \<noteq> []" "fs_ok s" by (simp_all add: copy_setting_def)
  show "list_all path_name ns" if "node s (fst (lp src), snd (lp src) @ ns) \<noteq> None"
    using set that by (auto simp: copy_setting_def intro: names_ok_below)
  show "node (sy_fs st) q = node s q" if "below (lp src) q"
    using touched_apart [OF set, of q] i that unfolding copy_inv_def by blast
next
  show "\<exists>e' s'. copy_visit src dst path d (Some e) st = (Fail e', s')" for path d e st
    by (simp add: copy_visit_def)
next
  fix st st' c path ns d
  assume "copy_inv src dst s st" "lp path = (fst (lp src), snd (lp src) @ ns)"
    "node s (lp path) = Some d" "copy_visit src dst path (Some d) None st = (c, st')" "\<And>e. c \<noteq> Fail e"
  then show "copy_inv src dst s st' \<and> copy_post src dst s ns st' \<and>
      (\<forall>ms. copy_post src dst s ms st \<longrightarrow> copy_post src dst s ms st') \<and>
      (c = SkipDir \<longrightarrow> is_dir_node (Some d) \<and> ns \<noteq> [] \<and> \<not> sent ns)"
    by (intro copy_visit_contract) (simp_all add: counterpart_def)
qed


definition demo_tree :: "bytes local_fs" where
  "demo_tree = \<lparr>nodes = [((True, [''src'']), DirNode 0x1ED), ((True, [''src'', ''f'']), FileNode 0x1A4 ''x''),
     ((True, [''src'', ''d'']), DirNode 0x1ED), ((True, [''src'', ''d'', ''l'']), LinkNode ''../f''),
     ((True, [''src'', ''.git'']), DirNode 0x1ED), ((True, [''src'', ''.git'', ''HEAD'']), FileNode 0x1A4 ''r'')],
     fault = (\<lambda>_. None)\<rparr>"


end
