(* ===== verification/Cli_Mount.thy ===== *)
theory Cli_Mount
  imports Cli_State Fusefs Sync
begin

text \<open>
  Detached mounts (\<open>cmd/agentic9/main.go\<close>): starting the mount helper and waiting for it,
  stopping it, and the bounded retry loops around a mount that is not ready yet. The helper
  is another process that changes the files of the runtime directory, so the file systems
  that successive looks find are parameters; so are the process calls and the kernel's mount
  table \<open>'k\<close>.
\<close>

record 'k proc_env =
  pe_sha256 :: hash_fn
  pe_kill :: kill_fn
  pe_Executable :: "string result"
  pe_Start :: "string list \<Rightarrow> content local_fs \<Rightarrow> int result"
  pe_looks :: "int \<Rightarrow> content local_fs \<Rightarrow> nat \<Rightarrow> Fuse_Runtime.env"
  pe_after_wait :: "int \<Rightarrow> content local_fs \<Rightarrow> content local_fs"
  pe_after_term :: "int \<Rightarrow> content local_fs \<Rightarrow> content local_fs list"
  pe_run_bin :: "string \<Rightarrow> string \<Rightarrow> 'k \<Rightarrow> bool \<times> 'k"

subsection \<open>Starting\<close>

text \<open>Log files hold bytes; a document in the place of one counts as empty.\<close>

definition content_bytes :: "content \<Rightarrow> bytes" where
  "content_bytes c = (case c of Raw bs \<Rightarrow> bs | Json _ \<Rightarrow> [])"

definition readLogTail :: "string \<Rightarrow> content local_fs \<Rightarrow> string" where
  "readLogTail path s =
     (case os_ReadFile path s of
        Inl _ \<Rightarrow> []
      | Inr c \<Rightarrow>
          (let data = content_bytes c in
           if length data = 0 then []
           else (let data = (if length data > 400 then drop (length data - 400) data else data)
                 in TrimSpace data)))"

definition serve_command :: "string \<Rightarrow> string \<Rightarrow> string \<Rightarrow> string \<Rightarrow> string list" where
  "serve_command exe profileName agentID mountpoint =
     [exe, ''__serve-mount'', ''--profile'', profileName, ''--agent-id'', agentID, ''--mountpoint'', mountpoint]"

text \<open>The result is \<open>None\<close> when the wait for the helper does not end.\<close>

definition startDetachedMount ::
  "'k proc_env \<Rightarrow> string \<Rightarrow> string \<Rightarrow> string \<Rightarrow> string \<Rightarrow> content local_fs \<Rightarrow>
   mount_state result option \<times> content local_fs" where
  "startDetachedMount P runtimeRoot profileName agentID mountpoint s =
     (let runtime = NewRuntime runtimeRoot; log = LogPath (pe_sha256 P) runtime mountpoint in
      case ClearStale (pe_sha256 P) (pe_kill P) runtime mountpoint s of
        (Inl e, s) \<Rightarrow> (Some (Inl e), s)
      | (Inr _, s) \<Rightarrow>
          (let busy = (case runtime_Load (pe_sha256 P) runtime mountpoint s of
                 Inr state \<Rightarrow>
                   (if ProcessExists (pe_kill P) (ms_PID state)
                    then Some (ErrorString (''mountpoint '' @ mountpoint @ '' is already managed by pid '' @
                      string_of_int (ms_PID state)))
                    else None)
               | Inl e \<Rightarrow> if \<not> errors_Is e OsErrNotExist then Some e else None)
           in case busy of
                Some e \<Rightarrow> (Some (Inl e), s)
              | None \<Rightarrow>
                  (case os_MkdirAll (path_Dir log) 0x1ED s of
                     (Inl e, s) \<Rightarrow> (Some (Inl e), s)
                   | (Inr _, s) \<Rightarrow>
                       (case os_WriteFile log (Raw []) 0x1A4 s of
                          (Inl e, s) \<Rightarrow> (Some (Inl e), s)
                        | (Inr _, s) \<Rightarrow>
                            (case pe_Executable P of
                               Inl e \<Rightarrow> (Some (Inl e), s)
                             | Inr exe \<Rightarrow>
                                 (case pe_Start P (serve_command exe profileName agentID mountpoint) s of
                                    Inl e \<Rightarrow> (Some (Inl e), s)
                                  | Inr pid \<Rightarrow>
                                      (case WaitForMount (pe_sha256 P) (pe_looks P pid s) runtime mountpoint pid of
                                         None \<Rightarrow> (None, s)
                                       | Some (Inr state) \<Rightarrow> (Some (Inr state), pe_after_wait P pid s)
                                       | Some (Inl e) \<Rightarrow>
                                           (let s = pe_after_wait P pid s;
                                                snippet = readLogTail log s;
                                                (_, s) = ClearStale (pe_sha256 P) (pe_kill P) runtime mountpoint s
                                            in (Some (Inl (if snippet \<noteq> []
                                                  then WrapError (error_text e @ '': '' @ snippet) e
                                                  else e)), s)))))))))"

subsection \<open>Stopping\<close>

text \<open>The looks after the signal until the deadline: gone, or still there at the last one.\<close>

fun wait_gone :: "hash_fn \<Rightarrow> runtime \<Rightarrow> string \<Rightarrow> content local_fs list \<Rightarrow> content local_fs \<Rightarrow>
   bool \<times> content local_fs" where
  "wait_gone sha256 r mountpoint [] s = (False, s)"
| "wait_gone sha256 r mountpoint (look # looks) s =
     (case runtime_Load sha256 r mountpoint look of
        Inl e \<Rightarrow> (if errors_Is e OsErrNotExist then (True, look) else wait_gone sha256 r mountpoint looks look)
      | Inr _ \<Rightarrow> wait_gone sha256 r mountpoint looks look)"

definition stopDetachedMount ::
  "'k proc_env \<Rightarrow> string \<Rightarrow> string \<Rightarrow> content local_fs \<Rightarrow> 'k \<Rightarrow> unit result \<times> content local_fs \<times> 'k" where
  "stopDetachedMount P runtimeRoot mountpoint s k =
     (let runtime = NewRuntime runtimeRoot; loaded = runtime_Load (pe_sha256 P) runtime mountpoint s in
      case (case loaded of Inl e \<Rightarrow> if \<not> errors_Is e OsErrNotExist then Some e else None | Inr _ \<Rightarrow> None) of
        Some e \<Rightarrow> (Inl e, s, k)
      | None \<Rightarrow>
          (let (gone, s) = (case loaded of
                 Inr state \<Rightarrow>
                   (if ms_PID state > 0 \<and> ProcessExists (pe_kill P) (ms_PID state)
                    then wait_gone (pe_sha256 P) runtime mountpoint (pe_after_term P (ms_PID state) s) s
                    else (False, s))
               | Inl _ \<Rightarrow> (False, s))
           in if gone then (Inr (), s, k)
              else
                (let mounter = NewMountManager runtimeRoot :: unit mount_manager;
                     (r, k, _) = Unmount (\<lambda>_ k. (Inr (), k)) (pe_run_bin P) mountpoint k mounter
                 in case r of
                      Inr _ \<Rightarrow>
                        (let (_, s) = ClearStale (pe_sha256 P) (pe_kill P) runtime mountpoint s
                         in (Inr (), s, k))
                    | Inl e \<Rightarrow>
                        (if \<not> errors_Is e (Errno ENOSYS) then (Inl e, s, k)
                         else (let (_, s) = ClearStale (pe_sha256 P) (pe_kill P) runtime mountpoint s in
                           (case runtime_Load (pe_sha256 P) runtime mountpoint s of
                              Inl le \<Rightarrow> (if errors_Is le OsErrNotExist then (Inr (), s, k) else (Inl e, s, k))
                            | Inr _ \<Rightarrow> (Inl e, s, k)))))))"

subsection \<open>Bounded retries\<close>

definition isRetriableMountSyncError :: "go_error \<Rightarrow> bool" where
  "isRetriableMountSyncError err \<longleftrightarrow>
     errors_Is err (Errno EIO) \<or> errors_Is err (Errno ENOTCONN) \<or> errors_Is err (Errno EINTR)"

definition isRetriableMountReadyError :: "go_error \<Rightarrow> bool" where
  "isRetriableMountReadyError err \<longleftrightarrow> isRetriableMountSyncError err \<or> errors_Is err OsErrNotExist"

text \<open>
  The loop \<open>for attempt := 0; attempt < n; attempt++\<close> of both functions: \<open>attempts i\<close> is the
  result of the \<open>i\<close>-th attempt, \<open>ctx i\<close> the context's error while it waits after it.
\<close>

fun retry_loop ::
  "nat \<Rightarrow> (nat \<Rightarrow> unit result) \<Rightarrow> (go_error \<Rightarrow> bool) \<Rightarrow> (nat \<Rightarrow> go_error option) \<Rightarrow> nat \<Rightarrow>
   unit result \<Rightarrow> unit result" where
  "retry_loop 0 attempts retriable ctx i err = err"
| "retry_loop (Suc n) attempts retriable ctx i err =
     (case attempts i of
        Inr _ \<Rightarrow> Inr ()
      | Inl e \<Rightarrow>
          (if \<not> retriable e then Inl e
           else (case ctx i of
                   Some ce \<Rightarrow> Inl ce
                 | None \<Rightarrow> retry_loop n attempts retriable ctx (Suc i) (Inl e))))"

text \<open>
  \<open>trees i\<close> is the file system as the \<open>i\<close>-th attempt finds it, \<open>fuel\<close> the depth its walk may
  reach; the result is \<open>None\<close> when an attempt runs out of it.
\<close>

definition copyTreeWithRetry ::
  "nat \<Rightarrow> (nat \<Rightarrow> bytes local_fs) \<Rightarrow> (nat \<Rightarrow> go_error option) \<Rightarrow> string \<Rightarrow> string \<Rightarrow> bool \<Rightarrow>
   unit result option" where
  "copyTreeWithRetry fuel trees ctx src dst mirror =
     (let attempt = (\<lambda>i. fst (CopyTree fuel mirror src dst (trees i))) in
      if list_all (\<lambda>i. attempt i \<noteq> None) [0..<10]
      then Some (retry_loop 10 (\<lambda>i. the (attempt i)) isRetriableMountSyncError ctx 0 (Inr ()))
      else None)"

text \<open>\<open>close_err\<close> is the error of closing the probe file.\<close>

definition probeWritableMount ::
  "go_error option \<Rightarrow> string \<Rightarrow> content local_fs \<Rightarrow> unit result \<times> content local_fs" where
  "probeWritableMount close_err path s =
     (case (case node s (lp path) of
              Some _ \<Rightarrow> (Inl (path_error ''open'' path EEXIST), s)
            | None \<Rightarrow> os_WriteFile path (Raw []) 0x180 s) of
        (Inl e, s) \<Rightarrow> (Inl e, s)
      | (Inr _, s) \<Rightarrow>
          (case close_err of
             Some e \<Rightarrow> (let (_, s) = os_Remove path s in (Inl e, s))
           | None \<Rightarrow>
               (case os_Remove path s of
                  (Inl e, s) \<Rightarrow> (if \<not> errors_Is e OsErrNotExist then (Inl e, s) else (Inr (), s))
                | (Inr _, s) \<Rightarrow> (Inr (), s))))"

definition probe_path :: "string \<Rightarrow> int \<Rightarrow> string" where
  "probe_path mountpoint pid = path_Join [mountpoint, ''.agentic9-ready-'' @ string_of_int pid]"

text \<open>\<open>mounts i\<close> is the mounted file system as the \<open>i\<close>-th probe finds it.\<close>

definition waitForWritableMount ::
  "(nat \<Rightarrow> content local_fs) \<Rightarrow> (nat \<Rightarrow> go_error option) \<Rightarrow> (nat \<Rightarrow> go_error option) \<Rightarrow> int \<Rightarrow> string \<Rightarrow>
   unit result" where
  "waitForWritableMount mounts close_errs ctx pid mountpoint =
     retry_loop 50 (\<lambda>i. fst (probeWritableMount (close_errs i) (probe_path mountpoint pid) (mounts i)))
       isRetriableMountReadyError ctx 0 (Inr ())"

subsection \<open>Properties\<close>

text \<open>The timeout of the wait: whatever the helper does, the context is done at some look.\<close>

definition times_out :: "'k proc_env \<Rightarrow> bool" where
  "times_out P \<longleftrightarrow> (\<forall>pid s. \<exists>n. env_ctx (pe_looks P pid s n) \<noteq> None)"

lemma WaitForMount_times_out:
  assumes "times_out P"
  shows "\<exists>r. WaitForMount sha256 (pe_looks P pid s) rt mp pid' = Some r \<and>
    (\<forall>st. r = Inr st \<longrightarrow> ms_Status st = MountStatusMounted)"
proof -
  let ?poll = "\<lambda>w. wait_poll sha256 (env_kill w) rt mp pid' (env_fs w)"
  obtain n where "env_ctx (pe_looks P pid s n) \<noteq> None" using assms unfolding times_out_def by blast
  with wait_from_decides [of 0 n ?poll "pe_looks P pid s"] show ?thesis
    unfolding WaitForMount_def using wait_poll_mounted by blast
qed

text \<open>
  Property C8: starting a mount is exclusive, always returns and reports only mounts that are
  up. If the runtime directory records a live process for the mountpoint, nothing is started
  or changed and the error names that process. Otherwise, since the wait has a timeout, the
  call returns whatever the helper does, and a state it returns is recorded as mounted.
\<close>

theorem start_is_exclusive:
  assumes "times_out P"
  shows "(\<exists>r s'. startDetachedMount P root p a mp s = (Some r, s') \<and>
      (\<forall>st. r = Inr st \<longrightarrow> ms_Status st = MountStatusMounted)) \<and>
    (\<forall>st. runtime_Load (pe_sha256 P) (NewRuntime root) mp s = Inr st \<and>
        ProcessExists (pe_kill P) (ms_PID st) \<longrightarrow>
      startDetachedMount P root p a mp s =
        (Some (Inl (ErrorString (''mountpoint '' @ mp @ '' is already managed by pid '' @
          string_of_int (ms_PID st)))), s))"
proof (intro conjI allI impI)
  have "\<exists>r. WaitForMount (pe_sha256 P) (pe_looks P pid t) (NewRuntime root) mp pid = Some r \<and>
      (\<forall>st. r = Inr st \<longrightarrow> ms_Status st = MountStatusMounted)" for pid t
    using WaitForMount_times_out [OF assms] by blast
  then show "\<exists>r s'. startDetachedMount P root p a mp s = (Some r, s') \<and>
      (\<forall>st. r = Inr st \<longrightarrow> ms_Status st = MountStatusMounted)"
    unfolding startDetachedMount_def Let_def
    by (auto split: prod.split sum.split option.split) (metis option.distinct(1), metis option.inject)+
qed (auto simp: startDetachedMount_def ClearStale_def Let_def)

definition demo_proc :: "unit proc_env" where
  "demo_proc = \<lparr>pe_sha256 = (\<lambda>b. b), pe_kill = demo_kill, pe_Executable = Inr ''/bin/agentic9'',
     pe_Start = (\<lambda>_ _. Inr 8),
     pe_looks = (\<lambda>pid s n. \<lparr>env_fs = s, env_kill = demo_kill,
       env_ctx = (if n < 3 then None else Some CtxDeadlineExceeded)\<rparr>),
     pe_after_wait = (\<lambda>_ s. s), pe_after_term = (\<lambda>_ s. [s]), pe_run_bin = (\<lambda>_ _ k. (True, k))\<rparr>"

lemma demo_proc_times_out: "times_out demo_proc"
  unfolding times_out_def
proof (intro allI exI)
  show "env_ctx (pe_looks demo_proc pid s 3) \<noteq> None" for pid s by (simp add: demo_proc_def)
qed

theorem start_is_exclusive_witness:
  "startDetachedMount demo_proc ''/run'' ''home'' ''a1'' ''/mnt'' demo_run_fs =
     (Some (Inl (ErrorString ''mountpoint /mnt is already managed by pid 8'')), demo_run_fs)"
proof -
  let ?st = "\<lparr>ms_Profile = ''home'', ms_AgentID = ''a1'', ms_Mountpoint = ''/mnt'', ms_PID = 8,
      ms_Status = MountStatusMounted, ms_Error = [], ms_UpdatedAt = 9\<rparr>"
  have "runtime_Load (pe_sha256 demo_proc) (NewRuntime ''/run'') ''/mnt'' demo_run_fs = Inr ?st"
    by code_simp
  moreover have "ProcessExists (pe_kill demo_proc) (ms_PID ?st)" by code_simp
  moreover have "string_of_int 8 = ''8''" by code_simp
  ultimately show ?thesis
    using start_is_exclusive [OF demo_proc_times_out, of "''/run''" "''home''" "''a1''" "''/mnt''" demo_run_fs]
    by simp
qed

lemma retry_loop_ok:
  "retry_loop (Suc n) attempts retriable ctx i err = Inr () \<longleftrightarrow>
     (\<exists>k \<le> n. attempts (i + k) = Inr () \<and>
       (\<forall>j < k. ctx (i + j) = None \<and> (\<exists>e. attempts (i + j) = Inl e \<and> retriable e)))"
proof (induction n arbitrary: i err)
  case 0
  then show ?case by (auto split: sum.split option.split)
next
  case (Suc n)
  have shift: "(\<exists>k \<le> Suc n. P k \<and> (\<forall>j < k. Q j)) \<longleftrightarrow>
      P 0 \<or> (Q 0 \<and> (\<exists>k \<le> n. P (Suc k) \<and> (\<forall>j < k. Q (Suc j))))" for P Q :: "nat \<Rightarrow> bool"
    by (auto simp: less_Suc_eq_0_disj Suc_le_eq) (metis Suc_le_mono not0_implies_Suc zero_less_Suc Suc_less_eq)+
  show ?case
    unfolding retry_loop.simps(2) [of "Suc n"] shift
    using Suc.IH [of "Suc i"]
    by (cases "attempts i") (auto simp del: retry_loop.simps split: option.split)
qed

text \<open>
  Property C39: waiting for a writable mount is bounded and exact. It makes at most fifty
  probes and succeeds exactly when one of them succeeds and all before it failed with an
  error worth retrying while the context was not done.
\<close>

theorem writable_wait_exact:
  "waitForWritableMount mounts close_errs ctx pid mp = Inr () \<longleftrightarrow>
     (let probe = (\<lambda>i. fst (probeWritableMount (close_errs i) (probe_path mp pid) (mounts i)))
      in \<exists>k < 50. probe k = Inr () \<and>
        (\<forall>j < k. ctx j = None \<and> (\<exists>e. probe j = Inl e \<and> isRetriableMountReadyError e)))"
proof -
  have fifty: "(50 :: nat) = Suc 49" by simp
  show ?thesis
    unfolding waitForWritableMount_def Let_def unfolding fifty retry_loop_ok less_Suc_eq_le by simp
qed

theorem writable_wait_exact_witness:
  "waitForWritableMount (\<lambda>i. if i < 2 then \<lparr>nodes = [], fault = (\<lambda>_. Some (Errno ENOTCONN))\<rparr>
       else \<lparr>nodes = [((True, [''m'']), DirNode 0)], fault = (\<lambda>_. None)\<rparr>)
     (\<lambda>_. None) (\<lambda>_. None) 4 ''/m'' = Inr ()"
proof -
  let ?mounts = "\<lambda>i :: nat. if i < 2 then \<lparr>nodes = [], fault = (\<lambda>_. Some (Errno ENOTCONN))\<rparr>
       else \<lparr>nodes = [((True, [''m'']), DirNode 0)], fault = (\<lambda>_. None)\<rparr> :: content local_fs"
  let ?probe = "\<lambda>i. fst (probeWritableMount None (probe_path ''/m'' 4) (?mounts i))"
  have ok: "?probe 2 = Inr ()" by code_simp
  have bad: "fst (probeWritableMount None (probe_path ''/m'' 4)
      (\<lparr>nodes = [], fault = (\<lambda>_. Some (Errno ENOTCONN))\<rparr> :: content local_fs)) = Inl (Errno ENOTCONN)"
    by code_simp
  have "isRetriableMountReadyError (Errno ENOTCONN)" by code_simp
  with bad have "\<exists>e. ?probe j = Inl e \<and> isRetriableMountReadyError e" if "j < 2" for j
    using that by simp
  with ok show ?thesis
    unfolding writable_wait_exact [of ?mounts] Let_def by (intro exI [where x = 2]) auto
qed

end
