(* ===== verification/Cli_Flags.thy ===== *)
theory Cli_Flags
  imports Cli_Mount
begin

text \<open>
  The command line of \<open>cmd/agentic9/main.go\<close>: choosing the command, and the flags of each
  command as package \<open>flag\<close> parses them.
\<close>

subsection \<open>Flag sets\<close>

record flagset =
  fl_strings :: "(string \<times> string) list"
  fl_bools :: "(string \<times> bool) list"

definition dash :: byte where "dash = CHR ''-''"

definition ParseBool :: "string \<Rightarrow> bool option" where
  "ParseBool s =
     (if s \<in> {''1'', ''t'', ''T'', ''TRUE'', ''true'', ''True''} then Some True
      else if s \<in> {''0'', ''f'', ''F'', ''FALSE'', ''false'', ''False''} then Some False
      else None)"

text \<open>
  One step of \<open>FlagSet.Parse\<close>: no flag here (\<open>Inr None\<close> with the remaining arguments), or
  the flag set changed and the arguments after it.
\<close>

definition split_value :: "string \<Rightarrow> string \<times> string option" where
  "split_value name =
     (case IndexByte (drop 1 name) (CHR ''='') of
        None \<Rightarrow> (name, None)
      | Some i \<Rightarrow> (take (Suc i) name, Some (drop (i + 2) name)))"

definition set_flag :: "flagset \<Rightarrow> string \<Rightarrow> string option \<Rightarrow> string list \<Rightarrow> (flagset \<times> string list) result" where
  "set_flag fl name value args =
     (if name \<in> fst ` set (fl_bools fl) then
        (case value of
           None \<Rightarrow> Inr (fl\<lparr>fl_bools := AList.update name True (fl_bools fl)\<rparr>, args)
         | Some v \<Rightarrow>
             (case ParseBool v of
                None \<Rightarrow> Inl (ErrorString (''invalid boolean value '' @ Quote v @ '' for -'' @ name @
                  '': parse error''))
              | Some b \<Rightarrow> Inr (fl\<lparr>fl_bools := AList.update name b (fl_bools fl)\<rparr>, args)))
      else if name \<in> fst ` set (fl_strings fl) then
        (case (value, args) of
           (Some v, _) \<Rightarrow> Inr (fl\<lparr>fl_strings := AList.update name v (fl_strings fl)\<rparr>, args)
         | (None, v # rest) \<Rightarrow> Inr (fl\<lparr>fl_strings := AList.update name v (fl_strings fl)\<rparr>, rest)
         | (None, []) \<Rightarrow> Inl (ErrorString (''flag needs an argument: -'' @ name)))
      else if name = ''help'' \<or> name = ''h'' then Inl (ErrorString ''flag: help requested'')
      else Inl (ErrorString (''flag provided but not defined: -'' @ name)))"

definition parse_one :: "flagset \<Rightarrow> string list \<Rightarrow> ((flagset \<times> string list) option \<times> string list) result" where
  "parse_one fl args =
     (case args of
        [] \<Rightarrow> Inr (None, [])
      | s # rest \<Rightarrow>
          (if length s < 2 \<or> hd s \<noteq> dash then Inr (None, args)
           else if s = [dash, dash] then Inr (None, rest)
           else (let name = (if s ! 1 = dash then drop 2 s else drop 1 s) in
             if name = [] \<or> hd name = dash \<or> hd name = CHR ''=''
             then Inl (ErrorString (''bad flag syntax: '' @ s))
             else (case split_value name of (nm, value) \<Rightarrow>
               bind_result (set_flag fl nm value rest) (\<lambda>r. Inr (Some r, [])))))) "

lemma set_flag_shorter: "set_flag fl nm v args = Inr (fl', args') \<Longrightarrow> length args' \<le> length args"
  by (auto simp: set_flag_def split: if_splits option.splits list.splits)

lemma parse_one_shorter:
  "parse_one fl args = Inr (Some (fl', args'), r) \<Longrightarrow> length args' < length args"
  by (auto simp: parse_one_def Let_def bind_result_eq_Inr less_Suc_eq_le dest!: set_flag_shorter
      split: list.splits if_splits prod.splits)

function parse_flags :: "flagset \<Rightarrow> string list \<Rightarrow> (flagset \<times> string list) result" where
  "parse_flags fl args =
     (case parse_one fl args of
        Inl e \<Rightarrow> Inl e
      | Inr (None, rest) \<Rightarrow> Inr (fl, rest)
      | Inr (Some (fl', args'), _) \<Rightarrow> parse_flags fl' args')"
  by pat_completeness auto
termination
  by (relation "measure (\<lambda>(fl, args). length args)") (auto dest: parse_one_shorter)

declare parse_flags.simps [simp del]

definition flag_string :: "flagset \<Rightarrow> string \<Rightarrow> string" where
  "flag_string fl name = (case map_of (fl_strings fl) name of Some v \<Rightarrow> v | None \<Rightarrow> [])"

definition flag_bool :: "flagset \<Rightarrow> string \<Rightarrow> bool" where
  "flag_bool fl name = (map_of (fl_bools fl) name = Some True)"

subsection \<open>The flags of the commands\<close>

definition version_flags :: flagset where
  "version_flags = \<lparr>fl_strings = [], fl_bools = [(''json'', False)]\<rparr>"

definition verify_flags :: flagset where
  "verify_flags = \<lparr>fl_strings = [(''profile'', ''default'')], fl_bools = [(''json'', False)]\<rparr>"

definition create_flags :: flagset where
  "create_flags = \<lparr>fl_strings = [(''profile'', ''default''), (''agent-id'', []), (''source'', []),
     (''seed-path'', []), (''mountpoint'', []), (''project-root'', [])],
     fl_bools = [(''mirror'', False), (''json'', False)]\<rparr>"

definition agent_flags :: flagset where
  "agent_flags = \<lparr>fl_strings = [(''profile'', ''default''), (''agent-id'', [])],
     fl_bools = [(''json'', False)]\<rparr>"

definition mount_flags :: flagset where
  "mount_flags = \<lparr>fl_strings = [(''profile'', ''default''), (''agent-id'', []), (''mountpoint'', []),
     (''project-root'', [])], fl_bools = [(''json'', False)]\<rparr>"

definition unmount_flags :: flagset where
  "unmount_flags = \<lparr>fl_strings = [(''mountpoint'', []), (''project-root'', [])],
     fl_bools = [(''json'', False)]\<rparr>"

definition serve_flags :: flagset where
  "serve_flags = \<lparr>fl_strings = [(''profile'', ''default''), (''agent-id'', []), (''mountpoint'', [])],
     fl_bools = []\<rparr>"

definition resolveAliasedPathFlag :: "string \<Rightarrow> string \<Rightarrow> string \<Rightarrow> string \<Rightarrow> string result" where
  "resolveAliasedPathFlag primaryName primaryValue aliasName aliasValue =
     (if primaryValue = [] then Inr aliasValue
      else if aliasValue = [] then Inr primaryValue
      else if primaryValue = aliasValue then Inr primaryValue
      else Inl (ErrorString (primaryName @ '' and '' @ aliasName @ '' must match when both are set'')))"

subsection \<open>Dispatch\<close>

datatype cmd =
    ProfileVerify | WorkspaceCreate | WorkspaceDelete | WorkspacePath | WorkspaceStatus
  | MountWorkspace | UnmountWorkspace | ExecRemote | PrintVersion | ServeMount

definition commands :: "(string \<times> cmd) list" where
  "commands = [(''profile verify'', ProfileVerify), (''workspace create'', WorkspaceCreate),
     (''workspace delete'', WorkspaceDelete), (''workspace path'', WorkspacePath),
     (''workspace status'', WorkspaceStatus), (''mount'', MountWorkspace),
     (''unmount'', UnmountWorkspace), (''exec'', ExecRemote), (''version'', PrintVersion),
     (''__serve-mount'', ServeMount)]"

definition usage_error :: go_error where
  "usage_error = ErrorString ''usage: agentic9 <profile verify|workspace create|workspace delete|workspace path|workspace status|mount|unmount|exec|version>''"

definition dispatch :: "string list \<Rightarrow> (string \<times> cmd) list \<Rightarrow> (cmd \<times> string list) result" where
  "dispatch args cmds =
     (if length args = 0 then Inl usage_error
      else (case (if length args \<ge> 2 then map_of cmds (Join (take 2 args) '' '') else None) of
              Some c \<Rightarrow> Inr (c, drop 2 args)
            | None \<Rightarrow>
                (case map_of cmds (args ! 0) of
                   Some c \<Rightarrow> Inr (c, drop 1 args)
                 | None \<Rightarrow> Inl (ErrorString (''unknown command: '' @ Join args '' '')))))"

subsection \<open>Flags read back\<close>

definition plain_name :: "string \<Rightarrow> bool" where
  "plain_name n \<longleftrightarrow> n \<noteq> [] \<and> hd n \<noteq> dash \<and> CHR ''='' \<notin> set n"

definition set_string :: "string \<times> string \<Rightarrow> flagset \<Rightarrow> flagset" where
  "set_string nv fl = fl\<lparr>fl_strings := AList.update (fst nv) (snd nv) (fl_strings fl)\<rparr>"

definition string_flags :: "(string \<times> string) list \<Rightarrow> string list" where
  "string_flags nvs = concat (map (\<lambda>(n, v). [[dash, dash] @ n, v]) nvs)"

lemma split_value_plain: "plain_name n \<Longrightarrow> split_value n = (n, None)"
  by (cases n) (auto simp: plain_name_def split_value_def IndexByte_None [THEN iffD2])

lemma plain_name_not_equals: "plain_name n \<Longrightarrow> n \<noteq> [] \<and> hd n \<noteq> dash \<and> hd n \<noteq> CHR ''=''"
  by (cases n) (auto simp: plain_name_def)

lemma parse_one_string:
  assumes "plain_name n" and "n \<in> fst ` set (fl_strings fl)" and "n \<notin> fst ` set (fl_bools fl)"
  shows "parse_one fl (([dash, dash] @ n) # v # rest) = Inr (Some (set_string (n, v) fl, rest), [])"
  using assms plain_name_not_equals [OF assms(1)]
  by (simp add: parse_one_def split_value_plain set_flag_def set_string_def)

lemma parse_string_flags:
  assumes "\<forall>(n, v) \<in> set nvs. plain_name n \<and> n \<in> fst ` set (fl_strings fl) \<and> n \<notin> fst ` set (fl_bools fl)"
  shows "parse_flags fl (string_flags nvs @ rest) = parse_flags (fold set_string nvs fl) rest"
  using assms
proof (induction nvs arbitrary: fl)
  case (Cons nv nvs)
  obtain n v where nv: "nv = (n, v)" by (cases nv)
  have "parse_flags fl (string_flags (nv # nvs) @ rest) =
      parse_flags (set_string (n, v) fl) (string_flags nvs @ rest)"
    using Cons.prems nv parse_one_string [of n fl v "string_flags nvs @ rest"]
    by (subst parse_flags.simps) (simp add: string_flags_def)
  also have "\<dots> = parse_flags (fold set_string nvs (set_string (n, v) fl)) rest"
    using Cons.prems nv by (intro Cons.IH) (auto simp: set_string_def dom_update)
  finally show ?case using nv by simp
qed (simp add: string_flags_def)

lemma parse_flags_end: "parse_flags fl ([dash, dash] # rest) = Inr (fl, rest)" "parse_flags fl [] = Inr (fl, [])"
  by (subst parse_flags.simps, simp add: parse_one_def)+

text \<open>
  Property C40: the mount helper is started with what it was asked for. The command line that
  \<open>startDetachedMount\<close> builds is dispatched by the same program to the mount server, and
  parsing its flags gives back the profile, the agent id and the mountpoint, whatever bytes
  they hold, values that look like flags included.
\<close>

theorem helper_arguments_faithful:
  "\<exists>args fl. dispatch (drop 1 (serve_command exe profileName agentID mountpoint)) commands =
      Inr (ServeMount, args) \<and> parse_flags serve_flags args = Inr (fl, []) \<and>
    flag_string fl ''profile'' = profileName \<and> flag_string fl ''agent-id'' = agentID \<and>
    flag_string fl ''mountpoint'' = mountpoint"
proof -
  let ?nvs = "[(''profile'', profileName), (''agent-id'', agentID), (''mountpoint'', mountpoint)]"
  let ?args = "string_flags ?nvs"
  have args: "drop 1 (serve_command exe profileName agentID mountpoint) = ''__serve-mount'' # ?args"
    by (simp add: serve_command_def string_flags_def dash_def)
  have "dispatch (''__serve-mount'' # ?args) commands = Inr (ServeMount, ?args)"
    by (simp add: dispatch_def commands_def string_flags_def dash_def)
  moreover have "parse_flags serve_flags (?args @ []) = Inr (fold set_string ?nvs serve_flags, [])"
    by (subst parse_string_flags) (auto simp: plain_name_def dash_def serve_flags_def parse_flags_end)
  ultimately show ?thesis
    unfolding args by (simp add: flag_string_def set_string_def serve_flags_def)
qed

end
