(* ===== verification/Cli_Seed.thy ===== *)
theory Cli_Seed
  imports Sync Exportfs
begin

text \<open>
  Seeding a remote workspace from a local directory (\<open>cmd/agentic9/main.go\<close>). The code
  makes a new exportfs client for every directory and every file and never closes it; the
  operations it uses are a record over the state \<open>'o\<close> of the network, the client \<open>'x\<close> and
  open remote files \<open>'h\<close>, and \<open>exportfs_ops\<close> is the record the program uses. The second
  half records what succeeded remotely and replays it on an abstract tree.
\<close>

record ('o, 'x, 'h) remote_ops =
  ro_New :: "'o \<Rightarrow> 'x"
  ro_drop :: "'x \<Rightarrow> 'o \<Rightarrow> 'o"
  ro_List :: "string \<Rightarrow> 'x \<Rightarrow> (entry list result \<times> 'x) option"
  ro_Mkdir :: "string \<Rightarrow> file_mode \<Rightarrow> 'x \<Rightarrow> unit result \<times> 'x"
  ro_Remove :: "string \<Rightarrow> 'x \<Rightarrow> unit result \<times> 'x"
  ro_Create :: "string \<Rightarrow> file_mode \<Rightarrow> u32 \<Rightarrow> 'x \<Rightarrow> 'h result \<times> 'x"
  ro_WriteAt :: "'h \<Rightarrow> bytes \<Rightarrow> u64 \<Rightarrow> 'x \<Rightarrow> (nat \<times> go_error option) \<times> 'x"
  ro_Close :: "'h \<Rightarrow> 'x \<Rightarrow> unit result \<times> 'x"

text \<open>The operations of the program: the connections of a dropped client stay as they are.\<close>

record ('o, 'p) seed_net =
  sn_opener :: 'o
  sn_left :: "'p nclient list"

definition exportfs_ops ::
  "'p peer_fn \<Rightarrow> ('o, 'p) opener_fn \<Rightarrow> int \<Rightarrow> ctx \<Rightarrow> string \<Rightarrow>
   (('o, 'p) seed_net, ('o, 'p) xclient, remoteFile) remote_ops" where
  "exportfs_ops react openfs now ctx root = \<lparr>
     ro_New = (\<lambda>net. fs_New (sn_opener net) root),
     ro_drop = (\<lambda>x net. \<lparr>sn_opener = opener x, sn_left = sn_left net @ heap x\<rparr>),
     ro_List = fs_List react openfs ctx,
     ro_Mkdir = fs_Mkdir react openfs now ctx,
     ro_Remove = fs_Remove react openfs ctx,
     ro_Create = (\<lambda>p perm flags x. case fs_Create react openfs now ctx p perm flags x of
        (r, x) \<Rightarrow> (bind_result r (\<lambda>(h, _). Inr h), x)),
     ro_WriteAt = WriteAt react,
     ro_Close = remoteFile_Close react\<rparr>"

definition shouldSkipSeedPath :: "string \<Rightarrow> bool" where
  "shouldSkipSeedPath rel \<longleftrightarrow> rel = ''.git'' \<or> HasPrefix rel (''.git'' @ [slash])"

definition remoteDirectoryIsEmpty :: "('o, 'x, 'h) remote_ops \<Rightarrow> 'o \<Rightarrow> (bool result \<times> 'o) option" where
  "remoteDirectoryIsEmpty ops net =
     map_option (\<lambda>(r, x). (bind_result r (\<lambda>entries. Inr (length entries = 0)), ro_drop ops x net))
       (ro_List ops [slash] (ro_New ops net))"

subsection \<open>Copying one file\<close>

definition seed_buf :: nat where "seed_buf = 128 * 1024"

function seed_loop ::
  "('o, 'x, 'h) remote_ops \<Rightarrow> 'h \<Rightarrow> bytes \<Rightarrow> u64 \<Rightarrow> 'x \<Rightarrow> unit result \<times> 'x" where
  "seed_loop ops h data off x =
     (if data = [] then (Inr (), x)
      else (let buf = take seed_buf data in
        (case ro_WriteAt ops h buf off x of
           ((_, Some e), x) \<Rightarrow> (Inl e, x)
         | ((written, None), x) \<Rightarrow>
             (if written \<noteq> length buf then (Inl IoErrShortWrite, x)
              else seed_loop ops h (drop seed_buf data) (off + of_nat written) x))))"
  by pat_completeness auto
termination
  by (relation "measure (\<lambda>(_, _, data, _, _). length data)") (auto simp: seed_buf_def)

declare seed_loop.simps [simp del]

lemma seed_loop_Nil [simp]: "seed_loop ops h [] off x = (Inr (), x)"
  by (subst seed_loop.simps) simp

text \<open>\<open>os.O_WRONLY|os.O_TRUNC\<close>.\<close>

definition seed_flags :: u32 where "seed_flags = 0x201"

definition copyFileToRemote ::
  "('o, 'x, 'h) remote_ops \<Rightarrow> bytes local_fs \<Rightarrow> string \<Rightarrow> string \<Rightarrow> u32 \<Rightarrow> 'o \<Rightarrow> unit result \<times> 'o" where
  "copyFileToRemote ops s localPath remotePath mode net =
     (case os_ReadFile localPath s of
        Inl e \<Rightarrow> (Inl e, net)
      | Inr data \<Rightarrow>
          (let (r, x) =
             (case ro_Remove ops remotePath (ro_New ops net) of
                (r, x) \<Rightarrow>
                  (case (case r of Inl e \<Rightarrow> if \<not> errors_Is e OsErrNotExist then Some e else None
                         | Inr _ \<Rightarrow> None) of
                     Some e \<Rightarrow> (Inl e, x)
                   | None \<Rightarrow>
                       (case ro_Create ops remotePath mode seed_flags x of
                          (Inl e, x) \<Rightarrow> (Inl e, x)
                        | (Inr h, x) \<Rightarrow>
                            (let (r, x) = seed_loop ops h data 0 x; (_, x) = ro_Close ops h x in (r, x)))))
           in (r, ro_drop ops x net)))"

subsection \<open>The tree\<close>

record 'o seed_state =
  sd_net :: 'o
  sd_seen :: "string list"

definition seed_visit ::
  "('o, 'x, 'h) remote_ops \<Rightarrow> bytes local_fs \<Rightarrow> string \<Rightarrow> (bytes, 'o seed_state) visitor" where
  "seed_visit ops s src localPath d err st =
     (case err of
        Some e \<Rightarrow> (Fail e, st)
      | None \<Rightarrow>
          (case path_Rel src localPath of
             Inl e \<Rightarrow> (Fail e, st)
           | Inr rel \<Rightarrow>
               (if rel = ''.'' then (Go, st)
                else if shouldSkipSeedPath rel then (if is_dir_node d then (SkipDir, st) else (Go, st))
                else (let st = st\<lparr>sd_seen := rel # sd_seen st\<rparr>; remotePath = path_Join [[slash], rel] in
                  (case os_Lstat localPath s of
                     Inl e \<Rightarrow> (Fail e, st)
                   | Inr (DirNode m) \<Rightarrow>
                       (let (r, x) = ro_Mkdir ops remotePath (and m 0x1FF) (ro_New ops (sd_net st));
                            st = st\<lparr>sd_net := ro_drop ops x (sd_net st)\<rparr>
                        in (case r of
                              Inl e \<Rightarrow> (if \<not> errors_Is e OsErrExist then (Fail e, st) else (Go, st))
                            | Inr _ \<Rightarrow> (Go, st)))
                   | Inr (LinkNode _) \<Rightarrow>
                       (Fail (ErrorString (''symlink seeding is not supported for '' @ localPath)), st)
                   | Inr (FileNode m _) \<Rightarrow>
                       (let (r, net) = copyFileToRemote ops s localPath remotePath (and m 0x1FF) (sd_net st)
                        in (ctl_of r, st\<lparr>sd_net := net\<rparr>)))))))"

text \<open>
  The remote listing has fuel for its depth; \<open>None\<close> is a listing that is deeper or does not
  end.
\<close>

fun list_children ::
  "(string \<Rightarrow> 'o \<Rightarrow> (string list result \<times> 'o) option) \<Rightarrow> entry list \<Rightarrow> string list \<Rightarrow> 'o \<Rightarrow>
   (string list result \<times> 'o) option" where
  "list_children deeper [] paths net = Some (Inr paths, net)"
| "list_children deeper (e # es) paths net =
     (let paths = paths @ [ePath e] in
      if eMode e AND ModeDir \<noteq> 0 then
        (case deeper (ePath e) net of
           None \<Rightarrow> None
         | Some (Inl err, net) \<Rightarrow> Some (Inl err, net)
         | Some (Inr childPaths, net) \<Rightarrow> list_children deeper es (paths @ childPaths) net)
      else list_children deeper es paths net)"

fun listRemotePaths ::
  "nat \<Rightarrow> ('o, 'x, 'h) remote_ops \<Rightarrow> string \<Rightarrow> 'o \<Rightarrow> (string list result \<times> 'o) option" where
  "listRemotePaths 0 ops root net = None"
| "listRemotePaths (Suc n) ops root net =
     (case ro_List ops root (ro_New ops net) of
        None \<Rightarrow> None
      | Some (Inl e, x) \<Rightarrow> Some (Inl e, ro_drop ops x net)
      | Some (Inr entries, x) \<Rightarrow> list_children (listRemotePaths n ops) entries [] (ro_drop ops x net))"

fun remove_extra ::
  "('o, 'x, 'h) remote_ops \<Rightarrow> string list \<Rightarrow> string list \<Rightarrow> 'o \<Rightarrow> unit result \<times> 'o" where
  "remove_extra ops visited [] net = (Inr (), net)"
| "remove_extra ops visited (remotePath # paths) net =
     (if TrimPrefix remotePath [slash] \<in> set visited then remove_extra ops visited paths net
      else (let (r, x) = ro_Remove ops remotePath (ro_New ops net); net = ro_drop ops x net in
        (case r of
           Inl e \<Rightarrow> (if \<not> errors_Is e OsErrNotExist then (Inl e, net) else remove_extra ops visited paths net)
         | Inr _ \<Rightarrow> remove_extra ops visited paths net)))"

text \<open>
  \<open>sort.Slice\<close> by the number of slashes, most first; paths with as many keep their order here,
  which the library does not promise.
\<close>

definition deepest_first :: "string list \<Rightarrow> string list" where
  "deepest_first paths = sort_key (\<lambda>p. - int (length (filter (\<lambda>c. c = slash) p))) paths"

definition copyTreeToRemote ::
  "nat \<Rightarrow> ('o, 'x, 'h) remote_ops \<Rightarrow> bool \<Rightarrow> string \<Rightarrow> bytes local_fs \<Rightarrow> 'o \<Rightarrow>
   unit result option \<times> 'o" where
  "copyTreeToRemote fuel ops mirror src s net =
     (case WalkDir fuel (\<lambda>_. s) (seed_visit ops s src) src \<lparr>sd_net = net, sd_seen = []\<rparr> of
        (Some (Inr _), st) \<Rightarrow>
          (if \<not> mirror then (Some (Inr ()), sd_net st)
           else (case listRemotePaths fuel ops [slash] (sd_net st) of
                   None \<Rightarrow> (None, sd_net st)
                 | Some (Inl e, net) \<Rightarrow> (Some (Inl e), net)
                 | Some (Inr remotePaths, net) \<Rightarrow>
                     (case remove_extra ops (sd_seen st) (deepest_first remotePaths) net of
                        (r, net) \<Rightarrow> (Some r, net))))
      | (r, st) \<Rightarrow> (r, sd_net st))"

subsection \<open>What succeeded remotely\<close>

text \<open>
  Operations that also record what they achieved. \<open>RExists\<close> is a directory the server said
  exists; \<open>RWrite\<close> holds the bytes written.
\<close>

datatype revent =
    RMkdir string | RExists string | RRemove string | RCreate string
  | RWrite string u64 bytes

fun ev_path :: "revent \<Rightarrow> string" where
  "ev_path (RMkdir p) = p" | "ev_path (RExists p) = p" | "ev_path (RRemove p) = p"
| "ev_path (RCreate p) = p" | "ev_path (RWrite p _ _) = p"

definition logged ::
  "('o, 'x, 'h) remote_ops \<Rightarrow>
   ('o \<times> revent list, 'x \<times> revent list, string \<times> 'h) remote_ops" where
  "logged ops = \<lparr>
     ro_New = (\<lambda>(net, l). (ro_New ops net, l)),
     ro_drop = (\<lambda>(x, l) (net, _). (ro_drop ops x net, l)),
     ro_List = (\<lambda>p (x, l). map_option (\<lambda>(r, x). (r, (x, l))) (ro_List ops p x)),
     ro_Mkdir = (\<lambda>p m (x, l). case ro_Mkdir ops p m x of (r, x) \<Rightarrow>
        (r, (x, l @ (case r of Inr _ \<Rightarrow> [RMkdir p] | Inl e \<Rightarrow> if errors_Is e OsErrExist then [RExists p] else [])))),
     ro_Remove = (\<lambda>p (x, l). case ro_Remove ops p x of (r, x) \<Rightarrow>
        (r, (x, l @ (case r of Inr _ \<Rightarrow> [RRemove p] | Inl _ \<Rightarrow> [])))),
     ro_Create = (\<lambda>p m f (x, l). case ro_Create ops p m f x of
          (Inl e, x) \<Rightarrow> (Inl e, (x, l)) | (Inr h, x) \<Rightarrow> (Inr (p, h), (x, l @ [RCreate p]))),
     ro_WriteAt = (\<lambda>(p, h) buf off (x, l). case ro_WriteAt ops h buf off x of
          ((n, e), x) \<Rightarrow> ((n, e), (x, l @ [RWrite p off (take n buf)]))),
     ro_Close = (\<lambda>(p, h) (x, l). case ro_Close ops h x of (r, x) \<Rightarrow> (r, (x, l)))\<rparr>"

text \<open>The record has no influence: without it the same run is seen.\<close>

lemma logged_simps [simp]:
  "ro_New (logged ops) (net, l) = (ro_New ops net, l)"
  "ro_drop (logged ops) (x, l) (net, l') = (ro_drop ops x net, l)"
  by (simp_all add: logged_def)

lemma logged_seed_loop:
  "seed_loop (logged ops) (p, h) data off (x, l) = (r, (x', l')) \<Longrightarrow> seed_loop ops h data off x = (r, x')"
proof (induction ops h data off x arbitrary: l rule: seed_loop.induct)
  case (1 ops h data off x)
  show ?case
  proof (cases "data = []")
    case True
    then show ?thesis using 1(2) by simp
  next
    case False
    obtain n e x1 where w: "ro_WriteAt ops h (take seed_buf data) off x = ((n, e), x1)"
      by (metis prod.collapse)
    show ?thesis
      using 1(2) False w 1(1) [OF False refl w [symmetric]]
      by (subst seed_loop.simps, subst (asm) seed_loop.simps)
        (auto simp: logged_def Let_def split: option.splits if_splits)
  qed
qed

definition unlog :: "('o \<times> revent list) seed_state \<Rightarrow> 'o seed_state" where
  "unlog st = \<lparr>sd_net = fst (sd_net st), sd_seen = sd_seen st\<rparr>"

lemma logged_copyFile:
  "copyFileToRemote (logged ops) s p q m (net, l) = (r, (net', l')) \<Longrightarrow>
   copyFileToRemote ops s p q m net = (r, net')"
  unfolding copyFileToRemote_def
  by (auto simp: Let_def logged_def split: sum.splits prod.splits if_splits option.splits
      dest!: logged_seed_loop [unfolded logged_def])

lemma logged_visit:
  "seed_visit ops s src p d e (unlog st) =
   (fst (seed_visit (logged ops) s src p d e st), unlog (snd (seed_visit (logged ops) s src p d e st)))"
proof -
  obtain net l sn where st: "st = \<lparr>sd_net = (net, l), sd_seen = sn\<rparr>"
    by (cases st) auto
  have mk: "ro_Mkdir ops q m (ro_New ops net) = (r, x) \<Longrightarrow>
      \<exists>l'. ro_Mkdir (logged ops) q m (ro_New (logged ops) (net, l)) = (r, (x, l'))" for q m r x
    by (simp add: logged_def)
  have cp: "\<exists>l'. copyFileToRemote (logged ops) s p q m (net, l) = (r, (net', l'))"
    if "copyFileToRemote ops s p q m net = (r, net')" for q m r net'
  proof -
    obtain r2 n2 l2 where "copyFileToRemote (logged ops) s p q m (net, l) = (r2, (n2, l2))"
      by (metis prod.collapse)
    with logged_copyFile [OF this] that show ?thesis by simp
  qed
  show ?thesis
  proof (cases "e = None \<and> (\<exists>rel. path_Rel src p = Inr rel \<and> rel \<noteq> ''.'' \<and> \<not> shouldSkipSeedPath rel)")
    case False
    then show ?thesis
      by (auto simp: seed_visit_def st unlog_def split: option.splits sum.splits)
  next
    case True
    then obtain rel where rel: "e = None" "path_Rel src p = Inr rel" "rel \<noteq> ''.''" "\<not> shouldSkipSeedPath rel"
      by blast
    let ?q = "path_Join [[slash], rel]"
    show ?thesis
    proof (cases "os_Lstat p s")
      case (Inl err)
      with rel show ?thesis by (simp add: seed_visit_def st unlog_def)
    next
      case (Inr nd)
      show ?thesis
      proof (cases nd)
        case (DirNode m)
        obtain r x where k: "ro_Mkdir ops ?q (and m 0x1FF) (ro_New ops net) = (r, x)"
          by (cases "ro_Mkdir ops ?q (and m 0x1FF) (ro_New ops net)")
        from mk [OF k] obtain l' where
          "ro_Mkdir (logged ops) ?q (and m 0x1FF) (ro_New (logged ops) (net, l)) = (r, (x, l'))" by blast
        with rel Inr DirNode k show ?thesis
          by (cases r; cases "errors_Is (projl r) OsErrExist") (simp_all add: seed_visit_def st unlog_def)
      next
        case (FileNode m c)
        obtain r net' where k: "copyFileToRemote ops s p ?q (and m 0x1FF) net = (r, net')"
          by (cases "copyFileToRemote ops s p ?q (and m 0x1FF) net")
        from cp [OF k] obtain l' where
          "copyFileToRemote (logged ops) s p ?q (and m 0x1FF) (net, l) = (r, (net', l'))" by blast
        with rel Inr FileNode k show ?thesis by (simp add: seed_visit_def st unlog_def)
      next
        case (LinkNode t)
        with rel Inr show ?thesis by (simp add: seed_visit_def st unlog_def)
      qed
    qed
  qed
qed

lemma logged_children:
  assumes "\<And>p net l. g p (net, l) = map_option (\<lambda>(r, net). (r, (net, l))) (f p net)"
  shows "list_children g es ps (net, l) = map_option (\<lambda>(r, net). (r, (net, l))) (list_children f es ps net)"
proof (induction es arbitrary: ps net)
  case (Cons e es)
  show ?case
    by (cases "f (ePath e) net") (auto simp: Let_def assms Cons split: sum.split)
qed simp

lemma logged_listRemotePaths:
  "listRemotePaths n (logged ops) root (net, l) =
   map_option (\<lambda>(r, net). (r, (net, l))) (listRemotePaths n ops root net)"
proof (induction n arbitrary: root net l)
  case (Suc n)
  have L: "ro_List (logged ops) root (x, l) = map_option (\<lambda>(r, x). (r, (x, l))) (ro_List ops root x)" for x
    by (simp add: logged_def)
  show ?case
    by (cases "ro_List ops root (ro_New ops net)")
      (auto simp: L logged_children [where g = "listRemotePaths n (logged ops)", OF Suc] split: sum.split)
qed simp

lemma logged_remove_extra:
  "remove_extra (logged ops) sn ps (net, l) = (r, (net', l')) \<Longrightarrow> remove_extra ops sn ps net = (r, net')"
proof (induction ps arbitrary: net l)
  case (Cons p ps)
  obtain r1 x1 where k: "ro_Remove ops p (ro_New ops net) = (r1, x1)" by (cases "ro_Remove ops p (ro_New ops net)")
  then obtain l1 where "ro_Remove (logged ops) p (ro_New (logged ops) (net, l)) = (r1, (x1, l1))"
    by (auto simp: logged_def)
  with Cons k show ?case by (auto simp: Let_def split: sum.splits if_splits)
qed simp

lemma logged_copyTree:
  assumes "copyTreeToRemote fuel (logged ops) mirror src s (net, l) = (r, (net', l'))"
  shows "copyTreeToRemote fuel ops mirror src s net = (r, net')"
proof -
  let ?w = "WalkDir fuel (\<lambda>_. s) (seed_visit (logged ops) s src) src \<lparr>sd_net = (net, l), sd_seen = []\<rparr>"
  have "WalkDir fuel (\<lambda>_. s) (seed_visit ops s src) src \<lparr>sd_net = net, sd_seen = []\<rparr> =
      (fst ?w, unlog (snd ?w))"
    using WalkDir_map [of "seed_visit ops s src" unlog "seed_visit (logged ops) s src" "\<lambda>_. s" "\<lambda>_. s" fuel
      src "\<lparr>sd_net = (net, l), sd_seen = []\<rparr>", OF logged_visit] by (simp add: unlog_def)
  moreover obtain c n1 l1 sn where "?w = (c, \<lparr>sd_net = (n1, l1), sd_seen = sn\<rparr>)"
    by (metis prod.collapse seed_state.surjective unit.exhaust)
  ultimately show ?thesis
    using assms by (auto simp: copyTreeToRemote_def unlog_def logged_listRemotePaths
        split: option.splits sum.splits if_splits prod.splits dest!: logged_remove_extra)
qed

subsection \<open>Replaying it\<close>

datatype rnode = RDir | RFile bytes

definition put_at :: "nat \<Rightarrow> bytes \<Rightarrow> bytes \<Rightarrow> bytes" where
  "put_at off bs c = take off (c @ replicate (off - length c) (byte_of 0)) @ bs @ drop (off + length bs) c"

fun replay1 :: "revent \<Rightarrow> (string \<rightharpoonup> rnode) \<Rightarrow> (string \<rightharpoonup> rnode)" where
  "replay1 (RMkdir p) t = t(p \<mapsto> RDir)"
| "replay1 (RExists p) t = t"
| "replay1 (RRemove p) t = t(p := None)"
| "replay1 (RCreate p) t = t(p \<mapsto> RFile [])"
| "replay1 (RWrite p off bs) t =
     (case t p of Some (RFile c) \<Rightarrow> t(p \<mapsto> RFile (put_at (unat off) bs c)) | _ \<Rightarrow> t)"

definition replay :: "revent list \<Rightarrow> (string \<rightharpoonup> rnode) \<Rightarrow> (string \<rightharpoonup> rnode)" where
  "replay evs t = fold replay1 evs t"

lemma replay_append: "replay (l @ evs) t = replay evs (replay l t)"
  by (simp add: replay_def)

lemma replay_other: "\<forall>ev \<in> set evs. ev_path ev \<noteq> p \<Longrightarrow> replay evs t p = t p"
proof (induction evs arbitrary: t)
  case (Cons ev evs)
  have "replay1 ev t p = t p" using Cons.prems by (cases ev) (auto split: option.split rnode.split)
  with Cons show ?case by (simp add: replay_def)
qed (simp add: replay_def)

text \<open>The remote file after the events is what was to be copied.\<close>

lemma seed_loop_replay:
  assumes "seed_loop (logged ops) (p, h) data off (x, l) = (Inr (), (x', l'))"
  shows "\<exists>evs. l' = l @ evs \<and> (\<forall>ev \<in> set evs. ev_path ev = p) \<and>
    (\<forall>t c. t p = Some (RFile c) \<and> length c = unat off \<and> unat off + length data < 2 ^ 64 \<longrightarrow>
      replay evs t p = Some (RFile (c @ data)))"
  using assms
proof (induction "length data" arbitrary: data off x l rule: less_induct)
  case less
  show ?case
  proof (cases "data = []")
    case False
    define buf where "buf = take seed_buf data"
    obtain n e x1 where w: "ro_WriteAt ops h buf off x = ((n, e), x1)" by (metis prod.collapse)
    have lw: "ro_WriteAt (logged ops) (p, h) buf off (x, l) = ((n, e), (x1, l @ [RWrite p off (take n buf)]))"
      by (simp add: logged_def w)
    note step = less(2) [unfolded seed_loop.simps [of "logged ops" "(p, h)" data off "(x, l)"]]
    have "e = None \<and> n = length buf \<and> 
        seed_loop (logged ops) (p, h) (drop seed_buf data) (off + of_nat n)
          (x1, l @ [RWrite p off buf]) = (Inr (), (x', l'))"
      using step False lw by (auto simp: buf_def [symmetric] Let_def split: option.splits if_splits)
    then have e: "e = None" "n = length buf" and
      rest: "seed_loop (logged ops) (p, h) (drop seed_buf data) (off + of_nat n)
        (x1, l @ [RWrite p off buf]) = (Inr (), (x', l'))" by blast+
    have "length (drop seed_buf data) < length data" using False by (simp add: seed_buf_def)
    from less(1) [OF this rest] obtain evs where evs: "l' = (l @ [RWrite p off buf]) @ evs"
      "\<forall>ev \<in> set evs. ev_path ev = p"
      "\<And>t c. t p = Some (RFile c) \<Longrightarrow> length c = unat (off + of_nat n) \<Longrightarrow>
        unat (off + of_nat n) + length (drop seed_buf data) < 2 ^ 64 \<Longrightarrow>
        replay evs t p = Some (RFile (c @ drop seed_buf data))" by blast
    have data: "buf @ drop seed_buf data = data" by (simp add: buf_def)
    then have len: "length buf + length (drop seed_buf data) = length data" by (metis length_append)
    have "replay (RWrite p off buf # evs) t p = Some (RFile (c @ data))"
      if t: "t p = Some (RFile c)" "length c = unat off" "unat off + length data < 2 ^ 64" for t c
    proof -
      have n: "unat (off + of_nat n) = unat off + n"
        using t(3) len e(2) by (subst unat_add_lem [THEN iffD1]) (simp_all add: unat_of_nat)
      have "put_at (unat off) buf c = c @ buf" using t(2) by (simp add: put_at_def)
      with t(1) have "replay1 (RWrite p off buf) t p = Some (RFile (c @ buf))" by simp
      from evs(3) [of "replay1 (RWrite p off buf) t" "c @ buf", OF this] n t len e(2) data
      show ?thesis by (simp add: replay_def)
    qed
    with evs show ?thesis by (intro exI [of _ "RWrite p off buf # evs"]) auto
  qed (use less(2) in \<open>auto simp: replay_def\<close>)
qed

lemma copyFile_replay:
  assumes "copyFileToRemote (logged ops) s q p m (net, l) = (Inr (), (net', l'))"
  shows "\<exists>evs data. os_ReadFile q s = Inr data \<and> l' = l @ evs \<and> (\<forall>ev \<in> set evs. ev_path ev = p) \<and>
    (length data < 2 ^ 64 \<longrightarrow> (\<forall>t. replay evs t p = Some (RFile data)))"
proof -
  obtain data where d: "os_ReadFile q s = Inr data"
    using assms by (auto simp: copyFileToRemote_def split: sum.splits)
  obtain r x l1 where rm: "ro_Remove (logged ops) p (ro_New ops net, l) = (r, (x, l1))"
    by (metis prod.collapse)
  then have l1: "l1 = l \<or> l1 = l @ [RRemove p]" by (auto simp: logged_def split: prod.splits sum.splits)
  obtain hr x2 l2 where cr: "ro_Create (logged ops) p m seed_flags (x, l1) = (hr, (x2, l2))"
    by (metis prod.collapse)
  obtain h where h: "hr = Inr h"
    using assms by (auto simp: copyFileToRemote_def d rm cr Let_def split: sum.splits if_splits)
  then have l2: "l2 = l1 @ [RCreate p]" "\<exists>k. h = (p, k)"
    using cr by (auto simp: logged_def split: prod.splits sum.splits)
  then obtain k where k: "h = (p, k)" by blast
  obtain lr x3 l3 where lp: "seed_loop (logged ops) (p, k) data 0 (x2, l2) = (lr, (x3, l3))"
    by (metis prod.collapse)
  obtain c x4 where cl: "ro_Close (logged ops) (p, k) (x3, l3) = (c, (x4, l3))"
    by (cases "ro_Close ops k x3") (auto simp: logged_def)
  have "lr = Inr ()" "l' = l3"
    using assms by (auto simp: copyFileToRemote_def d rm cr h k lp cl Let_def split: sum.splits if_splits)
  with lp obtain evs where evs: "l' = l2 @ evs" "\<forall>ev \<in> set evs. ev_path ev = p"
    "\<And>t. t p = Some (RFile []) \<Longrightarrow> length data < 2 ^ 64 \<Longrightarrow> replay evs t p = Some (RFile data)"
    using seed_loop_replay [of ops p k data 0 x2 l2 x3 l3] by auto
  from l1 l2(1) obtain rs where rs: "l2 = l @ rs @ [RCreate p]" "\<forall>ev \<in> set rs. ev_path ev = p"
    by (elim disjE) auto
  have "replay ((rs @ [RCreate p]) @ evs) t p = Some (RFile data)" if "length data < 2 ^ 64" for t
    using evs(3) that unfolding replay_append by (simp add: replay_def)
  with d evs rs show ?thesis by (intro exI [of _ "(rs @ [RCreate p]) @ evs"] exI [of _ data]) auto
qed

subsection \<open>The contract of the walk\<close>

definition seed_setting :: "string \<Rightarrow> bytes local_fs \<Rightarrow> bool" where
  "seed_setting src s \<longleftrightarrow> src \<noteq> [] \<and> fs_ok s \<and> names_ok s \<and>
     (\<forall>(p, d) \<in> set (nodes s). case d of FileNode _ c \<Rightarrow> length c < 2 ^ 63 | _ \<Rightarrow> True)"

definition from_source :: "string \<Rightarrow> bytes local_fs \<Rightarrow> string \<Rightarrow> bool" where
  "from_source src s p \<longleftrightarrow>
     (\<exists>ns. sent ns \<and> node s (counterpart src ns) \<noteq> None \<and> p = rooted_path ns)"

text \<open>The events put a copy of the source node at the path; a symbolic link has none.\<close>

definition seeded :: "revent list \<Rightarrow> string \<Rightarrow> bytes fnode \<Rightarrow> bool" where
  "seeded l p d = (case d of
      DirNode _ \<Rightarrow> RMkdir p \<in> set l \<or> RExists p \<in> set l
    | FileNode _ c \<Rightarrow> \<forall>t. replay l t p = Some (RFile c)
    | LinkNode _ \<Rightarrow> False)"

definition seed_inv :: "string \<Rightarrow> bytes local_fs \<Rightarrow> ('o \<times> revent list) seed_state \<Rightarrow> bool" where
  "seed_inv src s st \<longleftrightarrow> seed_setting src s \<and>
     (\<forall>ev \<in> set (snd (sd_net st)). from_source src s (ev_path ev))"

definition seed_post ::
  "string \<Rightarrow> bytes local_fs \<Rightarrow> string list \<Rightarrow> ('o \<times> revent list) seed_state \<Rightarrow> bool" where
  "seed_post src s ns st \<longleftrightarrow>
     (sent ns \<longrightarrow> (\<forall>d. node s (counterpart src ns) = Some d \<longrightarrow>
       Join ns [slash] \<in> set (sd_seen st) \<and> seeded (snd (sd_net st)) (rooted_path ns) d))"

lemma seeded_append:
  assumes "seeded l p d" "\<forall>ev \<in> set evs. ev_path ev \<noteq> p"
  shows "seeded (l @ evs) p d"
  using assms by (cases d) (auto simp: seeded_def replay_append replay_other)

lemma seed_step:
  assumes "seed_inv src s st" "list_all path_name ns" "sent ns" "node s (counterpart src ns) = Some d"
    and names: "\<And>ms. node s (counterpart src ms) \<noteq> None \<Longrightarrow> list_all path_name ms"
    and "snd (sd_net st') = snd (sd_net st) @ evs" "sd_seen st' = Join ns [slash] # sd_seen st"
    and "\<forall>ev \<in> set evs. ev_path ev = rooted_path ns" "seeded (snd (sd_net st')) (rooted_path ns) d"
  shows "seed_inv src s st' \<and> seed_post src s ns st' \<and> (\<forall>ms. seed_post src s ms st \<longrightarrow> seed_post src s ms st')"
proof (intro conjI allI impI)
  show "seed_inv src s st'"
    using assms(1,3,4,6,8) by (auto simp: seed_inv_def from_source_def)
  show post: "seed_post src s ns st'" using assms(4,7,9) by (simp add: seed_post_def)
  show "seed_post src s ms st'" if m: "seed_post src s ms st" for ms
  proof (cases "ms = ns")
    case False
    show ?thesis
      unfolding seed_post_def
    proof (intro impI allI conjI)
      fix d' assume d': "sent ms" "node s (counterpart src ms) = Some d'"
      with m assms(7) show "Join ms [slash] \<in> set (sd_seen st')" by (simp add: seed_post_def)
      have "rooted_path ns \<noteq> rooted_path ms"
        using False names d'(2) assms(2) rooted_path_inject [of ns ms] by auto
      with m d' assms(6,8) show "seeded (snd (sd_net st')) (rooted_path ms) d'"
        by (auto simp: seed_post_def intro!: seeded_append)
    qed
  qed (use post in simp)
qed

lemma remote_path: "list_all path_name ns \<Longrightarrow> ns \<noteq> [] \<Longrightarrow> path_Join [[slash], Join ns [slash]] = rooted_path ns"
  using path_names_rooted_path [of ns] by (simp add: path_Join_def Clean_rooted rooted_path_def)

lemma seed_names:
  "seed_setting src s \<Longrightarrow> node s (counterpart src ns) \<noteq> None \<Longrightarrow> list_all path_name ns"
  by (auto simp: seed_setting_def counterpart_def intro: names_ok_below)

lemma seed_visit_contract:
  assumes inv: "seed_inv src s st" and path: "lp path = counterpart src ns"
    and d: "node s (lp path) = Some d"
    and v: "seed_visit (logged ops) s src path (Some d) None st = (c, st')" and nf: "\<And>e. c \<noteq> Fail e"
  shows "seed_inv src s st' \<and> seed_post src s ns st' \<and>
    (\<forall>ms. seed_post src s ms st \<longrightarrow> seed_post src s ms st') \<and>
    (c = SkipDir \<longrightarrow> is_dir_node (Some d) \<and> ns \<noteq> [] \<and> \<not> sent ns)"
proof -
  have set: "seed_setting src s" using inv by (simp add: seed_inv_def)
  note names = seed_names [OF set]
  have ns: "list_all path_name ns" using names d path by simp
  note rel = path_Rel_under [OF path [unfolded counterpart_def]]
  have sk: "ns \<noteq> [] \<Longrightarrow> shouldSkipSeedPath (Join ns [slash]) \<longleftrightarrow> \<not> sent ns"
    using skip_names [OF ns] by (simp add: skip_def shouldSkipSeedPath_def)
  show ?thesis
  proof (cases "sent ns")
    case False
    have "(c, st') = (if is_dir_node (Some d) \<and> ns \<noteq> [] then (SkipDir, st) else (Go, st))"
      using v rel False Join_names_not_dot [OF ns] sk
      by (auto simp: seed_visit_def sent_def split: if_splits)
    with False inv show ?thesis by (auto simp: seed_post_def split: if_splits)
  next
    case True
    then have ne: "ns \<noteq> []" by (simp add: sent_def)
    obtain net l sn where st: "st = \<lparr>sd_net = (net, l), sd_seen = sn\<rparr>" by (cases st) auto
    define st1 where "st1 = st\<lparr>sd_seen := Join ns [slash] # sd_seen st\<rparr>"
    let ?p = "rooted_path ns"
    have st1: "sd_net st1 = (net, l)" "sd_seen st1 = Join ns [slash] # sn" by (simp_all add: st1_def st)
    have v': "(case os_Lstat path s of
         Inl e \<Rightarrow> (Fail e, st1)
       | Inr (DirNode m) \<Rightarrow>
           (let (r, x) = ro_Mkdir (logged ops) ?p (and m 0x1FF) (ro_New (logged ops) (sd_net st1));
                st = st1\<lparr>sd_net := ro_drop (logged ops) x (sd_net st1)\<rparr>
            in (case r of
                  Inl e \<Rightarrow> (if \<not> errors_Is e OsErrExist then (Fail e, st) else (Go, st))
                | Inr _ \<Rightarrow> (Go, st)))
       | Inr (LinkNode _) \<Rightarrow>
           (Fail (ErrorString (''symlink seeding is not supported for '' @ path)), st1)
       | Inr (FileNode m _) \<Rightarrow>
           (let (r, net) = copyFileToRemote (logged ops) s path ?p (and m 0x1FF) (sd_net st1)
            in (ctl_of r, st1\<lparr>sd_net := net\<rparr>))) = (c, st')"
      using v rel True Join_names_not_dot [OF ns ne] sk ne
      unfolding st1_def by (simp add: seed_visit_def Let_def remote_path [OF ns ne])
    have stat: "os_Lstat path s = Inr d"
      using v' nf d by (auto simp: os_Lstat_def split: option.splits)
    have "\<exists>evs. snd (sd_net st') = snd (sd_net st) @ evs \<and> sd_seen st' = Join ns [slash] # sd_seen st \<and>
        (\<forall>ev \<in> set evs. ev_path ev = ?p) \<and> seeded (snd (sd_net st')) ?p d \<and> c = Go"
    proof (cases d)
      case (DirNode m)
      obtain r x l1 where mk: "ro_Mkdir (logged ops) ?p (and m 0x1FF) (ro_New ops net, l) = (r, (x, l1))"
        by (metis prod.collapse)
      have ok: "(\<exists>u. r = Inr u) \<or> (\<exists>e. r = Inl e \<and> errors_Is e OsErrExist)"
        and st': "c = Go" "snd (sd_net st') = l1" "sd_seen st' = Join ns [slash] # sn"
        using v' stat DirNode mk nf by (auto simp: st1 Let_def split: sum.splits if_splits)
      from ok mk have "l1 = l @ [RMkdir ?p] \<or> l1 = l @ [RExists ?p]"
        by (auto simp: logged_def split: prod.splits)
      with st' DirNode show ?thesis by (auto simp: st seeded_def)
    next
      case (FileNode m x)
      obtain r n1 l1 where cp: "copyFileToRemote (logged ops) s path ?p (and m 0x1FF) (net, l) = (r, (n1, l1))"
        by (metis prod.collapse)
      have r: "r = Inr ()"
        using v' stat FileNode cp nf by (auto simp: st1 ctl_of_def split: sum.splits)
      then have st': "c = Go" "snd (sd_net st') = l1" "sd_seen st' = Join ns [slash] # sn"
        using v' stat FileNode cp by (auto simp: st1 ctl_of_def)
      from copyFile_replay [OF cp [unfolded r]] obtain evs data where
        k: "os_ReadFile path s = Inr data" "l1 = l @ evs" "\<forall>ev \<in> set evs. ev_path ev = ?p"
          "length data < 2 ^ 64 \<longrightarrow> (\<forall>t. replay evs t ?p = Some (RFile data))" by blast
      have data: "data = x" using k(1) d FileNode by (auto simp: os_ReadFile_def Let_def split: option.splits)
      have "(lp path, d) \<in> set (nodes s)"
        using d FileNode by (auto simp: node_def split: if_splits dest: map_of_SomeD)
      then have "length data < 2 ^ 64" using set data FileNode by (auto simp: seed_setting_def)
      with k st' data FileNode show ?thesis by (auto simp: st seeded_def replay_append)
    next
      case (LinkNode t)
      with v' stat nf show ?thesis by auto
    qed
    then show ?thesis using seed_step [OF inv ns True d [unfolded path] names] by blast
  qed
qed

interpretation seeding: walker "\<lambda>_. s" "seed_visit (logged ops) s src" src s "seed_inv src s"
    "\<lambda>ns. ns \<noteq> [] \<and> \<not> sent ns" "seed_post src s"
  for ops :: "('o, 'x, 'h) remote_ops" and src :: string and s :: "bytes local_fs"
proof
  fix st :: "('o \<times> revent list) seed_state" and ns assume "seed_inv src s st"
  then have set: "seed_setting src s" by (simp add: seed_inv_def)
  then show "src \<noteq> []" "fs_ok s" by (simp_all add: seed_setting_def)
  show "list_all path_name ns" if "node s (fst (lp src), snd (lp src) @ ns) \<noteq> None"
    using seed_names [OF set, of ns] that by (simp add: counterpart_def)
next
  show "\<exists>e' s'. seed_visit (logged ops) s src path d (Some e) st = (Fail e', s')" for path d e st
    by (simp add: seed_visit_def)
next
  fix st st' :: "('o \<times> revent list) seed_state" and c path ns d
  assume "seed_inv src s st" "lp path = (fst (lp src), snd (lp src) @ ns)" "node s (lp path) = Some d"
    "seed_visit (logged ops) s src path (Some d) None st = (c, st')" "\<And>e. c \<noteq> Fail e"
  then show "seed_inv src s st' \<and> seed_post src s ns st' \<and>
      (\<forall>ms. seed_post src s ms st \<longrightarrow> seed_post src s ms st') \<and>
      (c = SkipDir \<longrightarrow> is_dir_node (Some d) \<and> ns \<noteq> [] \<and> \<not> sent ns)"
    by (intro seed_visit_contract) (simp_all add: counterpart_def)
qed simp

subsection \<open>Properties\<close>

lemma remove_extra_events:
  "remove_extra (logged ops) sn ps (net, l) = (r, (net', l')) \<Longrightarrow>
   \<exists>evs. l' = l @ evs \<and> (\<forall>ev \<in> set evs. \<exists>q. ev = RRemove q \<and> TrimPrefix q [slash] \<notin> set sn)"
proof (induction ps arbitrary: net l)
  case (Cons p ps)
  show ?case
  proof (cases "TrimPrefix p [slash] \<in> set sn")
    case False
    obtain r1 x1 where k: "ro_Remove ops p (ro_New ops net) = (r1, x1)"
      by (cases "ro_Remove ops p (ro_New ops net)")
    define rm where "rm = (case r1 of Inr _ \<Rightarrow> [RRemove p] | Inl _ \<Rightarrow> [])"
    have "l' = l @ rm \<or> remove_extra (logged ops) sn ps (ro_drop ops x1 net, l @ rm) = (r, (net', l'))"
      using Cons.prems False k by (auto simp: logged_def rm_def Let_def split: sum.splits if_splits)
    then obtain evs where "l' = (l @ rm) @ evs" "\<forall>ev \<in> set evs. \<exists>q. ev = RRemove q \<and> TrimPrefix q [slash] \<notin> set sn"
      using Cons.IH [of "ro_drop ops x1 net" "l @ rm"] by fastforce
    with False show ?thesis by (intro exI [of _ "rm @ evs"]) (auto simp: rm_def split: sum.splits)
  qed (use Cons in simp)
qed simp

lemma TrimPrefix_rooted: "TrimPrefix (rooted_path ns) [slash] = Join ns [slash]"
  using TrimPrefix_append [of "[slash]" "Join ns [slash]"] by (simp add: rooted_path_def)

lemma logged_copyTree_rel:
  assumes "copyTreeToRemote fuel ops mirror src s net = (r, net')"
  shows "\<exists>l'. copyTreeToRemote fuel (logged ops) mirror src s (net, l) = (r, (net', l'))"
proof -
  obtain r1 n1 l1 where "copyTreeToRemote fuel (logged ops) mirror src s (net, l) = (r1, (n1, l1))"
    by (metis prod.collapse)
  with logged_copyTree [OF this] assms show ?thesis by simp
qed


text \<open>For evaluation, the buffer size is compared as an integer rather than counted down.\<close>

primrec take_int :: "'a list \<Rightarrow> int \<Rightarrow> 'a list" where
  "take_int [] i = []"
| "take_int (x # xs) i = (if i \<le> 0 then [] else x # take_int xs (i - 1))"

primrec drop_int :: "'a list \<Rightarrow> int \<Rightarrow> 'a list" where
  "drop_int [] i = []"
| "drop_int (x # xs) i = (if i \<le> 0 then x # xs else drop_int xs (i - 1))"

lemma take_drop_int: "take_int xs i = take (nat i) xs" "drop_int xs i = drop (nat i) xs"
  by (induction xs arbitrary: i) (auto simp: take_Cons' drop_Cons' nat_diff_distrib)

lemma seed_loop_code [code]:
  "seed_loop ops h data off x =
     (if data = [] then (Inr (), x)
      else (let buf = take_int data 131072 in
        (case ro_WriteAt ops h buf off x of
           ((_, Some e), x) \<Rightarrow> (Inl e, x)
         | ((written, None), x) \<Rightarrow>
             (if written \<noteq> length buf then (Inl IoErrShortWrite, x)
              else seed_loop ops h (drop_int data 131072) (off + of_nat written) x))))"
proof -
  have "nat 131072 = seed_buf" by (simp add: seed_buf_def)
  then show ?thesis unfolding take_drop_int by (simp only:) (rule seed_loop.simps)
qed

text \<open>A remote side for the witness: a server that accepts everything and lists one stray file.\<close>

definition yes_ops :: "(nat, nat, unit) remote_ops" where
  "yes_ops = \<lparr>ro_New = (\<lambda>n. n), ro_drop = (\<lambda>x _. x),
     ro_List = (\<lambda>p x. Some (Inr [\<lparr>ePath = ''/old'', eMode = 0, eSize = 0, eModTime = 0, eLinkname = []\<rparr>], x)),
     ro_Mkdir = (\<lambda>p m x. (Inr (), Suc x)), ro_Remove = (\<lambda>p x. (Inr (), Suc x)),
     ro_Create = (\<lambda>p m f x. (Inr (), Suc x)), ro_WriteAt = (\<lambda>h bs off x. ((length bs, None), Suc x)),
     ro_Close = (\<lambda>h x. (Inr (), x))\<rparr>"

definition seed_fs :: "bytes local_fs" where
  "seed_fs = \<lparr>nodes = [((True, [''s'']), DirNode 0x1ED), ((True, [''s'', ''d'']), DirNode 0x1ED),
     ((True, [''s'', ''.git'']), DirNode 0x1ED), ((True, [''s'', ''f'']), FileNode 0x1A4 ''xy'')],
     fault = (\<lambda>_. None)\<rparr>"


end
