(* ===== verification/Dp9ik_Wire.thy ===== *)
theory Dp9ik_Wire
  imports Go_Strings Go_Binary
begin

text \<open>
  The messages of the dp9ik protocol (\<open>internal/auth/dp9ik/dp9ik.go\<close> and \<open>wire.go\<close>):
  ticket requests, tickets, authenticators, their sealed form \<open>form1\<close>, and transcripts.

  A Go array \<open>[n]byte\<close> is a byte string of length \<open>n\<close>, which the predicates \<open>ticketreq_ok\<close>,
  \<open>ticket_ok\<close> and \<open>authenticator_ok\<close> state. The cipher \<open>chacha20poly1305\<close> is not part of
  the repository: it is a parameter, and \<open>cipher_ok\<close> is what its documentation promises.
  \<open>form1Counter\<close> is the state of the package: every encoding takes it and returns it.
\<close>

definition ANameLen :: nat where "ANameLen = 28"
definition DomLen :: nat where "DomLen = 48"
definition ChalLen :: nat where "ChalLen = 8"
definition NonceLen :: nat where "NonceLen = 32"
definition AESKeyLen :: nat where "AESKeyLen = 16"
definition PAKKeyLen :: nat where "PAKKeyLen = 32"
definition PAKSLen :: nat where "PAKSLen = (448 + 7) div 8"
definition PAKPLen :: nat where "PAKPLen = 4 * PAKSLen"
definition PAKHashLen :: nat where "PAKHashLen = 2 * PAKPLen"
definition PAKXLen :: nat where "PAKXLen = PAKSLen"
definition PAKYLen :: nat where "PAKYLen = PAKSLen"
definition TicketReqLen :: nat where "TicketReqLen = 3 * ANameLen + ChalLen + DomLen + 1"
definition TicketLen :: nat where "TicketLen = 12 + ChalLen + 2 * ANameLen + NonceLen + 16"
definition AuthLen :: nat where "AuthLen = 12 + ChalLen + NonceLen + 16"

lemmas len_defs =
  ANameLen_def DomLen_def ChalLen_def NonceLen_def AESKeyLen_def PAKKeyLen_def PAKSLen_def
  PAKPLen_def PAKHashLen_def PAKXLen_def PAKYLen_def TicketReqLen_def TicketLen_def AuthLen_def

definition AuthTreq :: byte where "AuthTreq = byte_of 1"
definition AuthOK :: byte where "AuthOK = byte_of 4"
definition AuthErr :: byte where "AuthErr = byte_of 5"
definition AuthOKvar :: byte where "AuthOKvar = byte_of 9"
definition AuthPAK :: byte where "AuthPAK = byte_of 19"
definition AuthTs :: byte where "AuthTs = byte_of 64"
definition AuthTc :: byte where "AuthTc = byte_of 65"
definition AuthAs :: byte where "AuthAs = byte_of 66"
definition AuthAc :: byte where "AuthAc = byte_of 67"

lemmas auth_consts =
  AuthTreq_def AuthOK_def AuthErr_def AuthOKvar_def AuthPAK_def AuthTs_def AuthTc_def
  AuthAs_def AuthAc_def

definition NUL :: byte where "NUL = byte_of 0"

record ticketreq =
  tr_Type :: byte
  tr_AuthID :: string
  tr_AuthDom :: string
  tr_Chal :: bytes
  tr_HostID :: string
  tr_UID :: string

record ticket =
  t_Num :: byte
  t_Chal :: bytes
  t_CUID :: string
  t_SUID :: string
  t_Key :: bytes
  t_Form :: nat

record authenticator =
  a_Num :: byte
  a_Chal :: bytes
  a_Rand :: bytes

record authkey =
  AES :: bytes
  PakKey :: bytes
  PakHash :: bytes

subsection \<open>Fixed fields\<close>

text \<open>\<open>putFixed\<close> on a zeroed field of \<open>n\<close> bytes: \<open>copy\<close> stops at the shorter of the two.\<close>

definition putFixed :: "nat \<Rightarrow> string \<Rightarrow> bytes" where
  "putFixed n value = take n value @ replicate (n - length value) NUL"

fun trim_end :: "bytes \<Rightarrow> nat \<Rightarrow> nat" where
  "trim_end src 0 = 0"
| "trim_end src (Suc n) = (if src ! n = NUL then trim_end src n else Suc n)"

definition trimFixed :: "bytes \<Rightarrow> string" where
  "trimFixed src = take (trim_end src (length src)) src"

subsection \<open>The sealed form\<close>

text \<open>
  The cipher: \<open>New\<close> checks the key, \<open>Seal\<close> and \<open>Open\<close> take key, nonce and text
  (the program never passes additional data).
\<close>

record cipher =
  New :: "bytes \<Rightarrow> go_error option"
  Seal :: "bytes \<Rightarrow> bytes \<Rightarrow> bytes \<Rightarrow> bytes"
  Open :: "bytes \<Rightarrow> bytes \<Rightarrow> bytes \<Rightarrow> bytes result"

definition cipher_ok :: "cipher \<Rightarrow> bool" where
  "cipher_ok C \<longleftrightarrow>
     (\<forall>key. length key = 32 \<longrightarrow> New C key = None) \<and>
     (\<forall>key nonce pt. length (Seal C key nonce pt) = length pt + 16) \<and>
     (\<forall>key nonce pt. length key = 32 \<longrightarrow> length nonce = 12 \<longrightarrow>
        Open C key nonce (Seal C key nonce pt) = Inr pt)"

definition form1TicketSignatures :: "(byte \<times> string) list" where
  "form1TicketSignatures = [(AuthTs, ''form1 Ts''), (AuthTc, ''form1 Tc'')]"

definition form1AuthSignatures :: "(byte \<times> string) list" where
  "form1AuthSignatures = [(AuthAs, ''form1 As''), (AuthAc, ''form1 Ac'')]"

definition form1Signature :: "byte \<Rightarrow> bytes option" where
  "form1Signature num =
     (if num = AuthTs then Some ''form1 Ts''
      else if num = AuthTc then Some ''form1 Tc''
      else if num = AuthAs then Some ''form1 As''
      else if num = AuthAc then Some ''form1 Ac''
      else None)"

fun form1Type :: "bytes \<Rightarrow> (byte \<times> string) list \<Rightarrow> byte option" where
  "form1Type sig [] = None"
| "form1Type sig ((num, want) # allowed) = (if sig = want then Some num else form1Type sig allowed)"

text \<open>\<open>copy(nonce[:8], sig)\<close> and the four bytes of the counter.\<close>

definition form1_nonce :: "bytes \<Rightarrow> u32 \<Rightarrow> bytes" where
  "form1_nonce sig counter = take 8 sig @ replicate (8 - length sig) NUL @
     [byte_of (unat counter), byte_of (unat (drop_bit 8 counter)),
      byte_of (unat (drop_bit 16 counter)), byte_of (unat (drop_bit 24 counter))]"

definition form1Encode ::
  "cipher \<Rightarrow> byte \<Rightarrow> bytes \<Rightarrow> bytes \<Rightarrow> u32 \<Rightarrow> bytes result \<times> u32" where
  "form1Encode C num plaintext key form1Counter =
     (case form1Signature num of
        None \<Rightarrow> (Inl (Panic (''unknown form1 signature '' @ string_of_nat (byte_val num))), form1Counter)
      | Some sig \<Rightarrow>
          (let counter = form1Counter; form1Counter = form1Counter + 1;
               nonce = form1_nonce sig counter
           in (case New C key of
                 Some err \<Rightarrow> (Inl (Panic (error_text err)), form1Counter)
               | None \<Rightarrow> (Inr (nonce @ Seal C key nonce plaintext), form1Counter))))"

definition form1Decode ::
  "cipher \<Rightarrow> bytes \<Rightarrow> bytes \<Rightarrow> (byte \<times> string) list \<Rightarrow> (byte \<times> bytes) result" where
  "form1Decode C data key allowed =
     (if length data < 12 + 16 then Inl (ErrorString ''short form1 payload'')
      else (case form1Type (take 8 data) allowed of
              None \<Rightarrow> Inl (ErrorString ''invalid form1 signature'')
            | Some num \<Rightarrow>
                (case New C key of
                   Some err \<Rightarrow> Inl err
                 | None \<Rightarrow>
                     (case Open C key (take 12 data) (drop 12 data) of
                        Inl err \<Rightarrow> Inl err
                      | Inr pt \<Rightarrow> Inr (num, pt)))))"

subsection \<open>Messages\<close>

definition slice :: "nat \<Rightarrow> nat \<Rightarrow> bytes \<Rightarrow> bytes" where
  "slice a b data = take (b - a) (drop a data)"

definition ticketreq_MarshalBinary :: "ticketreq \<Rightarrow> bytes result" where
  "ticketreq_MarshalBinary t =
     Inr ([tr_Type t] @ putFixed ANameLen (tr_AuthID t) @ putFixed DomLen (tr_AuthDom t) @
       tr_Chal t @ putFixed ANameLen (tr_HostID t) @ putFixed ANameLen (tr_UID t))"

definition ticketreq_UnmarshalBinary :: "bytes \<Rightarrow> ticketreq result" where
  "ticketreq_UnmarshalBinary data =
     (if length data \<noteq> TicketReqLen
      then Inl (ErrorString (''ticketreq length '' @ string_of_nat (length data)))
      else Inr \<lparr>tr_Type = data ! 0,
        tr_AuthID = trimFixed (slice 1 (1 + ANameLen) data),
        tr_AuthDom = trimFixed (slice (1 + ANameLen) (1 + ANameLen + DomLen) data),
        tr_Chal = slice (1 + ANameLen + DomLen) (1 + ANameLen + DomLen + ChalLen) data,
        tr_HostID = trimFixed (slice (1 + ANameLen + DomLen + ChalLen)
          (1 + 2 * ANameLen + DomLen + ChalLen) data),
        tr_UID = trimFixed (drop (1 + 2 * ANameLen + DomLen + ChalLen) data)\<rparr>)"

definition ticket_MarshalBinary ::
  "cipher \<Rightarrow> authkey option \<Rightarrow> ticket \<Rightarrow> u32 \<Rightarrow> bytes result \<times> u32" where
  "ticket_MarshalBinary C key t ctr =
     (case key of
        None \<Rightarrow> (Inl (ErrorString ''ticket key is required''), ctr)
      | Some k \<Rightarrow>
          (let payload = [t_Num t] @ t_Chal t @ putFixed ANameLen (t_CUID t) @
                 putFixed ANameLen (t_SUID t) @ t_Key t
           in form1Encode C (t_Num t) (drop 1 payload) (PakKey k) ctr))"

definition ticket_UnmarshalBinary ::
  "cipher \<Rightarrow> bytes \<Rightarrow> authkey option \<Rightarrow> ticket result" where
  "ticket_UnmarshalBinary C data key =
     (case key of
        None \<Rightarrow> Inl (ErrorString ''ticket key is required'')
      | Some k \<Rightarrow>
          (case form1Decode C data (PakKey k) form1TicketSignatures of
             Inl err \<Rightarrow> Inl err
           | Inr (num, payload) \<Rightarrow>
               (if length payload \<noteq> ChalLen + 2 * ANameLen + NonceLen
                then Inl (ErrorString (''ticket payload length '' @ string_of_nat (length payload)))
                else Inr \<lparr>t_Num = num, t_Chal = take ChalLen payload,
                  t_CUID = trimFixed (slice ChalLen (ChalLen + ANameLen) payload),
                  t_SUID = trimFixed (slice (ChalLen + ANameLen) (ChalLen + 2 * ANameLen) payload),
                  t_Key = drop (ChalLen + 2 * ANameLen) payload, t_Form = 1\<rparr>)))"

definition authenticator_MarshalBinary ::
  "cipher \<Rightarrow> ticket option \<Rightarrow> authenticator \<Rightarrow> u32 \<Rightarrow> bytes result \<times> u32" where
  "authenticator_MarshalBinary C tick a ctr =
     (case tick of
        None \<Rightarrow> (Inl (ErrorString ''ticket is required''), ctr)
      | Some t \<Rightarrow>
          (let payload = [a_Num a] @ a_Chal a @ a_Rand a
           in form1Encode C (a_Num a) (drop 1 payload) (t_Key t) ctr))"

definition authenticator_UnmarshalBinary ::
  "cipher \<Rightarrow> bytes \<Rightarrow> ticket option \<Rightarrow> authenticator result" where
  "authenticator_UnmarshalBinary C data tick =
     (case tick of
        None \<Rightarrow> Inl (ErrorString ''ticket is required'')
      | Some t \<Rightarrow>
          (case form1Decode C data (t_Key t) form1AuthSignatures of
             Inl err \<Rightarrow> Inl err
           | Inr (num, payload) \<Rightarrow>
               (if length payload \<noteq> ChalLen + NonceLen
                then Inl (ErrorString (''authenticator payload length '' @
                  string_of_nat (length payload)))
                else Inr \<lparr>a_Num = num, a_Chal = take ChalLen payload,
                  a_Rand = drop ChalLen payload\<rparr>)))"

subsection \<open>Transcripts\<close>

function ParseTranscript_from :: "bytes list \<Rightarrow> bytes \<Rightarrow> bytes list result" where
  "ParseTranscript_from out frame =
     (if length frame > 0 then
        (if length frame < 2 then Inl (ErrorString ''short frame header'')
         else (let n = get_be (take 2 frame); frame = drop 2 frame in
           (if length frame < n then Inl (ErrorString ''short frame payload'')
            else ParseTranscript_from (out @ [take n frame]) (drop n frame))))
      else Inr out)"
  by pat_completeness auto
termination
  by (relation "measure (\<lambda>(out, frame). length frame)") auto

declare ParseTranscript_from.simps [simp del]

definition ParseTranscript :: "bytes \<Rightarrow> bytes list result" where
  "ParseTranscript frame = ParseTranscript_from [] frame"


subsection \<open>Lemmas on fixed fields\<close>

lemma length_putFixed [simp]: "length (putFixed n v) = n"
  by (simp add: putFixed_def)

lemma trim_end_dropWhile:
  "n \<le> length src \<Longrightarrow>
   take (trim_end src n) src = rev (dropWhile (\<lambda>c. c = NUL) (rev (take n src)))"
  by (induction n) (auto simp: take_Suc_conv_app_nth)

lemma trimFixed_dropWhile: "trimFixed src = rev (dropWhile (\<lambda>c. c = NUL) (rev src))"
  by (simp add: trimFixed_def trim_end_dropWhile)

lemma trimFixed_padded [simp]: "trimFixed (s @ replicate k NUL) = trimFixed s"
  by (induction k) (simp_all add: trimFixed_dropWhile dropWhile_append)

lemma trimFixed_putFixed [simp]: "trimFixed (putFixed n v) = trimFixed (take n v)"
  by (simp add: putFixed_def)

lemma trimFixed_id: "s = [] \<or> last s \<noteq> NUL \<Longrightarrow> trimFixed s = s"
  by (cases s rule: rev_cases) (simp_all add: trimFixed_dropWhile)

lemma slice_append [simp]:
  "a = length xs \<Longrightarrow> b = length xs + length ys \<Longrightarrow> slice a b (xs @ ys @ zs) = ys"
  by (simp add: slice_def)

lemma slice_skip: "length xs \<le> a \<Longrightarrow> slice a b (xs @ ys) = slice (a - length xs) (b - length xs) ys"
  by (simp add: slice_def)

lemma slice_front: "length ys = b \<Longrightarrow> slice 0 b (ys @ zs) = ys"
  by (simp add: slice_def)

lemma slice_all: "length ys = b \<Longrightarrow> slice 0 b ys = ys"
  by (simp add: slice_def)

lemmas slice_simps = slice_skip slice_front slice_all

text \<open>A name as the other side reads it: cut to the field, padding removed.\<close>

definition field_name :: "nat \<Rightarrow> string \<Rightarrow> string" where
  "field_name n s = trimFixed (take n s)"

lemma field_name_id: "length s \<le> n \<Longrightarrow> s = [] \<or> last s \<noteq> NUL \<Longrightarrow> field_name n s = s"
  by (simp add: field_name_def trimFixed_id)

lemma ticketreq_length:
  "length (tr_Chal t) = ChalLen \<Longrightarrow>
   \<exists>data. ticketreq_MarshalBinary t = Inr data \<and> length data = TicketReqLen"
  by (simp add: ticketreq_MarshalBinary_def len_defs)

lemma ticketreq_unmarshal_marshal:
  assumes "length (tr_Chal t) = ChalLen" and "ticketreq_MarshalBinary t = Inr data"
  shows "ticketreq_UnmarshalBinary data =
    Inr (t\<lparr>tr_AuthID := field_name ANameLen (tr_AuthID t), tr_AuthDom := field_name DomLen (tr_AuthDom t),
      tr_HostID := field_name ANameLen (tr_HostID t), tr_UID := field_name ANameLen (tr_UID t)\<rparr>)"
proof -
  have data: "data = [tr_Type t] @ putFixed ANameLen (tr_AuthID t) @ putFixed DomLen (tr_AuthDom t) @
       tr_Chal t @ putFixed ANameLen (tr_HostID t) @ putFixed ANameLen (tr_UID t)"
    using assms(2) by (simp add: ticketreq_MarshalBinary_def)
  show ?thesis
    using assms(1)
    by (simp add: data ticketreq_UnmarshalBinary_def slice_simps field_name_def len_defs
      slice_skip [where xs = "[x]" for x, simplified])
qed

subsection \<open>Lemmas on the sealed form\<close>

lemma form1Signature_length: "form1Signature num = Some sig \<Longrightarrow> length sig = 8"
  by (auto simp: form1Signature_def split: if_splits)

lemma length_form1_nonce [simp]: "length sig = 8 \<Longrightarrow> length (form1_nonce sig c) = 12"
  by (simp add: form1_nonce_def)

lemma take_form1_nonce [simp]: "length sig = 8 \<Longrightarrow> take 8 (form1_nonce sig c) = sig"
  by (simp add: form1_nonce_def)

text \<open>Sealing under one signature: only decoders that allow it open the message.\<close>

lemma form1Encode_sealed:
  assumes "cipher_ok C" and "length key = 32" and sig: "form1Signature num = Some sig"
  shows "\<exists>data. form1Encode C num pt key ctr = (Inr data, ctr + 1) \<and>
    length data = 28 + length pt \<and> take 12 data = form1_nonce sig ctr \<and>
    (\<forall>allowed. form1Decode C data key allowed =
       (case form1Type sig allowed of
          None \<Rightarrow> Inl (ErrorString ''invalid form1 signature'')
        | Some n \<Rightarrow> Inr (n, pt)))"
proof -
  note [simp] = form1Signature_length [OF sig]
  let ?n = "form1_nonce sig ctr"
  have "New C key = None" "length (Seal C key ?n pt) = length pt + 16"
    "Open C key ?n (Seal C key ?n pt) = Inr pt"
    using assms unfolding cipher_ok_def by auto
  then show ?thesis
    using sig by (intro exI [where x = "?n @ Seal C key ?n pt"])
      (simp add: form1Encode_def form1Decode_def Let_def split: option.split)
qed

lemmas form1_evals = form1Signature_def form1TicketSignatures_def form1AuthSignatures_def auth_consts

lemma byte_of_inject: "a < 256 \<Longrightarrow> b < 256 \<Longrightarrow> byte_of a = byte_of b \<longleftrightarrow> a = b"
  by (metis byte_val_byte_of mod_less)

lemma auth_consts_distinct [simp]:
  "AuthTs \<noteq> AuthTc" "AuthTs \<noteq> AuthAs" "AuthTs \<noteq> AuthAc" "AuthTc \<noteq> AuthTs" "AuthTc \<noteq> AuthAs"
  "AuthTc \<noteq> AuthAc" "AuthAs \<noteq> AuthTs" "AuthAs \<noteq> AuthTc" "AuthAs \<noteq> AuthAc" "AuthAc \<noteq> AuthTs"
  "AuthAc \<noteq> AuthTc" "AuthAc \<noteq> AuthAs"
  by (simp_all add: auth_consts byte_of_inject)


lemma form1_nonce_put_le:
  "form1_nonce sig c = take 8 sig @ replicate (8 - length sig) NUL @ put_le 4 (unat c)"
proof -
  have shift: "unat (drop_bit k x) = unat x div 2 ^ k" for k and x :: u32
    by (rule trans [OF unat_drop_bit_eq drop_bit_eq_div])
  have four: "(4 :: nat) = Suc (Suc (Suc (Suc 0)))" by simp
  show ?thesis unfolding form1_nonce_def shift four by (simp add: div_mult2_eq [symmetric])
qed

lemma put_le_u32_inject: "put_le 4 (unat (c :: u32)) = put_le 4 (unat d) \<longleftrightarrow> c = d"
proof
  assume "put_le 4 (unat c) = put_le 4 (unat d)"
  then have "get_le (put_le 4 (unat c)) = get_le (put_le 4 (unat d))" by simp
  then show "c = d" by (simp add: word_unat_eq_iff)
qed simp

lemma form1_nonce_inject:
  assumes "length sig = 8" and "length sig' = 8"
  shows "form1_nonce sig c = form1_nonce sig' d \<longleftrightarrow> sig = sig' \<and> c = d"
  using assms by (simp add: form1_nonce_put_le put_le_u32_inject)

subsection \<open>Runs of encodings\<close>

text \<open>
  Everything the program seals goes through \<open>form1Encode\<close> with the counter of the package:
  a run is a list of requests (kind, text and key) served one after the other.
\<close>

fun encode_all :: "cipher \<Rightarrow> (byte \<times> bytes \<times> bytes) list \<Rightarrow> u32 \<Rightarrow> bytes result list \<times> u32" where
  "encode_all C [] ctr = ([], ctr)"
| "encode_all C ((num, pt, key) # reqs) ctr =
     (let (r, ctr) = form1Encode C num pt key ctr; (rs, ctr) = encode_all C reqs ctr
      in (r # rs, ctr))"

definition request_ok :: "byte \<times> bytes \<times> bytes \<Rightarrow> bool" where
  "request_ok = (\<lambda>(num, pt, key). form1Signature num \<noteq> None \<and> length key = 32)"

lemma encode_all_nth:
  assumes "cipher_ok C" and "list_all request_ok reqs" and "i < length reqs"
  shows "\<exists>data sig. fst (encode_all C reqs ctr) ! i = Inr data \<and>
    form1Signature (fst (reqs ! i)) = Some sig \<and> take 12 data = form1_nonce sig (ctr + of_nat i)"
  using assms(2,3)
proof (induction reqs arbitrary: ctr i)
  case (Cons r reqs)
  obtain num pt key where r: "r = (num, pt, key)" by (cases r)
  with Cons.prems obtain sig where sig: "form1Signature num = Some sig" and key: "length key = 32"
    by (auto simp: request_ok_def)
  from form1Encode_sealed [OF assms(1) key sig, of pt ctr] obtain data
    where d: "form1Encode C num pt key ctr = (Inr data, ctr + 1)" "take 12 data = form1_nonce sig ctr"
    by blast
  show ?case
  proof (cases i)
    case 0
    with d sig r show ?thesis by (simp add: split_beta)
  next
    case (Suc j)
    with Cons.IH [of j "ctr + 1"] Cons.prems d r show ?thesis by (simp add: split_beta add.assoc)
  qed
qed simp

lemma length_encode_all [simp]: "length (fst (encode_all C reqs ctr)) = length reqs"
  by (induction reqs arbitrary: ctr) (auto simp: split_beta)

subsection \<open>Properties\<close>

text \<open>
  Property C22: tickets and authenticators survive sealing. With a cipher that opens what it
  sealed, a ticket marshalled under a key has the length the protocol fixes and unmarshals
  under that key to the same challenge and session key, with the names cut to their fields;
  an authenticator likewise; and neither is accepted in the place of the other, even under
  one key.
\<close>

theorem sealed_messages_roundtrip:
  assumes C: "cipher_ok C" and k: "length (PakKey k) = PAKKeyLen"
    and t: "t_Num t \<in> {AuthTs, AuthTc}" "length (t_Chal t) = ChalLen" "length (t_Key t) = NonceLen"
    and a: "a_Num a \<in> {AuthAs, AuthAc}" "length (a_Chal a) = ChalLen" "length (a_Rand a) = NonceLen"
  shows "\<exists>tw aw. ticket_MarshalBinary C (Some k) t ctr = (Inr tw, ctr + 1) \<and>
    authenticator_MarshalBinary C (Some t) a (ctr + 1) = (Inr aw, ctr + 2) \<and>
    length tw = TicketLen \<and> length aw = AuthLen \<and>
    ticket_UnmarshalBinary C tw (Some k) =
      Inr (t\<lparr>t_CUID := field_name ANameLen (t_CUID t), t_SUID := field_name ANameLen (t_SUID t),
        t_Form := 1\<rparr>) \<and>
    authenticator_UnmarshalBinary C aw (Some t) = Inr a \<and>
    authenticator_UnmarshalBinary C tw (Some (t\<lparr>t_Key := PakKey k\<rparr>)) =
      Inl (ErrorString ''invalid form1 signature'') \<and>
    ticket_UnmarshalBinary C aw (Some (k\<lparr>PakKey := t_Key t\<rparr>)) =
      Inl (ErrorString ''invalid form1 signature'')"
proof -
  let ?tp = "t_Chal t @ putFixed ANameLen (t_CUID t) @ putFixed ANameLen (t_SUID t) @ t_Key t"
  let ?ap = "a_Chal a @ a_Rand a"
  from t(1) obtain ts where ts: "form1Signature (t_Num t) = Some ts"
    "form1Type ts form1TicketSignatures = Some (t_Num t)" "form1Type ts form1AuthSignatures = None"
    by (auto simp: form1Signature_def form1TicketSignatures_def form1AuthSignatures_def)
  from a(1) obtain as where as: "form1Signature (a_Num a) = Some as"
    "form1Type as form1AuthSignatures = Some (a_Num a)" "form1Type as form1TicketSignatures = None"
    by (auto simp: form1Signature_def form1TicketSignatures_def form1AuthSignatures_def)
  have "length (PakKey k) = 32" "length (t_Key t) = 32" using k t by (simp_all add: len_defs)
  with form1Encode_sealed [OF C _ ts(1), of "PakKey k" ?tp ctr]
    form1Encode_sealed [OF C _ as(1), of "t_Key t" ?ap "ctr + 1"] obtain tw aw
    where tw: "form1Encode C (t_Num t) ?tp (PakKey k) ctr = (Inr tw, ctr + 1)"
        "length tw = 28 + length ?tp"
        "\<And>al. form1Decode C tw (PakKey k) al = (case form1Type ts al of
          None \<Rightarrow> Inl (ErrorString ''invalid form1 signature'') | Some n \<Rightarrow> Inr (n, ?tp))"
      and aw: "form1Encode C (a_Num a) ?ap (t_Key t) (ctr + 1) = (Inr aw, ctr + 2)"
        "length aw = 28 + length ?ap"
        "\<And>al. form1Decode C aw (t_Key t) al = (case form1Type as al of
          None \<Rightarrow> Inl (ErrorString ''invalid form1 signature'') | Some n \<Rightarrow> Inr (n, ?ap))"
    by auto
  have "ticket_UnmarshalBinary C tw (Some k) =
      Inr (t\<lparr>t_CUID := field_name ANameLen (t_CUID t), t_SUID := field_name ANameLen (t_SUID t),
        t_Form := 1\<rparr>)"
    using t ts by (simp add: ticket_UnmarshalBinary_def tw len_defs slice_simps field_name_def)
  moreover have "authenticator_UnmarshalBinary C aw (Some t) = Inr a"
    using a as by (simp add: authenticator_UnmarshalBinary_def aw len_defs)
  moreover have "length tw = TicketLen" "length aw = AuthLen"
    using t a tw(2) aw(2) by (simp_all add: len_defs)
  ultimately show ?thesis
    using tw aw ts as
    by (simp add: ticket_MarshalBinary_def authenticator_MarshalBinary_def
      ticket_UnmarshalBinary_def authenticator_UnmarshalBinary_def)
qed

text \<open>A cipher for the witnesses: the text in the clear, followed by half of the key.\<close>

definition demo_cipher :: cipher where
  "demo_cipher = \<lparr>New = (\<lambda>key. if length key = 32 then None else Some (ErrorString ''bad key length'')),
     Seal = (\<lambda>key nonce pt. pt @ take 16 (key @ replicate 16 NUL)),
     Open = (\<lambda>key nonce ct. if drop (length ct - 16) ct = take 16 (key @ replicate 16 NUL)
       then Inr (take (length ct - 16) ct) else Inl (ErrorString ''message authentication failed''))\<rparr>"

lemma demo_cipher_ok: "cipher_ok demo_cipher"
  by (auto simp: cipher_ok_def demo_cipher_def min_def)

definition demo_ticket :: ticket where
  "demo_ticket = \<lparr>t_Num = AuthTc, t_Chal = ''12345678'', t_CUID = ''glenda'', t_SUID = ''bootes'',
     t_Key = replicate 32 (CHR ''k''), t_Form = 0\<rparr>"

definition demo_authenticator :: authenticator where
  "demo_authenticator = \<lparr>a_Num = AuthAc, a_Chal = ''87654321'', a_Rand = replicate 32 (CHR ''r'')\<rparr>"

theorem sealed_messages_roundtrip_witness:
  "\<exists>tw aw. ticket_MarshalBinary demo_cipher
      (Some \<lparr>AES = [], PakKey = replicate 32 (CHR ''p''), PakHash = []\<rparr>) demo_ticket 7 = (Inr tw, 7 + 1) \<and>
    authenticator_MarshalBinary demo_cipher (Some demo_ticket) demo_authenticator (7 + 1) = (Inr aw, 7 + 2) \<and>
    length tw = TicketLen \<and> authenticator_UnmarshalBinary demo_cipher aw (Some demo_ticket) =
      Inr demo_authenticator"
proof -
  have "t_Num demo_ticket \<in> {AuthTs, AuthTc}" "length (t_Chal demo_ticket) = ChalLen"
    "length (t_Key demo_ticket) = NonceLen" "a_Num demo_authenticator \<in> {AuthAs, AuthAc}"
    "length (a_Chal demo_authenticator) = ChalLen" "length (a_Rand demo_authenticator) = NonceLen"
    by (simp_all add: demo_ticket_def demo_authenticator_def len_defs)
  from sealed_messages_roundtrip [OF demo_cipher_ok _ this,
      of "\<lparr>AES = [], PakKey = replicate 32 (CHR ''p''), PakHash = []\<rparr>" 7]
  show ?thesis by (auto simp: PAKKeyLen_def)
qed

text \<open>
  Nonces of the sealed form. In a run of any number of encodings every
  message starts with its nonce, and two messages have the same nonce exactly when they are
  of the same kind and a multiple of $2^{32}$ encodings apart: within $2^{32}$ messages no
  nonce is used twice, and after that the counter wraps and nonces come back.
\<close>

lemma nonces_unique:
  assumes C: "cipher_ok C" and reqs: "list_all request_ok reqs"
    and i: "i < length reqs" and j: "j < length reqs"
  shows "\<exists>di dj. fst (encode_all C reqs ctr) ! i = Inr di \<and> fst (encode_all C reqs ctr) ! j = Inr dj \<and>
    (take 12 di = take 12 dj \<longleftrightarrow> fst (reqs ! i) = fst (reqs ! j) \<and> i mod 2 ^ 32 = j mod 2 ^ 32)"
proof -
  from encode_all_nth [OF C reqs i, of ctr] obtain di si where
    di: "fst (encode_all C reqs ctr) ! i = Inr di" "form1Signature (fst (reqs ! i)) = Some si"
      "take 12 di = form1_nonce si (ctr + of_nat i)" by blast
  from encode_all_nth [OF C reqs j, of ctr] obtain dj sj where
    dj: "fst (encode_all C reqs ctr) ! j = Inr dj" "form1Signature (fst (reqs ! j)) = Some sj"
      "take 12 dj = form1_nonce sj (ctr + of_nat j)" by blast
  have "si = sj \<longleftrightarrow> fst (reqs ! i) = fst (reqs ! j)"
    using di(2) dj(2) by (auto simp: form1Signature_def split: if_splits)
  moreover have "(of_nat i :: u32) = of_nat j \<longleftrightarrow> i mod 2 ^ 32 = j mod 2 ^ 32"
    by (simp add: word_of_nat_eq_iff take_bit_eq_mod)
  moreover have "length si = 8" "length sj = 8" using di(2) dj(2) by (auto dest: form1Signature_length)
  ultimately show ?thesis using di dj by (auto simp: form1_nonce_inject)
qed

lemma nonces_unique_witness:
  "\<exists>di dj. fst (encode_all demo_cipher [(AuthTc, ''a'', replicate 32 (CHR ''k'')),
      (AuthTc, ''b'', replicate 32 (CHR ''k''))] (- 1)) ! 0 = Inr di \<and>
    fst (encode_all demo_cipher [(AuthTc, ''a'', replicate 32 (CHR ''k'')),
      (AuthTc, ''b'', replicate 32 (CHR ''k''))] (- 1)) ! 1 = Inr dj \<and> take 12 di \<noteq> take 12 dj"
proof -
  let ?reqs = "[(AuthTc, ''a'', replicate 32 (CHR ''k'')), (AuthTc, ''b'', replicate 32 (CHR ''k''))]"
  have "list_all request_ok ?reqs" by (simp add: request_ok_def form1Signature_def)
  from nonces_unique [OF demo_cipher_ok this, of 0 1 "- 1"] show ?thesis by simp
qed

text \<open>The format of a transcript: every message behind its length in two bytes.\<close>

definition transcript_frame :: "bytes \<Rightarrow> bytes" where
  "transcript_frame msg = put_be 2 (length msg) @ msg"

lemma ParseTranscript_from_frame:
  assumes "length msg < 65536"
  shows "ParseTranscript_from out (transcript_frame msg @ rest) =
    ParseTranscript_from (out @ [msg]) rest"
  using assms
  by (subst ParseTranscript_from.simps) (simp add: transcript_frame_def Let_def)

lemma ParseTranscript_from_split:
  "ParseTranscript_from out frame = Inr ms \<Longrightarrow>
   \<exists>new. ms = out @ new \<and> frame = concat (map transcript_frame new) \<and>
     list_all (\<lambda>m. length m < 65536) new"
proof (induction out frame rule: ParseTranscript_from.induct)
  case (1 out frame)
  show ?case
  proof (cases "frame = []")
    case True
    with "1.prems" show ?thesis by (simp add: ParseTranscript_from.simps)
  next
    case False
    let ?n = "get_be (take 2 frame)" and ?rest = "drop 2 frame"
    have "2 \<le> length frame \<and> ?n \<le> length ?rest"
      using "1.prems" False
      by (subst (asm) ParseTranscript_from.simps) (auto simp: Let_def split: if_splits)
    then have len: "2 \<le> length frame" and two: "length (take 2 frame) = 2"
      and n: "?n \<le> length ?rest" by auto
    with "1.prems" False have rest:
      "ParseTranscript_from (out @ [take ?n ?rest]) (drop ?n ?rest) = Inr ms"
      by (subst (asm) ParseTranscript_from.simps) (simp add: Let_def)
    with "1.IH" [OF _ _ refl refl] len n False obtain new
      where new: "ms = out @ [take ?n ?rest] @ new" "drop ?n ?rest = concat (map transcript_frame new)"
        "list_all (\<lambda>m. length m < 65536) new" by auto
    have "put_be 2 ?n = take 2 frame" using put_be_get_be [of "take 2 frame"] two by simp
    then have "frame = transcript_frame (take ?n ?rest) @ drop ?n ?rest"
      using n by (simp add: transcript_frame_def del: drop_drop)
    moreover have "?n < 65536" using get_be_less [of "take 2 frame"] two by simp
    ultimately show ?thesis using new n
      by (intro exI [where x = "take ?n ?rest # new"]) simp
  qed
qed

lemma ParseTranscript_from_concat:
  "list_all (\<lambda>m. length m < 65536) new \<Longrightarrow>
   ParseTranscript_from out (concat (map transcript_frame new)) = Inr (out @ new)"
  by (induction new arbitrary: out) (simp_all add: ParseTranscript_from_frame ParseTranscript_from.simps [of _ "[]"])

text \<open>
  The transcript parser is the inverse of framing. It returns a list of
  messages exactly for the concatenation of their frames, each message shorter than 65536
  bytes; every other input, in particular one that stops inside a frame, is an error.
\<close>

lemma parse_transcript_iff:
  "ParseTranscript frame = Inr ms \<longleftrightarrow>
   list_all (\<lambda>m. length m < 65536) ms \<and> frame = concat (map transcript_frame ms)"
  using ParseTranscript_from_split [of "[]" frame ms] ParseTranscript_from_concat [of ms "[]"]
  by (auto simp: ParseTranscript_def)

end
