(* ===== verification/Dp9ik_Pak.thy ===== *)
theory Dp9ik_Pak
  imports Dp9ik_Wire
begin

text \<open>
  The password-authenticated key exchange of \<open>internal/auth/dp9ik/pak.go\<close>: arithmetic
  modulo the prime of the Goldilocks curve, points of the Edwards curve in extended
  coordinates, hashing to a point, compression of points, and the two steps of the exchange.

  A \<open>*big.Int\<close> is an \<^typ>\<open>int\<close>; the code never changes a number that is still used under
  another name, so copies (\<open>clone\<close>, \<open>clonePoint\<close>) are the values themselves. \<open>None\<close> is a
  computation that does not return a value: \<open>ModInverse\<close> of a number that has no inverse
  yields a nil pointer, and the search for a quadratic non-residue has no bound in the code.
  The hash and key-derivation functions are parameters.
\<close>

subsection \<open>Numbers\<close>

definition hex_value :: "byte \<Rightarrow> nat option" where
  "hex_value c =
     (let v = byte_val c in
      if 48 \<le> v \<and> v \<le> 57 then Some (v - 48)
      else if 65 \<le> v \<and> v \<le> 70 then Some (v - 55)
      else if 97 \<le> v \<and> v \<le> 102 then Some (v - 87)
      else None)"

fun SetString_hex :: "int \<Rightarrow> string \<Rightarrow> int option" where
  "SetString_hex n [] = Some n"
| "SetString_hex n (c # cs) =
     (case hex_value c of None \<Rightarrow> None | Some v \<Rightarrow> SetString_hex (16 * n + int v) cs)"

definition mustBig :: "string \<Rightarrow> int option" where
  "mustBig hex = (if hex = [] then None else SetString_hex 0 hex)"

definition fieldP_hex :: string where
  "fieldP_hex = ''FFFFFFFFFFFFFFFFFFFFFFFFFFFFFFFFFFFFFFFFFFFFFFFFFFFFFFFEFFFFFFFFFFFFFFFFFFFFFFFFFFFFFFFFFFFFFFFFFFFFFFFFFFFFFFFF''"

definition genX_hex :: string where
  "genX_hex = ''297EA0EA2692FF1B4FAFF46098453A6A26ADF733245F065C3C59D0709CECFA96147EAAF3932D94C63D96C170033F4BA0C7F0DE840AED939F''"

definition fieldP :: int where "fieldP = the (mustBig fieldP_hex)"
definition genX :: int where "genX = the (mustBig genX_hex)"
definition genY :: int where "genY = 19"
definition halfP :: int where "halfP = drop_bit 1 (fieldP - 1)"

definition big_mod :: "int \<Rightarrow> int" where
  "big_mod v = (let out = v mod fieldP in if out < 0 then out + fieldP else out)"

definition fieldA :: int where "fieldA = 1"
definition fieldD :: int where "fieldD = big_mod (- 39081)"

definition big_neg :: "int \<Rightarrow> int" where "big_neg v = big_mod (- v)"
definition modAdd :: "int \<Rightarrow> int \<Rightarrow> int" where "modAdd a b = big_mod (a + b)"
definition modSub :: "int \<Rightarrow> int \<Rightarrow> int" where "modSub a b = big_mod (a - b)"
definition modMul :: "int \<Rightarrow> int \<Rightarrow> int" where "modMul a b = big_mod (a * b)"
definition square :: "int \<Rightarrow> int" where "square v = modMul v v"

definition decafNeg :: "int \<Rightarrow> int \<Rightarrow> int" where
  "decafNeg n r = (if big_mod n > halfP then big_neg r else big_mod r)"

text \<open>\<open>big.Int.ModInverse\<close> and \<open>big.Int.Exp\<close> (exponent not negative).\<close>

definition ModInverse :: "int \<Rightarrow> int \<Rightarrow> int option" where
  "ModInverse g n =
     (if gcd g n = 1 then Some (fst (bezw (nat g) (nat n)) mod n) else None)"

definition modInv :: "int \<Rightarrow> int option" where
  "modInv v = ModInverse (big_mod v) fieldP"

function Exp :: "int \<Rightarrow> nat \<Rightarrow> int \<Rightarrow> int" where
  "Exp x e m =
     (if e = 0 then 1 mod m
      else if even e then Exp (x * x mod m) (e div 2) m
      else x * Exp (x * x mod m) (e div 2) m mod m)"
  by pat_completeness auto
termination
  by (relation "measure (\<lambda>(x, e, m). e)") auto

declare Exp.simps [simp del]

text \<open>\<open>SetBytes\<close> and \<open>Bytes\<close>: big-endian, without leading zeros.\<close>

definition beToBig :: "bytes \<Rightarrow> int" where
  "beToBig b = int (get_be b)"

function big_Bytes :: "nat \<Rightarrow> bytes" where
  "big_Bytes n = (if n = 0 then [] else big_Bytes (n div 256) @ [byte_of n])"
  by pat_completeness auto
termination
  by (relation "measure id") auto

declare big_Bytes.simps [simp del]

definition bigToBE :: "int \<Rightarrow> nat \<Rightarrow> bytes" where
  "bigToBE v sz =
     (let b = big_Bytes (nat (big_mod v)) in
      if length b \<ge> sz then drop (length b - sz) b
      else replicate (sz - length b) NUL @ b)"

subsection \<open>Square roots\<close>

definition legendre :: "int \<Rightarrow> int" where
  "legendre a =
     (let e = drop_bit 1 (fieldP - 1); r = Exp (big_mod a) (nat e) fieldP
      in if r = fieldP - 1 then big_neg 1 else r)"

partial_function (option) non_residue_from :: "int \<Rightarrow> int option" where
  "non_residue_from n = (if legendre n \<noteq> big_neg 1 then non_residue_from (n + 1) else Some n)"

text \<open>The loop that splits off the factors of two of \<open>p - 1\<close>.\<close>

function split_twos :: "int \<Rightarrow> nat \<Rightarrow> int \<times> nat" where
  "split_twos s e = (if s > 0 \<and> even s then split_twos (s div 2) (Suc e) else (s, e))"
  by pat_completeness auto
termination
  by (relation "measure (\<lambda>(s, e). nat s)") auto

declare split_twos.simps [simp del]

fun order_from :: "nat \<Rightarrow> int \<Rightarrow> nat \<Rightarrow> nat \<times> int" where
  "order_from 0 t m = (m, t)"
| "order_from (Suc k) t m = (if t \<noteq> 1 then order_from k (square t) (Suc m) else (m, t))"

text \<open>
  The outer loop of the Tonelli-Shanks branch of \<open>msqrt\<close>. The inner loop counts \<open>m\<close> up to
  at most \<open>r\<close>; \<open>1 << (r - m - 1)\<close> with a negative shift count is a run-time panic.
\<close>

partial_function (option) tonelli :: "int \<times> int \<times> int \<times> nat \<Rightarrow> int option" where
  "tonelli st =
     (case st of (x, b, g, r) \<Rightarrow>
        (let (m, t) = order_from r b 0 in
         if m = 0 then Some x
         else if r < m + 1 then None
         else (let e = (2 :: nat) ^ (r - m - 1);
                   gs = Exp g e fieldP;
                   g = square gs;
                   x = modMul x gs;
                   b = modMul b g
               in tonelli (x, b, g, m))))"

definition msqrt :: "int \<Rightarrow> int option" where
  "msqrt a =
     (let a = big_mod a in
      if a = 0 then Some 0
      else if legendre a \<noteq> 1 then Some 0
      else (let (s, e) = split_twos (fieldP - 1) 0 in
        if e = 1 then Some (Exp a (nat (drop_bit 2 (fieldP + 1))) fieldP)
        else (case non_residue_from 2 of
                None \<Rightarrow> None
              | Some n \<Rightarrow>
                  (let x = Exp a (nat (drop_bit 1 (s + 1))) fieldP;
                       b = Exp a (nat s) fieldP;
                       g = Exp n (nat s) fieldP
                   in tonelli (x, b, g, e)))))"

definition misqrt :: "int \<Rightarrow> int option" where
  "misqrt a =
     (if fieldP mod 4 = 3 then Some (Exp (big_mod a) (nat (drop_bit 2 (fieldP - 3))) fieldP)
      else (case msqrt a of
              None \<Rightarrow> None
            | Some root \<Rightarrow> if root = 0 then Some root else modInv root))"

subsection \<open>Points\<close>

record extPoint =
  pX :: int
  pY :: int
  pZ :: int
  pT :: int

definition newExtPoint :: "int \<Rightarrow> int \<Rightarrow> int \<Rightarrow> int \<Rightarrow> extPoint" where
  "newExtPoint x y z t = \<lparr>pX = big_mod x, pY = big_mod y, pZ = big_mod z, pT = big_mod t\<rparr>"

definition edwardsAdd :: "extPoint \<Rightarrow> extPoint \<Rightarrow> extPoint" where
  "edwardsAdd p1 p2 =
     (let A = modMul (pX p1) (pX p2);
          B = modMul (pY p1) (pY p2);
          C = modMul fieldD (modMul (pT p1) (pT p2));
          D = modMul (pZ p1) (pZ p2);
          E = modSub (modSub (modMul (modAdd (pX p1) (pY p1)) (modAdd (pX p2) (pY p2))) A) B;
          F = modSub D C;
          G = modAdd D C;
          H = modSub B (modMul fieldA A)
      in newExtPoint (modMul E F) (modMul G H) (modMul F G) (modMul E H))"

function scale_loop :: "extPoint \<Rightarrow> extPoint \<Rightarrow> int \<Rightarrow> extPoint" where
  "scale_loop acc cur k =
     (if k > 0 then
        scale_loop (if odd k then edwardsAdd acc cur else acc) (edwardsAdd cur cur) (drop_bit 1 k)
      else acc)"
  by pat_completeness auto
termination
  by (relation "measure (\<lambda>(acc, cur, k). nat k)") (auto simp: drop_bit_eq_div)

declare scale_loop.simps [simp del]

definition edwardsScale :: "extPoint \<Rightarrow> int \<Rightarrow> extPoint" where
  "edwardsScale p s = scale_loop (newExtPoint 0 1 1 0) p s"

definition elligator2Point :: "int \<Rightarrow> int \<Rightarrow> extPoint option" where
  "elligator2Point n r0 =
     (let r = modMul n (modMul r0 r0);
          doubled = modAdd fieldD fieldD;
          D = modMul (modSub (modAdd (modMul fieldD r) (modSub fieldA fieldD)) 0)
                (modSub (modSub (modMul fieldD r) (modMul fieldA r)) fieldD);
          N = modMul (modAdd r 1) (modSub fieldA doubled);
          ND = modMul N D;
          ce = (if ND = 0 then Some (1, 0)
                else (case msqrt ND of
                        None \<Rightarrow> None
                      | Some sqrt \<Rightarrow>
                          (if sqrt \<noteq> 0 then map_option (\<lambda>i. (1, i)) (modInv sqrt)
                           else map_option (\<lambda>i. (big_neg 1, modMul (modMul n r0) i))
                             (misqrt (modMul n ND)))))
      in (case ce of
            None \<Rightarrow> None
          | Some (c, e) \<Rightarrow>
              (let s = modMul (modMul c N) e;
                   t = big_neg (modAdd (modMul (modMul (modMul c N) (modSub r 1))
                         (square (modMul (modSub fieldA doubled) e))) 1);
                   Xc = modMul (modAdd s s) t;
                   as2 = modMul fieldA (square s);
                   Yc = modMul (modSub 1 as2) (modAdd 1 as2);
                   Zc = modMul (modAdd 1 as2) t;
                   Tc = modMul (modAdd s s) (modSub 1 as2)
               in Some (newExtPoint Xc Yc Zc Tc))))"

definition decafEncode :: "extPoint \<Rightarrow> int option" where
  "decafEncode p =
     (case misqrt (modMul (modMul (modSub fieldA fieldD) (modAdd (pZ p) (pY p))) (modSub (pZ p) (pY p))) of
        None \<Rightarrow> None
      | Some r \<Rightarrow>
          (let u = modMul (modSub fieldA fieldD) r;
               r = decafNeg (big_neg (modMul (modAdd u u) (pZ p))) r
           in (case modInv fieldA of
                 None \<Rightarrow> None
               | Some i \<Rightarrow>
                   (let s = modMul (modMul u (modAdd (modMul r
                          (modSub (modMul (modMul fieldA (pZ p)) (pX p))
                            (modMul (modMul fieldD (pY p)) (pT p)))) (pY p))) i
                    in Some (decafNeg s s)))))"

text \<open>The outer option is \<open>None\<close> for a nil pointer, the inner \<open>Inl\<close> the error value.\<close>

definition invalid_decaf :: go_error where
  "invalid_decaf = ErrorString ''invalid decaf point''"

definition decafDecode :: "int \<Rightarrow> extPoint result option" where
  "decafDecode s =
     (if s > halfP then Some (Inl invalid_decaf)
      else (let ss = square s;
                Zc = modAdd (modMul fieldA ss) 1;
                u = modSub (square Zc) (modMul (modMul 4 fieldD) ss);
                v = modMul u ss;
                invSqrt = (if v = 0 then Some (Inr 1)
                  else (case msqrt v of
                          None \<Rightarrow> None
                        | Some root \<Rightarrow>
                            (if root = 0 then Some (Inl invalid_decaf)
                             else map_option Inr (modInv root))))
            in (case invSqrt of
                  None \<Rightarrow> None
                | Some (Inl e) \<Rightarrow> Some (Inl e)
                | Some (Inr invSqrt) \<Rightarrow>
                    (let v = decafNeg (modMul u invSqrt) invSqrt;
                         w = modMul (modMul v s) (modSub 2 Zc);
                         w = (if s = 0 then modAdd w 1 else w);
                         Xc = modAdd s s;
                         Yc = modMul w Zc;
                         Tc = modMul w Xc
                     in Some (Inr (newExtPoint Xc Yc Zc Tc))))))"

definition spake2eeH2P :: "int \<Rightarrow> extPoint option" where
  "spake2eeH2P h =
     (case non_residue_from 2 of None \<Rightarrow> None | Some n \<Rightarrow> elligator2Point n (big_mod h))"

definition spake2ee1 :: "int \<Rightarrow> extPoint \<Rightarrow> int option" where
  "spake2ee1 x pHash =
     (let scaled = edwardsScale (newExtPoint genX genY 1 (modMul genX genY)) x;
          sum = edwardsAdd scaled pHash
      in decafEncode sum)"

definition spake2ee2 :: "extPoint \<Rightarrow> int \<Rightarrow> int \<Rightarrow> int result option" where
  "spake2ee2 pHash x y =
     (case decafDecode y of
        None \<Rightarrow> None
      | Some (Inl e) \<Rightarrow> Some (Inl e)
      | Some (Inr point) \<Rightarrow>
          (let negBase = \<lparr>pX = big_neg (pX pHash), pY = pY pHash, pZ = pZ pHash, pT = big_neg (pT pHash)\<rparr>;
               sum = edwardsAdd point negBase;
               scaled = edwardsScale sum x
           in map_option Inr (decafEncode scaled)))"

definition marshalPoint :: "extPoint \<Rightarrow> bytes" where
  "marshalPoint p = bigToBE (pX p) PAKSLen @ bigToBE (pY p) PAKSLen @ bigToBE (pZ p) PAKSLen @
     bigToBE (pT p) PAKSLen"

definition loadPAKPoint :: "bytes \<Rightarrow> bool \<Rightarrow> extPoint" where
  "loadPAKPoint hash isClient =
     (let off = (if \<not> isClient then PAKPLen else 0);
          part = slice off (off + PAKPLen) hash
      in \<lparr>pX = beToBig (slice (0 * PAKSLen) (1 * PAKSLen) part),
          pY = beToBig (slice (1 * PAKSLen) (2 * PAKSLen) part),
          pZ = beToBig (slice (2 * PAKSLen) (3 * PAKSLen) part),
          pT = beToBig (slice (3 * PAKSLen) (4 * PAKSLen) part)\<rparr>)"

subsection \<open>The exchange\<close>

record kdf =
  pbkdf2_Key :: "bytes \<Rightarrow> bytes \<Rightarrow> nat \<Rightarrow> nat \<Rightarrow> bytes"
  sha256_Sum256 :: "bytes \<Rightarrow> bytes"
  hkdf_Read :: "bytes \<Rightarrow> bytes \<Rightarrow> bytes \<Rightarrow> nat \<Rightarrow> bytes \<times> go_error option"

text \<open>A buffer of \<open>n\<close> zero bytes after \<open>copy\<close> or a read of \<open>bs\<close> into it.\<close>

definition fill :: "nat \<Rightarrow> bytes \<Rightarrow> bytes" where
  "fill n bs = take n bs @ replicate (n - length bs) NUL"

record pakstate =
  isClient :: bool
  pak_x :: bytes
  pak_y :: bytes

definition passtoaeskey :: "kdf \<Rightarrow> string \<Rightarrow> bytes" where
  "passtoaeskey K sec = fill AESKeyLen (pbkdf2_Key K sec ''Plan 9 key derivation'' 9001 AESKeyLen)"

definition authpakHash :: "kdf \<Rightarrow> authkey \<Rightarrow> string \<Rightarrow> authkey option" where
  "authpakHash K key user =
     (let salt = sha256_Sum256 K user;
          h = fill (2 * PAKSLen) (fst (hkdf_Read K (AES key) salt ''Plan 9 AuthPAK hash'' (2 * PAKSLen)))
      in (case spake2eeH2P (beToBig (take PAKSLen h)) of
            None \<Rightarrow> None
          | Some pm \<Rightarrow>
              (case spake2eeH2P (beToBig (drop PAKSLen h)) of
                 None \<Rightarrow> None
               | Some pn \<Rightarrow> Some (key\<lparr>PakHash := marshalPoint pm @ marshalPoint pn\<rparr>))))"

definition NewAuthKey :: "kdf \<Rightarrow> string \<Rightarrow> string \<Rightarrow> authkey option" where
  "NewAuthKey K sec user =
     authpakHash K \<lparr>AES = passtoaeskey K sec, PakKey = replicate PAKKeyLen NUL,
       PakHash = replicate PAKHashLen NUL\<rparr> user"

text \<open>\<open>randInt\<close> is \<open>rand.Int\<close> on the random source, whose state is \<open>'r\<close>.\<close>

definition authpakNew ::
  "(int \<Rightarrow> 'r \<Rightarrow> int result \<times> 'r) \<Rightarrow> authkey \<Rightarrow> bool \<Rightarrow> 'r \<Rightarrow>
   (pakstate \<times> bytes) result option \<times> 'r" where
  "authpakNew randInt key client rng =
     (case randInt fieldP rng of
        (Inl e, rng) \<Rightarrow> (Some (Inl e), rng)
      | (Inr x, rng) \<Rightarrow>
          (let base = loadPAKPoint (PakHash key) client in
           (case spake2ee1 x base of
              None \<Rightarrow> (None, rng)
            | Some y \<Rightarrow>
                (let state = \<lparr>isClient = client, pak_x = fill PAKXLen (bigToBE x PAKXLen),
                       pak_y = fill PAKYLen (bigToBE y PAKYLen)\<rparr>
                 in (Some (Inr (state, pak_y state)), rng)))))"

definition authpakFinish ::
  "kdf \<Rightarrow> pakstate \<Rightarrow> authkey \<Rightarrow> bytes \<Rightarrow> (unit result \<times> pakstate \<times> authkey) option" where
  "authpakFinish K state key peer =
     (if length peer \<noteq> PAKYLen
      then Some (Inl (ErrorString ''invalid AuthPAK public key length''), state, key)
      else (let base = loadPAKPoint (PakHash key) (\<not> isClient state);
                x = beToBig (pak_x state)
            in (case spake2ee2 base x (beToBig peer) of
                  None \<Rightarrow> None
                | Some (Inl e) \<Rightarrow> Some (Inl e, state, key)
                | Some (Inr z) \<Rightarrow>
                    (let saltInput = (if isClient state then pak_y state @ peer else peer @ pak_y state);
                         salt = sha256_Sum256 K saltInput;
                         (bs, err) = hkdf_Read K (bigToBE z PAKSLen) salt ''Plan 9 AuthPAK key''
                           (length (PakKey key));
                         key = key\<lparr>PakKey := take (length (PakKey key)) bs @ drop (length bs) (PakKey key)\<rparr>
                     in (case err of
                           Some e \<Rightarrow> Some (Inl e, state, key)
                         | None \<Rightarrow>
                             Some (Inr (), state\<lparr>pak_x := replicate (length (pak_x state)) NUL,
                               pak_y := replicate (length (pak_y state)) NUL\<rparr>, key))))))"

definition NewPAK ::
  "(int \<Rightarrow> 'r \<Rightarrow> int result \<times> 'r) \<Rightarrow> authkey \<Rightarrow> bool \<Rightarrow> 'r \<Rightarrow>
   (pakstate \<times> bytes) result option \<times> 'r" where
  "NewPAK randInt k client rng = authpakNew randInt k client rng"

definition FinishPAK ::
  "kdf \<Rightarrow> authkey \<Rightarrow> pakstate \<Rightarrow> bytes \<Rightarrow> (unit result \<times> pakstate \<times> authkey) option" where
  "FinishPAK K k state peer = authpakFinish K state k peer"


subsection \<open>Arithmetic\<close>

lemma fieldP_eq: "fieldP = 2 ^ 448 - 2 ^ 224 - 1"
  unfolding fieldP_def mustBig_def fieldP_hex_def by code_simp

lemma fieldP_pos [simp]: "0 < fieldP" "1 < fieldP" "0 \<le> fieldP" "fieldP \<noteq> 0"
  by (simp_all add: fieldP_eq)

lemma big_mod_eq [simp]: "big_mod v = v mod fieldP"
proof -
  have "\<not> v mod fieldP < 0" by (simp add: not_less)
  then show ?thesis unfolding big_mod_def Let_def by (simp only: if_False)
qed

lemma fieldD_eq: "fieldD = (- 39081) mod fieldP"
  by (simp add: fieldD_def)

lemmas field_ops = modAdd_def modSub_def modMul_def square_def big_neg_def newExtPoint_def fieldA_def

lemma Exp_eq: "Exp x e m = x ^ e mod m"
proof (induction x e m rule: Exp.induct)
  case (1 x e m)
  show ?case
  proof (cases "e = 0")
    case True
    then show ?thesis by (simp add: Exp.simps)
  next
    case False
    have sq: "(x * x mod m) ^ (e div 2) mod m = (x * x) ^ (e div 2) mod m" by (rule power_mod)
    show ?thesis
    proof (cases "even e")
      case True
      then obtain k where "e = 2 * k" by blast
      with 1 False True sq show ?thesis
        by (simp add: Exp.simps [of x "2 * k"] power_mult power2_eq_square)
    next
      case odd: False
      then obtain k where "e = 2 * k + 1" by (auto elim: oddE)
      with 1 False odd sq show ?thesis
        by (simp add: Exp.simps [of x "Suc (2 * k)"] power_mult power2_eq_square mod_mult_right_eq)
    qed
  qed
qed

lemma ModInverse_Some:
  assumes "gcd g n = 1" and "0 \<le> g" and "0 < n"
  shows "\<exists>i. ModInverse g n = Some i \<and> 0 \<le> i \<and> i < n \<and> g * i mod n = 1 mod n"
proof -
  let ?b = "bezw (nat g) (nat n)"
  have "1 = fst ?b * g + snd ?b * n"
    using bezw_aux [of "nat g" "nat n"] assms by (simp add: gcd_int_def)
  then have "g * fst ?b mod n = 1 mod n"
    by (metis mod_mult_self1 mult.commute)
  then have "g * (fst ?b mod n) mod n = 1 mod n" by (simp add: mod_mult_right_eq)
  with assms show ?thesis by (simp add: ModInverse_def)
qed

lemma modInv_fieldA [simp]: "modInv fieldA = Some 1"
proof -
  have "\<exists>i. modInv fieldA = Some i \<and> 0 \<le> i \<and> i < fieldP \<and> 1 * i mod fieldP = 1 mod fieldP"
    unfolding modInv_def fieldA_def
    using ModInverse_Some [of "1 mod fieldP" fieldP] by simp
  then show ?thesis by auto
qed

text \<open>Numbers with a power that is one are invertible.\<close>

lemma power_one_coprime:
  assumes "a ^ n mod fieldP = 1" and "0 < n"
  shows "gcd (a mod fieldP) fieldP = 1"
proof -
  obtain m where n: "n = Suc m" using assms(2) by (cases n) auto
  have "gcd a fieldP dvd a ^ n" by (simp add: n)
  then have "gcd a fieldP dvd a ^ n mod fieldP" by (simp add: dvd_mod)
  with assms(1) have "gcd a fieldP dvd 1" by simp
  then show ?thesis by (metis gcd.commute gcd_red_int is_unit_gcd_iff)
qed

subsection \<open>Square roots\<close>

lemma split_twos_fieldP: "split_twos (fieldP - 1) 0 = ((fieldP - 1) div 2, 1)"
proof -
  have "even (fieldP - 1)" "odd ((fieldP - 1) div 2)" "0 < fieldP - 1"
    by (simp_all add: fieldP_eq)
  then show ?thesis by (simp add: split_twos.simps)
qed

definition sqrt_exp :: nat where "sqrt_exp = nat ((fieldP + 1) div 4)"

lemma sqrt_exp_double: "2 * sqrt_exp = nat ((fieldP - 1) div 2) + 1"
  by (simp add: sqrt_exp_def fieldP_eq)

lemma legendre_one:
  "legendre a = 1 \<longleftrightarrow> a ^ nat ((fieldP - 1) div 2) mod fieldP = 1"
proof -
  have "fieldP - 1 \<noteq> 1" by (simp add: fieldP_eq)
  moreover have "(- 1) mod fieldP = fieldP - 1" by (simp add: zmod_minus1)
  ultimately show ?thesis
    by (auto simp: legendre_def Exp_eq Let_def drop_bit_eq_div power_mod field_ops)
qed

lemma msqrt_total:
  "msqrt a = Some (if a mod fieldP \<noteq> 0 \<and> legendre a = 1 then a ^ sqrt_exp mod fieldP else 0)"
proof -
  have "legendre (a mod fieldP) = legendre a" by (simp add: legendre_def)
  then show ?thesis
    by (simp add: msqrt_def Let_def split_twos_fieldP Exp_eq drop_bit_eq_div power_mod sqrt_exp_def)
qed

lemma sqrt_exp_square:
  assumes "legendre a = 1"
  shows "(a ^ sqrt_exp mod fieldP) * (a ^ sqrt_exp mod fieldP) mod fieldP = a mod fieldP"
proof -
  have "(a ^ sqrt_exp mod fieldP) * (a ^ sqrt_exp mod fieldP) mod fieldP = a ^ (2 * sqrt_exp) mod fieldP"
    by (simp add: mod_mult_eq power_add [symmetric] mult_2)
  also have "\<dots> = a * a ^ nat ((fieldP - 1) div 2) mod fieldP"
    by (simp add: sqrt_exp_double)
  also have "\<dots> = a * 1 mod fieldP"
    using assms by (metis legendre_one mod_mult_right_eq)
  finally show ?thesis by simp
qed

lemma msqrt_root:
  assumes "legendre a = 1"
  shows "\<exists>r. msqrt a = Some r \<and> 0 < r \<and> r < fieldP \<and> r * r mod fieldP = a mod fieldP \<and>
    (\<exists>i. modInv r = Some i \<and> r * i mod fieldP = 1)"
proof -
  let ?r = "a ^ sqrt_exp mod fieldP"
  have one: "a ^ nat ((fieldP - 1) div 2) mod fieldP = 1" using assms by (simp add: legendre_one)
  have a: "a mod fieldP \<noteq> 0"
  proof
    assume "a mod fieldP = 0"
    moreover have "0 < nat ((fieldP - 1) div 2)" by (simp add: fieldP_eq)
    ultimately show False using one by (metis power_mod zero_power mod_0 zero_neq_one)
  qed
  have "?r * ?r mod fieldP = a mod fieldP" using assms by (rule sqrt_exp_square)
  moreover from this a have "?r \<noteq> 0" by auto
  then have "0 < ?r" by (metis fieldP_pos(1) order_le_less pos_mod_sign)
  moreover have "0 \<le> ?r" "?r < fieldP" by simp_all
  moreover have "gcd (?r mod fieldP) fieldP = 1"
  proof (rule power_one_coprime)
    have "?r ^ (2 * nat ((fieldP - 1) div 2)) mod fieldP = (?r * ?r mod fieldP) ^ nat ((fieldP - 1) div 2) mod fieldP"
      by (simp add: power_mult power2_eq_square power_mod)
    also have "\<dots> = 1" using sqrt_exp_square [OF assms] one by (simp add: power_mod)
    finally show "?r ^ (2 * nat ((fieldP - 1) div 2)) mod fieldP = 1" .
  qed (simp add: fieldP_eq)
  ultimately show ?thesis
    using ModInverse_Some [of ?r fieldP] assms a
    by (auto simp: msqrt_total modInv_def)
qed

lemma misqrt_total: "misqrt a = Some (a ^ nat ((fieldP - 3) div 4) mod fieldP)"
proof -
  have "fieldP mod 4 = 3" by (simp add: fieldP_eq)
  then show ?thesis by (simp add: misqrt_def Exp_eq drop_bit_eq_div power_mod)
qed


subsection \<open>Points of the curve\<close>

text \<open>
  A point in extended coordinates is reduced, satisfies the curve equation
  $X^2 + Y^2 = Z^2 + d T^2$ and the relation $X Y = Z T$ of its fourth coordinate.
\<close>

definition reduced :: "extPoint \<Rightarrow> bool" where
  "reduced p \<longleftrightarrow> 0 \<le> pX p \<and> pX p < fieldP \<and> 0 \<le> pY p \<and> pY p < fieldP \<and>
     0 \<le> pZ p \<and> pZ p < fieldP \<and> 0 \<le> pT p \<and> pT p < fieldP"

definition on_curve :: "extPoint \<Rightarrow> bool" where
  "on_curve p \<longleftrightarrow>
     fieldP dvd pX p ^ 2 + pY p ^ 2 - (pZ p ^ 2 + fieldD * pT p ^ 2) \<and>
     fieldP dvd pX p * pY p - pZ p * pT p"

lemma reduced_newExtPoint [simp]: "reduced (newExtPoint x y z t)"
  by (simp add: reduced_def newExtPoint_def)

lemma reduced_edwardsAdd [simp]: "reduced (edwardsAdd p q)"
  by (simp add: edwardsAdd_def Let_def)

text \<open>Reduction of the coordinates does not matter for membership.\<close>

lemma dvd_mod_poly:
  assumes "(f :: int) mod m = g mod m"
  shows "m dvd f \<longleftrightarrow> m dvd g"
  using assms by (metis dvd_eq_mod_eq_0)

lemma on_curve_newExtPoint:
  "on_curve (newExtPoint x y z t) \<longleftrightarrow>
     fieldP dvd x ^ 2 + y ^ 2 - (z ^ 2 + fieldD * t ^ 2) \<and> fieldP dvd x * y - z * t"
proof -
  have curve: "((x mod fieldP) ^ 2 + (y mod fieldP) ^ 2 - ((z mod fieldP) ^ 2 + fieldD * (t mod fieldP) ^ 2))
      mod fieldP = (x ^ 2 + y ^ 2 - (z ^ 2 + fieldD * t ^ 2)) mod fieldP"
    by (intro mod_diff_cong mod_add_cong mod_mult_cong) (simp_all add: power_mod)
  have fourth: "(x mod fieldP * (y mod fieldP) - z mod fieldP * (t mod fieldP)) mod fieldP =
      (x * y - z * t) mod fieldP"
    by (intro mod_diff_cong) (simp_all add: mod_mult_eq)
  show ?thesis
    using dvd_mod_poly [OF curve] dvd_mod_poly [OF fourth] by (simp add: on_curve_def newExtPoint_def)
qed

lemma curve_add:
  fixes d p :: int
  assumes "p dvd x1^2 + y1^2 - (z1^2 + d * t1^2)" and "p dvd x1 * y1 - z1 * t1"
    and "p dvd x2^2 + y2^2 - (z2^2 + d * t2^2)" and "p dvd x2 * y2 - z2 * t2"
  shows "p dvd ((x1 * y2 + y1 * x2) * (z1 * z2 - d * t1 * t2))^2 +
      ((z1 * z2 + d * t1 * t2) * (y1 * y2 - x1 * x2))^2 -
      (((z1 * z2 - d * t1 * t2) * (z1 * z2 + d * t1 * t2))^2 +
       d * ((x1 * y2 + y1 * x2) * (y1 * y2 - x1 * x2))^2)"
  using assms unfolding dvd_def by algebra

lemma edwardsAdd_poly:
  "edwardsAdd p q =
     (let e = pX p * pY q + pY p * pX q; f = pZ p * pZ q - fieldD * pT p * pT q;
          g = pZ p * pZ q + fieldD * pT p * pT q; h = pY p * pY q - pX p * pX q
      in newExtPoint (e * f) (g * h) (f * g) (e * h))"
proof -
  have "modSub (modSub (modMul (modAdd (pX p) (pY p)) (modAdd (pX q) (pY q))) (modMul (pX p) (pX q)))
      (modMul (pY p) (pY q)) = (pX p * pY q + pY p * pX q) mod fieldP"
    by (simp add: field_ops mod_simps) (simp add: algebra_simps)
  moreover have "modSub (modMul (pZ p) (pZ q)) (modMul fieldD (modMul (pT p) (pT q))) =
      (pZ p * pZ q - fieldD * pT p * pT q) mod fieldP"
    "modAdd (modMul (pZ p) (pZ q)) (modMul fieldD (modMul (pT p) (pT q))) =
      (pZ p * pZ q + fieldD * pT p * pT q) mod fieldP"
    by (simp_all add: field_ops mod_simps mult.assoc)
  moreover have "modSub (modMul (pY p) (pY q)) (modMul fieldA (modMul (pX p) (pX q))) =
      (pY p * pY q - pX p * pX q) mod fieldP"
    by (simp add: field_ops mod_simps)
  ultimately show ?thesis
    unfolding edwardsAdd_def Let_def
    by (simp only:) (simp add: newExtPoint_def modMul_def mod_mult_eq)
qed

lemma on_curve_edwardsAdd:
  assumes "on_curve p" and "on_curve q"
  shows "on_curve (edwardsAdd p q)"
  using assms curve_add [of fieldP "pX p" "pY p" "pZ p" fieldD "pT p" "pX q" "pY q" "pZ q" "pT q"]
  unfolding edwardsAdd_poly Let_def on_curve_newExtPoint on_curve_def [of p] on_curve_def [of q]
  by (simp add: mult_ac)


lemma on_curve_scale_loop:
  "on_curve acc \<Longrightarrow> on_curve cur \<Longrightarrow> on_curve (scale_loop acc cur k)"
proof (induction acc cur k rule: scale_loop.induct)
  case (1 acc cur k)
  then show ?case by (subst scale_loop.simps) (simp add: on_curve_edwardsAdd)
qed

lemma on_curve_identity: "on_curve (newExtPoint 0 1 1 0)"
  by (simp add: on_curve_newExtPoint)

lemma on_curve_edwardsScale: "on_curve p \<Longrightarrow> on_curve (edwardsScale p k)"
  by (simp add: edwardsScale_def on_curve_scale_loop on_curve_identity)

lemma on_curve_negated:
  assumes "on_curve p"
  shows "on_curve \<lparr>pX = big_neg (pX p), pY = pY p, pZ = pZ p, pT = big_neg (pT p)\<rparr>"
proof -
  have "(((- pX p) mod fieldP)^2 + pY p ^ 2 - (pZ p ^ 2 + fieldD * ((- pT p) mod fieldP)^2)) mod fieldP =
      (pX p ^ 2 + pY p ^ 2 - (pZ p ^ 2 + fieldD * pT p ^ 2)) mod fieldP"
    by (intro mod_diff_cong mod_add_cong mod_mult_cong) (simp_all add: power_mod)
  moreover have "((- pX p) mod fieldP * pY p - pZ p * ((- pT p) mod fieldP)) mod fieldP =
      ((- pX p) * pY p - pZ p * (- pT p)) mod fieldP"
    by (intro mod_diff_cong mod_mult_cong) simp_all
  moreover have "(- pX p) * pY p - pZ p * (- pT p) = - (pX p * pY p - pZ p * pT p)" by simp
  ultimately show ?thesis
    using assms unfolding on_curve_def field_ops by (simp add: dvd_eq_mod_eq_0) (metis dvd_eq_mod_eq_0 dvd_minus_iff minus_diff_eq)
qed

text \<open>The generator of the exchange.\<close>

definition gen_point :: extPoint where
  "gen_point = newExtPoint genX genY 1 (modMul genX genY)"


lemma genX_eq: "genX = 0x297EA0EA2692FF1B4FAFF46098453A6A26ADF733245F065C3C59D0709CECFA96147EAAF3932D94C63D96C170033F4BA0C7F0DE840AED939F"
  unfolding genX_def mustBig_def genX_hex_def by code_simp

lemma genX_square:
  "genX * genX * 14108242 + 360 = fieldP *
     269410854570553507530537777663202261365919731595948798693711456409310639285093182544100121903973109631245993334406391358928746704127981077190"
  unfolding genX_eq fieldP_eq by code_simp

lemma on_curve_gen_point: "on_curve gen_point"
proof -
  have "(genX ^ 2 + genY ^ 2 - (1 ^ 2 + fieldD * (modMul genX genY) ^ 2)) mod fieldP =
      (genX ^ 2 + 19 ^ 2 - (1 + (- 39081) * (genX * 19) ^ 2)) mod fieldP"
    unfolding field_ops genY_def fieldD_eq
    by (intro mod_diff_cong mod_add_cong mod_mult_cong) (simp_all add: power_mod mod_simps)
  also have "genX ^ 2 + 19 ^ 2 - (1 + (- 39081) * (genX * 19) ^ 2) = genX * genX * 14108242 + 360"
    by algebra
  finally have "fieldP dvd genX ^ 2 + genY ^ 2 - (1 ^ 2 + fieldD * (modMul genX genY) ^ 2)"
    by (simp only: genX_square dvd_eq_mod_eq_0 mod_mult_self1_is_0)
  moreover have "(genX * genY - 1 * modMul genX genY) mod fieldP = 0"
    by (simp add: field_ops mod_simps)
  ultimately show ?thesis by (simp add: gen_point_def on_curve_newExtPoint dvd_eq_mod_eq_0)
qed

subsection \<open>Compressed points\<close>

lemma halfP_eq: "halfP = (fieldP - 1) div 2"
  by (simp add: halfP_def drop_bit_eq_div)

lemma decafNeg_cases:
  "decafNeg n r mod fieldP = r mod fieldP \<or> decafNeg n r mod fieldP = (- r) mod fieldP"
  by (simp add: decafNeg_def field_ops)

lemma decafNeg_canonical: "0 \<le> decafNeg s s \<and> decafNeg s s \<le> halfP"
proof (cases "s mod fieldP > halfP")
  case True
  moreover have "s mod fieldP \<le> fieldP" "0 \<le> halfP"
    by (simp_all add: order_less_imp_le halfP_eq)
  moreover have "(- s) mod fieldP = (if s mod fieldP = 0 then 0 else fieldP - s mod fieldP)"
    by (simp add: zmod_zminus1_eq_if)
  moreover have "fieldP = 2 * halfP + 1" by (simp add: halfP_eq fieldP_eq)
  ultimately show ?thesis by (simp add: decafNeg_def field_ops)
next
  case False
  then show ?thesis by (simp add: decafNeg_def)
qed

lemma decafEncode_total: "\<exists>v. decafEncode p = Some v \<and> 0 \<le> v \<and> v \<le> halfP"
  using decafNeg_canonical by (simp add: decafEncode_def misqrt_total Let_def)

text \<open>
  The number \<open>v\<close> whose inverse square root the decoder needs, and the cases in which it
  finds one.
\<close>

definition decode_v :: "int \<Rightarrow> int" where
  "decode_v s = ((s * s + 1) ^ 2 - 4 * fieldD * (s * s)) * (s * s)"

lemma decode_v_eq:
  "modMul (modSub (square (modAdd (modMul fieldA (square s)) 1))
     (modMul (modMul 4 fieldD) (square s))) (square s) = decode_v s mod fieldP"
  unfolding field_ops decode_v_def
  by (simp add: mod_simps) (simp add: power2_eq_square)

lemma decafDecode_total: "\<exists>r. decafDecode s = Some r"
proof (cases "s > halfP \<or> decode_v s mod fieldP = 0 \<or> legendre (decode_v s mod fieldP) \<noteq> 1")
  case True
  then show ?thesis
    by (auto simp: decafDecode_def decode_v_eq Let_def msqrt_total)
next
  case False
  with msqrt_root [of "decode_v s mod fieldP"] obtain r i
    where "msqrt (decode_v s mod fieldP) = Some r" "0 < r" "modInv r = Some i" by blast
  with False show ?thesis by (simp add: decafDecode_def decode_v_eq Let_def)
qed


lemma curve_decoded:
  fixes d p s :: int
  assumes "p dvd v * v * (((s * s + 1)^2 - 4 * d * (s * s)) * (s * s)) - 1"
    and "w mod p = v * s * (1 - s * s) mod p"
  shows "p dvd (s + s)^2 + (w * (s * s + 1))^2 - ((s * s + 1)^2 + d * (w * (s + s))^2)"
proof -
  have "p dvd w - v * s * (1 - s * s)" using assms(2) by (simp only: mod_eq_dvd_iff)
  with assms(1) show ?thesis unfolding dvd_def by algebra
qed

lemma newExtPoint_cong:
  "x mod fieldP = x' mod fieldP \<Longrightarrow> y mod fieldP = y' mod fieldP \<Longrightarrow> z mod fieldP = z' mod fieldP \<Longrightarrow>
   t mod fieldP = t' mod fieldP \<Longrightarrow> newExtPoint x y z t = newExtPoint x' y' z' t'"
  by (simp add: newExtPoint_def)

text \<open>The point the decoder builds from the number \<open>s\<close> and the coordinate \<open>w\<close>.\<close>

definition decoded_point :: "int \<Rightarrow> int \<Rightarrow> extPoint" where
  "decoded_point s w = newExtPoint (s + s) (w * (s * s + 1)) (s * s + 1) (w * (s + s))"

lemma decoded_point_eq:
  "newExtPoint (modAdd s s) (modMul w (modAdd (modMul fieldA (square s)) 1))
     (modAdd (modMul fieldA (square s)) 1) (modMul w (modAdd s s)) = decoded_point s w"
  unfolding decoded_point_def by (rule newExtPoint_cong) (simp_all add: field_ops mod_simps)

lemma decode_w_eq:
  "modMul (modMul v s) (modSub 2 (modAdd (modMul fieldA (square s)) 1)) =
     v * s * (1 - s * s) mod fieldP"
  unfolding field_ops by (simp add: mod_simps)

lemma decafDecode_zero: "decafDecode 0 = Some (Inr (decoded_point 0 1))"
proof -
  have "0 \<le> halfP" by (simp add: halfP_eq)
  then show ?thesis
    unfolding decafDecode_def Let_def decode_v_eq decode_w_eq decoded_point_eq
    by (simp add: decode_v_def field_ops)
qed

lemma decafDecode_point:
  assumes "decafDecode s = Some (Inr P)" and "s \<noteq> 0" and "decode_v s mod fieldP \<noteq> 0"
  shows "\<exists>v w. P = decoded_point s w \<and> w mod fieldP = v * s * (1 - s * s) mod fieldP \<and>
    fieldP dvd v * v * decode_v s - 1"
proof -
  let ?dv = "decode_v s mod fieldP"
  have leg: "legendre ?dv = 1" and s: "\<not> s > halfP"
    using assms
    unfolding decafDecode_def Let_def decode_v_eq decode_w_eq decoded_point_eq msqrt_total
    by (auto split: if_splits)
  from msqrt_root [OF leg] obtain r i where r: "msqrt ?dv = Some r" "0 < r"
    "r * r mod fieldP = ?dv" "modInv r = Some i" "r * i mod fieldP = 1" by auto
  obtain v where v: "v mod fieldP = i mod fieldP \<or> v mod fieldP = (- i) mod fieldP"
    and P: "P = decoded_point s (v * s * (1 - s * s) mod fieldP)"
    using assms s r decafNeg_cases
    unfolding decafDecode_def Let_def decode_v_eq decode_w_eq decoded_point_eq
    by (auto split: if_splits)
  have "fieldP dvd v * v - i * i"
  proof -
    have "v * v mod fieldP = i * i mod fieldP"
      using v by (metis minus_mult_minus mod_mult_eq)
    then show ?thesis by (simp only: mod_eq_dvd_iff)
  qed
  moreover have "fieldP dvd r * r - decode_v s" "fieldP dvd r * i - 1"
    using r(3,5) by (simp_all add: mod_eq_dvd_iff [symmetric])
  ultimately have "fieldP dvd v * v * decode_v s - 1" unfolding dvd_def by algebra
  with P show ?thesis
    by (intro exI [where x = v] exI [where x = "v * s * (1 - s * s) mod fieldP"]) simp
qed

lemma on_curve_decoded:
  assumes "decafDecode s = Some (Inr P)" and "s = 0 \<or> \<not> fieldP dvd decode_v s"
  shows "on_curve P"
proof (cases "s = 0")
  case True
  with assms(1) have "P = newExtPoint 0 1 1 0" by (simp add: decafDecode_zero decoded_point_def)
  then show ?thesis by (simp add: on_curve_identity)
next
  case False
  with decafDecode_point [OF assms(1)] assms(2) obtain v w where P: "P = decoded_point s w"
    and "w mod fieldP = v * s * (1 - s * s) mod fieldP" "fieldP dvd v * v * decode_v s - 1"
    by (auto simp: dvd_eq_mod_eq_0)
  with curve_decoded [of fieldP v s fieldD w] show ?thesis
    by (simp add: decoded_point_def on_curve_newExtPoint decode_v_def)
qed


subsection \<open>Points as bytes\<close>

lemma put_be_Suc: "put_be (Suc k) v = put_be k (v div 256) @ [byte_of v]"
  by (simp add: put_be_def)

lemma put_be_zero: "put_be k 0 = replicate k NUL"
  by (induction k) (simp_all add: put_be_Suc put_be_def [of 0] NUL_def replicate_append_same)

lemma put_be_big_Bytes:
  "length (big_Bytes n) \<le> k \<Longrightarrow> put_be k n = replicate (k - length (big_Bytes n)) NUL @ big_Bytes n"
proof (induction n arbitrary: k rule: big_Bytes.induct)
  case (1 n)
  show ?case
  proof (cases "n = 0")
    case True
    then show ?thesis by (simp add: big_Bytes.simps put_be_zero)
  next
    case False
    with "1.prems" obtain m where k: "k = Suc m" by (cases k) (auto simp: big_Bytes.simps [of n])
    with False "1.prems" "1.IH" [of m] show ?thesis
      by (simp add: big_Bytes.simps [of n] put_be_Suc)
  qed
qed

lemma big_Bytes_length: "n < 256 ^ k \<Longrightarrow> length (big_Bytes n) \<le> k"
proof (induction n arbitrary: k rule: big_Bytes.induct)
  case (1 n)
  show ?case
  proof (cases "n = 0")
    case True
    then show ?thesis by (simp add: big_Bytes.simps)
  next
    case False
    with "1.prems" obtain m where k: "k = Suc m" by (cases k) auto
    with "1.prems" have "n div 256 < 256 ^ m" by (simp add: div_less_iff_less_mult mult.commute)
    with False "1.IH" k show ?thesis by (simp add: big_Bytes.simps [of n])
  qed
qed

lemma bigToBE_eq: "bigToBE v PAKSLen = put_be PAKSLen (nat (v mod fieldP))"
proof -
  have "v mod fieldP < fieldP" by simp
  also have "fieldP < 256 ^ PAKSLen" by (simp add: fieldP_eq len_defs)
  finally have "nat (v mod fieldP) < 256 ^ PAKSLen"
    by (simp add: nat_less_iff)
  then have len: "length (big_Bytes (nat (v mod fieldP))) \<le> PAKSLen" by (rule big_Bytes_length)
  then show ?thesis
    by (auto simp: bigToBE_def Let_def put_be_big_Bytes [OF len])
qed

lemma length_bigToBE [simp]: "length (bigToBE v PAKSLen) = PAKSLen"
  by (simp add: bigToBE_eq)

lemma beToBig_bigToBE [simp]: "beToBig (bigToBE v PAKSLen) = v mod fieldP"
proof -
  have "v mod fieldP < fieldP" by simp
  also have "fieldP < 256 ^ PAKSLen" by (simp add: fieldP_eq len_defs)
  finally show ?thesis by (simp add: bigToBE_eq beToBig_def zmod_int nat_mod_as_int)
qed

lemma length_marshalPoint [simp]: "length (marshalPoint p) = PAKPLen"
  by (simp add: marshalPoint_def PAKPLen_def)

lemma reduced_eq: "reduced p \<Longrightarrow> newExtPoint (pX p) (pY p) (pZ p) (pT p) = p"
  by (simp add: reduced_def newExtPoint_def)


lemma loadPAKPoint_marshal:
  "loadPAKPoint (marshalPoint pm @ marshalPoint pn) client =
     newExtPoint (pX (if client then pm else pn)) (pY (if client then pm else pn))
       (pZ (if client then pm else pn)) (pT (if client then pm else pn))"
proof -
  have part: "slice (if \<not> client then PAKPLen else 0) ((if \<not> client then PAKPLen else 0) + PAKPLen)
      (marshalPoint pm @ marshalPoint pn) = marshalPoint (if client then pm else pn)"
    by (simp add: slice_def)
  have len: "length (bigToBE v PAKSLen) = PAKSLen" for v by simp
  show ?thesis
    unfolding loadPAKPoint_def part Let_def
    by (simp add: marshalPoint_def slice_simps newExtPoint_def)
qed

subsection \<open>Properties\<close>

text \<open>
  Property C21: both steps of the key exchange return. The loops of scalar multiplication
  and of the square root end, no nil pointer is used, and every number the encoder sends is
  canonical: it lies between 0 and (p-1)/2, the range the decoder of the peer accepts. For
  any secret exponent, any hash point and any number received from the peer, the first step
  yields such a number and the second step yields one or an error.
\<close>

theorem exchange_steps_return:
  "(\<exists>v. spake2ee1 x pHash = Some v \<and> 0 \<le> v \<and> v \<le> halfP) \<and>
   ((\<exists>e. spake2ee2 pHash x y = Some (Inl e)) \<or>
    (\<exists>z. spake2ee2 pHash x y = Some (Inr z) \<and> 0 \<le> z \<and> z \<le> halfP))"
proof -
  obtain r where r: "decafDecode y = Some r" using decafDecode_total by blast
  have enc: "\<exists>v. decafEncode q = Some v \<and> 0 \<le> v \<and> v \<le> halfP" for q by (rule decafEncode_total)
  show ?thesis
  proof (cases r)
    case (Inl e)
    with r enc show ?thesis by (simp add: spake2ee1_def spake2ee2_def Let_def)
  next
    case (Inr point)
    let ?q = "edwardsScale (edwardsAdd point
      \<lparr>pX = big_neg (pX pHash), pY = pY pHash, pZ = pZ pHash, pT = big_neg (pT pHash)\<rparr>) x"
    from enc [of ?q] obtain z where "decafEncode ?q = Some z" "0 \<le> z" "z \<le> halfP" by blast
    with r Inr enc show ?thesis by (simp add: spake2ee1_def spake2ee2_def Let_def)
  qed
qed



text \<open>
  The hash points survive storage in the key. What \<open>authpakHash\<close> stores are
  the points M and N, each in four numbers of 56 bytes; loading the part of a side gives
  back exactly its point, M for the client and N for the server.
\<close>

lemma hash_points_roundtrip:
  assumes "reduced pm" and "reduced pn"
  shows "loadPAKPoint (marshalPoint pm @ marshalPoint pn) True = pm \<and>
    loadPAKPoint (marshalPoint pm @ marshalPoint pn) False = pn \<and>
    length (marshalPoint pm @ marshalPoint pn) = PAKHashLen"
  using assms by (simp add: loadPAKPoint_marshal reduced_eq PAKHashLen_def)

lemma hash_points_roundtrip_witness:
  "loadPAKPoint (marshalPoint gen_point @ marshalPoint (newExtPoint 0 1 1 0)) True = gen_point"
proof -
  have "reduced gen_point" by (simp add: gen_point_def)
  from hash_points_roundtrip [OF this reduced_newExtPoint, of 0 1 1 0] show ?thesis by simp
qed

end
