(* ===== verification/Go_Net.thy ===== *)
theory Go_Net
  imports Go_Strings Go_Conn
begin

text \<open>
  What the program uses of package \<open>net\<close> to name a peer (\<open>SplitHostPort\<close>,
  \<open>JoinHostPort\<close>), the delimited read of \<open>bufio.Reader\<close>, and the control flow of
  operations that may fail, panic or not return.
\<close>

subsection \<open>Addresses\<close>

definition colon :: byte where "colon = CHR '':''"
definition bracket_open :: byte where "bracket_open = CHR ''[''"
definition bracket_close :: byte where "bracket_close = CHR '']''"

fun LastIndexByte :: "bytes \<Rightarrow> byte \<Rightarrow> nat option" where
  "LastIndexByte [] c = None"
| "LastIndexByte (x # xs) c =
     (case LastIndexByte xs c of
        Some i \<Rightarrow> Some (Suc i)
      | None \<Rightarrow> if x = c then Some 0 else None)"

text \<open>\<open>net.SplitHostPort\<close>: host and port, or the reason for the error.\<close>

definition SplitHostPort :: "string \<Rightarrow> (string \<times> string) result" where
  "SplitHostPort hostport =
     (case LastIndexByte hostport colon of
        None \<Rightarrow> Inl (ErrorString ''missing port in address'')
      | Some i \<Rightarrow>
          (let r =
             (if hd hostport = bracket_open then
                (case IndexByte hostport bracket_close of
                   None \<Rightarrow> Inl (ErrorString ''missing ']' in address'')
                 | Some e \<Rightarrow>
                     (if e + 1 = length hostport then Inl (ErrorString ''missing port in address'')
                      else if e + 1 = i then Inr (take (e - 1) (drop 1 hostport), 1, e + 1)
                      else if hostport ! (e + 1) = colon
                      then Inl (ErrorString ''too many colons in address'')
                      else Inl (ErrorString ''missing port in address'')))
              else if colon \<in> set (take i hostport)
              then Inl (ErrorString ''too many colons in address'')
              else Inr (take i hostport, 0, 0))
           in bind_result r (\<lambda>(host, j, k).
                if bracket_open \<in> set (drop j hostport)
                then Inl (ErrorString ''unexpected '[' in address'')
                else if bracket_close \<in> set (drop k hostport)
                then Inl (ErrorString ''unexpected ']' in address'')
                else Inr (host, drop (i + 1) hostport))))"

definition JoinHostPort :: "string \<Rightarrow> string \<Rightarrow> string" where
  "JoinHostPort host port =
     (if colon \<in> set host then [bracket_open] @ host @ [bracket_close, colon] @ port
      else host @ [colon] @ port)"

lemma LastIndexByte_None: "LastIndexByte s c = None \<longleftrightarrow> c \<notin> set s"
  by (induction s) (auto split: option.splits)

lemma LastIndexByte_last: "c \<notin> set t \<Longrightarrow> LastIndexByte (s @ c # t) c = Some (length s)"
  by (induction s) (auto simp: LastIndexByte_None [THEN iffD2])

text \<open>A joined address splits again into its parts, unless the parts hold brackets.\<close>

lemma SplitHostPort_JoinHostPort:
  assumes "set host \<inter> {bracket_open, bracket_close} = {}"
    and "set port \<inter> {colon, bracket_open, bracket_close} = {}"
  shows "SplitHostPort (JoinHostPort host port) = Inr (host, port)"
proof (cases "colon \<in> set host")
  case True
  let ?pre = "[bracket_open] @ host @ [bracket_close]"
  have e: "IndexByte (?pre @ colon # port) bracket_close = Some (Suc (length host))"
    using assms(1) by (simp add: IndexByte_append IndexByte_None [THEN iffD2] bracket_open_def
      bracket_close_def)
  have i: "LastIndexByte (?pre @ colon # port) colon = Some (length ?pre)"
    using assms(2) by (intro LastIndexByte_last) simp
  have "SplitHostPort (?pre @ colon # port) = Inr (host, port)"
    unfolding SplitHostPort_def e i using assms
    by (simp add: bracket_open_def bracket_close_def colon_def)
  with True show ?thesis by (simp add: JoinHostPort_def)
next
  case False
  have i: "LastIndexByte (host @ colon # port) colon = Some (length host)"
    using assms(2) by (intro LastIndexByte_last) simp
  have "hd (host @ colon # port) \<noteq> bracket_open"
    using assms(1) by (cases host) (auto simp: bracket_open_def colon_def)
  then have "SplitHostPort (host @ colon # port) = Inr (host, port)"
    unfolding SplitHostPort_def i using assms False
    by (simp add: bracket_open_def bracket_close_def colon_def)
  with False show ?thesis by (simp add: JoinHostPort_def)
qed

subsection \<open>Delimited reads\<close>

definition conn_ReadString :: "byte \<Rightarrow> 'p conn \<Rightarrow> bytes result \<times> 'p conn" where
  "conn_ReadString delim c =
     (case IndexByte (inbuf c) delim of
        Some i \<Rightarrow> (Inr (take (Suc i) (inbuf c)), c\<lparr>inbuf := drop (Suc i) (inbuf c)\<rparr>)
      | None \<Rightarrow>
          (if closed c then (Inl NetErrClosed, c) else (Inl (rderr c), c\<lparr>inbuf := []\<rparr>)))"

subsection \<open>Operations that may not return\<close>

text \<open>
  The outcome of an operation is \<open>None\<close> when it does not return, else a result; a panic is
  the error \<open>Panic\<close>. \<open>andThen m k\<close> is \<open>v, err := m; if err != nil { return err }; k\<close>.
\<close>

type_synonym ('w, 'a) run = "'w \<Rightarrow> 'a result option \<times> 'w"

definition andThen :: "('w, 'a) run \<Rightarrow> ('a \<Rightarrow> ('w, 'b) run) \<Rightarrow> ('w, 'b) run" where
  "andThen m k w =
     (case m w of
        (Some (Inr v), w1) \<Rightarrow> k v w1
      | (Some (Inl e), w1) \<Rightarrow> (Some (Inl e), w1)
      | (None, w1) \<Rightarrow> (None, w1))"

definition done_with :: "'a result \<Rightarrow> ('w, 'a) run" where
  "done_with r w = (Some r, w)"

lemma andThen_Inr:
  "andThen m k w = (Some (Inr v), w') \<longleftrightarrow>
     (\<exists>x w1. m w = (Some (Inr x), w1) \<and> k x w1 = (Some (Inr v), w'))"
  by (auto simp: andThen_def split: prod.splits option.splits sum.splits)

lemma done_with_Inr [simp]: "done_with r w = (Some (Inr v), w') \<longleftrightarrow> r = Inr v \<and> w' = w"
  by (auto simp: done_with_def)

end
