(* ===== verification/Dp9ik_Client.thy ===== *)
theory Dp9ik_Client
  imports Dp9ik_Pak Go_Net Config
begin

text \<open>
  The dp9ik client of \<open>internal/auth/dp9ik/client.go\<close>: negotiation with the cpu server,
  the key exchange and the ticket request at the auth server, and the mutual proof of the
  ticket key to the cpu server.

  The state of a run holds both connections, the random source and the nonce counter of the
  package. The buffered reader on the cpu connection and the connection share one input
  buffer. Randomness, cipher and key derivation are parameters, collected in \<open>env\<close>.
\<close>

record ('p, 'q, 'r) auth_world =
  cpuConn :: "'p conn"
  authConn :: "'q conn"
  rng :: 'r
  form1Counter :: u32

record ('p, 'q, 'r) env =
  cpu_react :: "'p peer_fn"
  auth_react :: "'q peer_fn"
  rand_Read :: "nat \<Rightarrow> 'r \<Rightarrow> bytes result \<times> 'r"
  rand_Int :: "int \<Rightarrow> 'r \<Rightarrow> int result \<times> 'r"
  aead :: cipher
  derive :: kdf
  newKey :: "string \<Rightarrow> string \<Rightarrow> authkey option"
  hasDeadline :: bool

record sessionkeys =
  sk_AuthID :: string
  sk_AuthDomain :: string
  sk_ClientUser :: string
  sk_ServerUser :: string
  sk_TicketKey :: bytes
  sk_ClientRandom :: bytes
  sk_ServerRandom :: bytes
  sk_SessionSecret :: bytes

subsection \<open>Steps on the state\<close>

type_synonym ('p, 'q, 'r, 'a) auth_run = "(('p, 'q, 'r) auth_world, 'a) run"

definition error_result :: "go_error option \<Rightarrow> unit result" where
  "error_result e = (case e of None \<Rightarrow> Inr () | Some err \<Rightarrow> Inl err)"

definition cpu_write :: "('p, 'q, 'r) env \<Rightarrow> bytes \<Rightarrow> ('p, 'q, 'r, unit) auth_run" where
  "cpu_write N data w =
     (let (e, c) = conn_write (cpu_react N) data (cpuConn w)
      in (Some (error_result e), w\<lparr>cpuConn := c\<rparr>))"

definition cpu_read :: "nat \<Rightarrow> ('p, 'q, 'r, bytes) auth_run" where
  "cpu_read n w = (let (r, c) = conn_ReadFull n (cpuConn w) in (Some r, w\<lparr>cpuConn := c\<rparr>))"

definition auth_write :: "('p, 'q, 'r) env \<Rightarrow> bytes \<Rightarrow> ('p, 'q, 'r, unit) auth_run" where
  "auth_write N data w =
     (let (e, c) = conn_write (auth_react N) data (authConn w)
      in (Some (error_result e), w\<lparr>authConn := c\<rparr>))"

definition auth_read :: "nat \<Rightarrow> ('p, 'q, 'r, bytes) auth_run" where
  "auth_read n w = (let (r, c) = conn_ReadFull n (authConn w) in (Some r, w\<lparr>authConn := c\<rparr>))"

definition randomBytes :: "('p, 'q, 'r) env \<Rightarrow> nat \<Rightarrow> ('p, 'q, 'r, bytes) auth_run" where
  "randomBytes N n w = (let (r, g) = rand_Read N n (rng w) in (Some r, w\<lparr>rng := g\<rparr>))"

subsection \<open>Helpers\<close>

definition serviceAddress :: "string \<Rightarrow> string \<Rightarrow> string" where
  "serviceAddress host port =
     (case SplitHostPort host of Inr _ \<Rightarrow> host | Inl _ \<Rightarrow> JoinHostPort host port)"

definition authPort :: string where "authPort = ''567''"

definition applyDeadline :: "bool \<Rightarrow> 'p conn \<Rightarrow> unit result" where
  "applyDeadline deadline c =
     (if deadline then (if closed c then Inl NetErrClosed else Inr ()) else Inr ())"

definition readCString :: "('p, 'q, 'r, string) auth_run" where
  "readCString w =
     (let (r, c) = conn_ReadString NUL (cpuConn w)
      in (Some (bind_result r (\<lambda>s. Inr (TrimSuffix s [NUL]))), w\<lparr>cpuConn := c\<rparr>))"

text \<open>The loop over the offered protocols, with the fallback found so far.\<close>

fun choose_loop :: "string \<Rightarrow> string list \<Rightarrow> string \<Rightarrow> string result" where
  "choose_loop wanted [] fallback =
     (if fallback = [] then Inl ErrNoDP9IKOffer else Inr fallback)"
| "choose_loop wanted (field # fs) fallback =
     (case Cut field (CHR ''@'') of (proto, dm, ok) \<Rightarrow>
        if \<not> ok \<or> proto \<noteq> ''dp9ik'' then choose_loop wanted fs fallback
        else if dm = wanted then Inr dm
        else choose_loop wanted fs (if fallback = [] then dm else fallback))"

definition chooseDP9IKOffer :: "string \<Rightarrow> string \<Rightarrow> (bool \<times> string) result" where
  "chooseDP9IKOffer offer wantedDomain =
     (let v2 = HasPrefix offer ''v.2 '';
          offer = (if v2 then TrimPrefix offer ''v.2 '' else offer)
      in bind_result (choose_loop wantedDomain (Fields offer) []) (\<lambda>dom. Inr (v2, dom)))"

definition auth_error :: "bytes \<Rightarrow> go_error" where
  "auth_error msg = ErrorString (''auth server: '' @ TrimRight msg [NUL])"

definition unexpected_response :: "bytes \<Rightarrow> go_error" where
  "unexpected_response st =
     ErrorString (''unexpected auth server response '' @ string_of_nat (byte_val (st ! 0)))"

fun parse_digits :: "nat \<Rightarrow> bytes \<Rightarrow> nat result" where
  "parse_digits n [] = Inr n"
| "parse_digits n (b # bs) =
     (if byte_val b < 48 \<or> byte_val b > 57 then Inl (ErrorString ''invalid variable auth response'')
      else parse_digits (n * 10 + (byte_val b - 48)) bs)"

definition readAuthServerResponse :: "nat \<Rightarrow> ('p, 'q, 'r, bytes) auth_run" where
  "readAuthServerResponse want =
     andThen (auth_read 1) (\<lambda>st.
       if st ! 0 = AuthOK then auth_read want
       else if st ! 0 = AuthErr then andThen (auth_read 64) (\<lambda>msg. done_with (Inl (auth_error msg)))
       else if st ! 0 = AuthOKvar then
         andThen (auth_read 5) (\<lambda>lenBuf.
           andThen (done_with (parse_digits 0 lenBuf)) (\<lambda>n. auth_read n))
       else done_with (Inl (unexpected_response st)))"

text \<open>
  \<open>requestPAKExchange\<close> also changes the key it is given; it returns the new one with the
  reply. Slicing a reply shorter than \<open>PAKYLen\<close> is a run-time panic.
\<close>

definition requestPAKExchange ::
  "('p, 'q, 'r) env \<Rightarrow> ticketreq \<Rightarrow> bytes \<Rightarrow> authkey \<Rightarrow>
   ('p, 'q, 'r, bytes \<times> authkey) auth_run" where
  "requestPAKExchange N tr serverY clientKey =
     (if length serverY \<noteq> PAKYLen then done_with (Inl (ErrorString ''invalid server AuthPAK key''))
      else andThen (done_with (ticketreq_MarshalBinary (tr\<lparr>tr_Type := AuthPAK\<rparr>))) (\<lambda>req.
        andThen (auth_write N req) (\<lambda>_.
        andThen (auth_write N serverY) (\<lambda>_.
        andThen (\<lambda>w. let (r, g) = NewPAK (rand_Int N) clientKey True (rng w) in (r, w\<lparr>rng := g\<rparr>))
          (\<lambda>(pak, clientY).
        andThen (auth_write N clientY) (\<lambda>_.
        andThen (readAuthServerResponse (2 * PAKYLen)) (\<lambda>reply.
          if length reply < PAKYLen then done_with (Inl (Panic ''slice bounds out of range''))
          else (case FinishPAK (derive N) clientKey pak (drop PAKYLen reply) of
                  None \<Rightarrow> (\<lambda>w. (None, w))
                | Some (Inl e, _, _) \<Rightarrow> done_with (Inl e)
                | Some (Inr _, _, key) \<Rightarrow> done_with (Inr (take PAKYLen reply, key))))))))))"

definition requestTickets :: "('p, 'q, 'r) env \<Rightarrow> ticketreq \<Rightarrow> ('p, 'q, 'r, bytes) auth_run" where
  "requestTickets N tr =
     andThen (done_with (ticketreq_MarshalBinary (tr\<lparr>tr_Type := AuthTreq\<rparr>))) (\<lambda>req.
     andThen (auth_write N req) (\<lambda>_.
     andThen (auth_read 1) (\<lambda>st.
       if st ! 0 = AuthOK then auth_read (2 * TicketLen)
       else if st ! 0 = AuthErr then andThen (auth_read 64) (\<lambda>msg. done_with (Inl (auth_error msg)))
       else done_with (Inl (unexpected_response st)))))"

definition splitTicketPair :: "bytes \<Rightarrow> (bytes \<times> bytes) result" where
  "splitTicketPair buf =
     (if length buf \<noteq> 2 * TicketLen
      then Inl (ErrorString (''unexpected ticket pair length '' @ string_of_nat (length buf)))
      else Inr (take TicketLen buf, drop TicketLen buf))"

definition deriveSessionSecret :: "kdf \<Rightarrow> bytes \<Rightarrow> bytes \<Rightarrow> bytes \<Rightarrow> bytes result" where
  "deriveSessionSecret K ticketKey clientRand serverRand =
     (let (bs, err) = hkdf_Read K ticketKey (clientRand @ serverRand) ''Plan 9 session secret'' 256
      in (case err of Some e \<Rightarrow> Inl e | None \<Rightarrow> Inr (fill 256 bs)))"

subsection \<open>The authentication\<close>

text \<open>Negotiation of the protocol: the offer, the choice, the confirmation of version 2.\<close>

definition negotiate :: "('p, 'q, 'r) env \<Rightarrow> string \<Rightarrow> ('p, 'q, 'r, unit) auth_run" where
  "negotiate N wantedDomain =
     andThen readCString (\<lambda>offer.
     andThen (done_with (chooseDP9IKOffer offer wantedDomain)) (\<lambda>(v2, domain).
     andThen (cpu_write N (''dp9ik '' @ domain @ [NUL])) (\<lambda>_.
       if v2 then andThen readCString (\<lambda>ok.
         if ok \<noteq> ''OK'' then
           done_with (Inl (ErrorString (''unexpected p9any confirmation '' @ Quote ok)))
         else done_with (Inr ()))
       else done_with (Inr ()))))"

text \<open>The ticket request of the cpu server: the parsed request and its key share.\<close>

definition readTicketRequest :: "('p, 'q, 'r, ticketreq \<times> bytes) auth_run" where
  "readTicketRequest =
     andThen (cpu_read (TicketReqLen + PAKYLen)) (\<lambda>trWire.
     andThen (done_with (ticketreq_UnmarshalBinary (take TicketReqLen trWire))) (\<lambda>tr.
       if tr_Type tr \<noteq> AuthPAK
       then done_with (Inl (ErrorString (''unexpected ticket request type '' @
         string_of_nat (byte_val (tr_Type tr)))))
       else done_with (Inr (tr, drop TicketReqLen trWire))))"

text \<open>The client's ticket must open under the exchanged key and be of the client's kind.\<close>

definition openClientTicket :: "cipher \<Rightarrow> bytes \<Rightarrow> authkey \<Rightarrow> ticket result" where
  "openClientTicket C wire key =
     (case ticket_UnmarshalBinary C wire (Some key) of
        Inl _ \<Rightarrow> Inl ErrWrongSecret
      | Inr t \<Rightarrow> if t_Num t \<noteq> AuthTc then Inl ErrWrongSecret else Inr t)"

text \<open>\<open>Authenticator.MarshalBinary\<close> with the nonce counter of the package.\<close>

definition sealAuthenticator ::
  "('p, 'q, 'r) env \<Rightarrow> ticket \<Rightarrow> authenticator \<Rightarrow> ('p, 'q, 'r, bytes) auth_run" where
  "sealAuthenticator N tick a w =
     (let (r, ctr) = authenticator_MarshalBinary (aead N) (Some tick) a (form1Counter w)
      in (Some r, w\<lparr>form1Counter := ctr\<rparr>))"

text \<open>The proof of the server: kind and challenge of its authenticator.\<close>

definition checkServerAuth :: "cipher \<Rightarrow> bytes \<Rightarrow> ticket \<Rightarrow> bytes \<Rightarrow> authenticator result" where
  "checkServerAuth C wire tick clientChal =
     bind_result (authenticator_UnmarshalBinary C wire (Some tick)) (\<lambda>sa.
       if a_Num sa \<noteq> AuthAs \<or> a_Chal sa \<noteq> clientChal then Inl ErrInvalidChallenge else Inr sa)"

definition authenticateWithAuthServer ::
  "('p, 'q, 'r) env \<Rightarrow> profile \<Rightarrow> string \<Rightarrow> ('p, 'q, 'r, sessionkeys) auth_run" where
  "authenticateWithAuthServer N prof sec =
     andThen (\<lambda>w. done_with (applyDeadline (hasDeadline N) (cpuConn w)) w) (\<lambda>_.
     andThen (\<lambda>w. done_with (applyDeadline (hasDeadline N) (authConn w)) w) (\<lambda>_.
     andThen (negotiate N (AuthDomain prof)) (\<lambda>_.
     andThen (randomBytes N ChalLen) (\<lambda>clientChal.
     andThen (cpu_write N clientChal) (\<lambda>_.
     andThen readTicketRequest (\<lambda>(tr, serverY).
     andThen (\<lambda>w. (map_option Inr (newKey N sec (User prof)), w)) (\<lambda>clientKey.
       let tr = tr\<lparr>tr_HostID := User prof, tr_UID := User prof\<rparr> in
     andThen (requestPAKExchange N tr serverY clientKey) (\<lambda>(serverYReply, clientKey).
     andThen (requestTickets N tr) (\<lambda>tickets.
     andThen (done_with (splitTicketPair tickets)) (\<lambda>(clientTicketWire, serverTicketWire).
     andThen (done_with (openClientTicket (aead N) clientTicketWire clientKey)) (\<lambda>clientTicket.
     andThen (cpu_write N serverYReply) (\<lambda>_.
     andThen (randomBytes N NonceLen) (\<lambda>clientRand.
     andThen (sealAuthenticator N clientTicket
       \<lparr>a_Num = AuthAc, a_Chal = tr_Chal tr, a_Rand = clientRand\<rparr>) (\<lambda>authWire.
     andThen (cpu_write N (serverTicketWire @ authWire)) (\<lambda>_.
     andThen (cpu_read AuthLen) (\<lambda>serverAuthWire.
     andThen (done_with (checkServerAuth (aead N) serverAuthWire clientTicket clientChal)) (\<lambda>serverAuth.
     andThen (done_with (deriveSessionSecret (derive N) (t_Key clientTicket) clientRand
       (a_Rand serverAuth))) (\<lambda>sessionSecret.
       done_with (Inr \<lparr>sk_AuthID = tr_AuthID tr, sk_AuthDomain = tr_AuthDom tr,
         sk_ClientUser = t_CUID clientTicket, sk_ServerUser = t_SUID clientTicket,
         sk_TicketKey = t_Key clientTicket, sk_ClientRandom = clientRand,
         sk_ServerRandom = a_Rand serverAuth, sk_SessionSecret = sessionSecret\<rparr>)))))))))))))))))))"

text \<open>
  \<open>dialAuth\<close> is \<open>DialContext\<close> to the auth server's address. The auth connection is closed
  when the authentication ends, however it ends.
\<close>

definition DialAuthServer :: "(string \<Rightarrow> 'q conn result) \<Rightarrow> profile \<Rightarrow> 'q conn result" where
  "DialAuthServer dialAuth prof = dialAuth (serviceAddress (AuthHost prof) authPort)"

definition Authenticate ::
  "('p, 'q, 'r) env \<Rightarrow> (string \<Rightarrow> 'q conn result) \<Rightarrow> profile \<Rightarrow> string \<Rightarrow>
   ('p, 'q, 'r, sessionkeys) auth_run" where
  "Authenticate N dialAuth prof sec w =
     (case DialAuthServer dialAuth prof of
        Inl e \<Rightarrow> (Some (Inl e), w)
      | Inr c \<Rightarrow>
          (let (r, w1) = authenticateWithAuthServer N prof sec (w\<lparr>authConn := c\<rparr>)
           in (r, w1\<lparr>authConn := conn_close (authConn w1)\<rparr>)))"

end
