(* ===== verification/Dp9ik_Auth.thy ===== *)
theory Dp9ik_Auth
  imports Dp9ik_Client
begin

text \<open>
  What the dp9ik client guarantees: which protocol offer it takes, what is true of a session
  it returns, and how a short answer of the auth server ends the program.
\<close>

subsection \<open>The choice among the offers\<close>

text \<open>The domains a server offers for dp9ik, in the order of the offer.\<close>

definition offered_domain :: "string \<Rightarrow> string option" where
  "offered_domain fd =
     (case Cut fd (CHR ''@'') of (proto, dm, ok) \<Rightarrow> if ok \<and> proto = ''dp9ik'' then Some dm else None)"

definition offered_domains :: "string list \<Rightarrow> string list" where
  "offered_domains fs = List.map_filter offered_domain fs"

lemma offered_domains_simps [simp]:
  "offered_domains [] = []"
  "offered_domains (fd # fs) =
     (case offered_domain fd of None \<Rightarrow> offered_domains fs | Some dm \<Rightarrow> dm # offered_domains fs)"
  by (simp_all add: offered_domains_def List.map_filter_simps split: option.split)

definition first_named :: "string list \<Rightarrow> string" where
  "first_named ds = (case filter (\<lambda>d. d \<noteq> []) ds of [] \<Rightarrow> [] | d # _ \<Rightarrow> d)"

lemma first_named_simps [simp]:
  "first_named [] = []"
  "first_named (d # ds) = (if d = [] then first_named ds else d)"
  by (simp_all add: first_named_def)

lemma choose_loop_eq:
  "choose_loop wanted fs fallback =
     (if wanted \<in> set (offered_domains fs) then Inr wanted
      else if first_named (fallback # offered_domains fs) = [] then Inl ErrNoDP9IKOffer
      else Inr (first_named (fallback # offered_domains fs)))"
  by (induction wanted fs fallback rule: choose_loop.induct)
    (auto simp: offered_domain_def split: prod.splits)

text \<open>
  Property C37: the choice among the protocol offers. Whatever else the server offers, the
  client takes the wanted domain if dp9ik is offered for it, otherwise the first domain with
  a name that is offered for dp9ik, and fails with the error for a missing offer only when
  there is none; version 2 is reported exactly when the offer is marked with it.
\<close>

theorem choose_offer:
  "chooseDP9IKOffer offer wanted =
     (let v2 = HasPrefix offer ''v.2 '';
          ds = offered_domains (Fields (if v2 then drop 4 offer else offer))
      in if wanted \<in> set ds then Inr (v2, wanted)
         else if first_named ds = [] then Inl ErrNoDP9IKOffer
         else Inr (v2, first_named ds))"
  by (simp add: chooseDP9IKOffer_def choose_loop_eq TrimPrefix_def Let_def eval_nat_numeral)

subsection \<open>A session is authenticated\<close>

definition keeps_rng :: "('p, 'q, 'r, 'a) auth_run \<Rightarrow> bool" where
  "keeps_rng m \<longleftrightarrow> (\<forall>w. rng (snd (m w)) = rng w)"

lemma keeps_rng_andThen:
  "keeps_rng m \<Longrightarrow> (\<And>v. keeps_rng (k v)) \<Longrightarrow> keeps_rng (andThen m k)"
  by (auto simp: keeps_rng_def andThen_def split: prod.split option.split sum.split) (metis snd_conv)+

lemma keeps_rng_steps:
  "keeps_rng (done_with r)" "keeps_rng readCString" "keeps_rng (cpu_write N data)"
  "keeps_rng (cpu_read n)"
  by (simp_all add: keeps_rng_def done_with_def readCString_def cpu_write_def cpu_read_def split_beta)

lemma keeps_rng_negotiate: "keeps_rng (negotiate N d)"
  unfolding negotiate_def
  by (intro keeps_rng_andThen keeps_rng_steps | simp add: keeps_rng_steps keeps_rng_andThen split_beta)+

lemma andThen_InrE:
  assumes "andThen m k w = (Some (Inr v), w')"
  obtains x w1 where "m w = (Some (Inr x), w1)" and "k x w1 = (Some (Inr v), w')"
  using assms by (auto simp: andThen_Inr)

lemma openClientTicket_Inr:
  "openClientTicket C wire key = Inr t \<longleftrightarrow>
     ticket_UnmarshalBinary C wire (Some key) = Inr t \<and> t_Num t = AuthTc"
  by (auto simp: openClientTicket_def split: sum.splits)

lemma checkServerAuth_Inr:
  "checkServerAuth C wire tick chal = Inr sa \<longleftrightarrow>
     authenticator_UnmarshalBinary C wire (Some tick) = Inr sa \<and> a_Num sa = AuthAs \<and> a_Chal sa = chal"
  by (auto simp: checkServerAuth_def bind_result_eq_Inr)

lemma requestPAKExchange_Inr:
  assumes "requestPAKExchange N tr serverY key0 w = (Some (Inr rk), w')"
  shows "\<exists>pak pak' share. FinishPAK (derive N) key0 pak share = Some (Inr (), pak', snd rk)"
  using assms
  by (auto simp: requestPAKExchange_def andThen_Inr split: if_splits option.splits sum.splits prod.splits)
    blast


text \<open>The steps of a run that ends with session keys.\<close>

lemma authenticate_InrE:
  assumes "authenticateWithAuthServer N prof sec w = (Some (Inr keys), w')"
  obtains ua wa ub wb u w1 chal w2 trs key0 w4 rk w5 tickets w6 cw w7 tick w8
      crand w10 wire w11 sa w12 secret w13
    where "done_with (applyDeadline (hasDeadline N) (cpuConn w)) w = (Some (Inr ua), wa)"
        "done_with (applyDeadline (hasDeadline N) (authConn wa)) wa = (Some (Inr ub), wb)"
      and "negotiate N (AuthDomain prof) wb = (Some (Inr u), w1)"
      and "randomBytes N ChalLen w1 = (Some (Inr chal), w2)"
      and "requestPAKExchange N ((fst trs)\<lparr>tr_HostID := User prof, tr_UID := User prof\<rparr>)
        (snd trs) key0 w4 = (Some (Inr rk), w5)"
      and "requestTickets N ((fst trs)\<lparr>tr_HostID := User prof, tr_UID := User prof\<rparr>) w5 =
        (Some (Inr tickets), w6)"
      and "done_with (splitTicketPair tickets) w6 = (Some (Inr cw), w7)"
      and "done_with (openClientTicket (aead N) (fst cw) (snd rk)) w7 = (Some (Inr tick), w8)"
      and "cpu_read AuthLen w10 = (Some (Inr wire), w11)"
      and "done_with (checkServerAuth (aead N) wire tick chal) w11 = (Some (Inr sa), w12)"
      and "done_with (deriveSessionSecret (derive N) (t_Key tick) crand (a_Rand sa)) w12 =
        (Some (Inr secret), w13)"
      and "done_with (Inr \<lparr>sk_AuthID = tr_AuthID ((fst trs)\<lparr>tr_HostID := User prof, tr_UID := User prof\<rparr>),
         sk_AuthDomain = tr_AuthDom ((fst trs)\<lparr>tr_HostID := User prof, tr_UID := User prof\<rparr>),
         sk_ClientUser = t_CUID tick, sk_ServerUser = t_SUID tick,
         sk_TicketKey = t_Key tick, sk_ClientRandom = crand,
         sk_ServerRandom = a_Rand sa, sk_SessionSecret = secret\<rparr>) w13 = (Some (Inr keys), w')"
proof -
  from assms show thesis
    unfolding authenticateWithAuthServer_def Let_def split_beta
    by (elim andThen_InrE) (rule that, assumption+)
qed

text \<open>
  Property C3: every session is authenticated. If the authentication returns session keys,
  then the client's ticket opened under a key that the key exchange produced and is of the
  client's kind, the cpu server sent an authenticator that opens under the key in that ticket,
  is of the server's kind and repeats the random challenge of this very run, and the session
  secret is derived from that ticket key and the random values of both sides. There is no
  path to a session around these checks.
\<close>

theorem session_is_authenticated:
  assumes "authenticateWithAuthServer N prof sec w = (Some (Inr keys), w')"
  shows "\<exists>chal tick wire sa key. fst (rand_Read N ChalLen (rng w)) = Inr chal \<and>
    (\<exists>key0 pak pak' share. FinishPAK (derive N) key0 pak share = Some (Inr (), pak', key)) \<and>
    (\<exists>tw. ticket_UnmarshalBinary (aead N) tw (Some key) = Inr tick) \<and> t_Num tick = AuthTc \<and>
    length wire = AuthLen \<and>
    authenticator_UnmarshalBinary (aead N) wire (Some tick) = Inr sa \<and>
    a_Num sa = AuthAs \<and> a_Chal sa = chal \<and>
    sk_TicketKey keys = t_Key tick \<and> sk_ServerRandom keys = a_Rand sa \<and>
    sk_ClientUser keys = t_CUID tick \<and> sk_ServerUser keys = t_SUID tick \<and>
    deriveSessionSecret (derive N) (t_Key tick) (sk_ClientRandom keys) (a_Rand sa) =
      Inr (sk_SessionSecret keys)"
proof -
  from assms obtain ua wa ub wb u w1 chal w2 trs key0 w4 rk w5 tickets w6 cw w7 tick w8
      crand w10 wire w11 sa w12 secret w13
    where dl: "done_with (applyDeadline (hasDeadline N) (cpuConn w)) w = (Some (Inr ua), wa)"
        "done_with (applyDeadline (hasDeadline N) (authConn wa)) wa = (Some (Inr ub), wb)"
      and neg: "negotiate N (AuthDomain prof) wb = (Some (Inr u), w1)"
      and chal: "randomBytes N ChalLen w1 = (Some (Inr chal), w2)"
      and pak: "requestPAKExchange N ((fst trs)\<lparr>tr_HostID := User prof, tr_UID := User prof\<rparr>)
        (snd trs) key0 w4 = (Some (Inr rk), w5)"
      and "requestTickets N ((fst trs)\<lparr>tr_HostID := User prof, tr_UID := User prof\<rparr>) w5 =
        (Some (Inr tickets), w6)"
      and "done_with (splitTicketPair tickets) w6 = (Some (Inr cw), w7)"
      and tick: "done_with (openClientTicket (aead N) (fst cw) (snd rk)) w7 = (Some (Inr tick), w8)"
      and wire: "cpu_read AuthLen w10 = (Some (Inr wire), w11)"
      and sa: "done_with (checkServerAuth (aead N) wire tick chal) w11 = (Some (Inr sa), w12)"
      and secret: "done_with (deriveSessionSecret (derive N) (t_Key tick) crand (a_Rand sa)) w12 =
        (Some (Inr secret), w13)"
      and keys: "done_with (Inr \<lparr>sk_AuthID = tr_AuthID ((fst trs)\<lparr>tr_HostID := User prof, tr_UID := User prof\<rparr>),
         sk_AuthDomain = tr_AuthDom ((fst trs)\<lparr>tr_HostID := User prof, tr_UID := User prof\<rparr>),
         sk_ClientUser = t_CUID tick, sk_ServerUser = t_SUID tick,
         sk_TicketKey = t_Key tick, sk_ClientRandom = crand,
         sk_ServerRandom = a_Rand sa, sk_SessionSecret = secret\<rparr>) w13 = (Some (Inr keys), w')"
    by (rule authenticate_InrE)
  have "rng w1 = rng w" using keeps_rng_negotiate [of N "AuthDomain prof"] neg dl
    unfolding done_with_Inr keeps_rng_def by (metis snd_conv)
  with chal have "fst (rand_Read N ChalLen (rng w)) = Inr chal"
    by (auto simp: randomBytes_def split: prod.splits)
  moreover have "length wire = AuthLen"
    using wire by (auto simp: cpu_read_def dest: conn_ReadFull_Inr split: prod.splits)
  ultimately show ?thesis
    using requestPAKExchange_Inr [OF pak] tick sa secret keys
    by (intro exI [where x = chal] exI [where x = tick] exI [where x = wire] exI [where x = sa]
        exI [where x = "snd rk"]) (auto simp: openClientTicket_Inr checkServerAuth_Inr)
qed

subsection \<open>A concrete run\<close>

text \<open>
  Peers that follow a script: every write is answered with the next message. The random
  source, the cipher and the key derivation of the run are simple functions.
\<close>

definition script_peer :: "bytes list peer_fn" where
  "script_peer rs data = (None, (case rs of [] \<Rightarrow> [] | r # _ \<Rightarrow> r), tl rs)"

definition script_conn :: "bytes \<Rightarrow> bytes list \<Rightarrow> bytes list conn" where
  "script_conn start answers = \<lparr>peer = answers, inbuf = start, rderr = IoEOF, closed = False\<rparr>"

lemma script_conn_write:
  "conn_write script_peer data (script_conn b (r # rs)) = (None, script_conn (b @ r) rs)"
  by (simp add: conn_write_def script_peer_def script_conn_def)

lemma script_conn_read:
  "length bs = n \<Longrightarrow> conn_ReadFull n (script_conn (bs @ r) rs) = (Inr bs, script_conn r rs)"
  by (simp add: conn_ReadFull_def script_conn_def)

lemma script_conn_read_all:
  "length bs = n \<Longrightarrow> conn_ReadFull n (script_conn bs rs) = (Inr bs, script_conn [] rs)"
  using script_conn_read [of bs n "[]"] by simp

definition demo_kdf :: kdf where
  "demo_kdf = \<lparr>pbkdf2_Key = (\<lambda>_ _ _ n. replicate n (CHR ''p'')), sha256_Sum256 = (\<lambda>_. []),
     hkdf_Read = (\<lambda>_ _ _ n. (replicate n (CHR ''k''), None))\<rparr>"

definition demo_key :: authkey where
  "demo_key = \<lparr>AES = [], PakKey = replicate 32 NUL, PakHash = replicate 448 NUL\<rparr>"

definition demo_env :: "(bytes list, bytes list, nat) env" where
  "demo_env = \<lparr>cpu_react = script_peer, auth_react = script_peer,
     rand_Read = (\<lambda>n g. (Inr (replicate n (CHR ''r'')), g)), rand_Int = (\<lambda>m g. (Inr 3, g)),
     aead = demo_cipher, derive = demo_kdf, newKey = (\<lambda>_ _. Some demo_key), hasDeadline = True\<rparr>"

lemma demo_NewPAK: "\<exists>pak y. NewPAK (rand_Int demo_env) key True g = (Some (Inr (pak, y)), g)"
proof -
  obtain v where "spake2ee1 3 (loadPAKPoint (PakHash key) True) = Some v"
    using decafEncode_total by (auto simp: spake2ee1_def Let_def)
  then show ?thesis by (simp add: NewPAK_def authpakNew_def demo_env_def)
qed

lemma demo_FinishPAK:
  "length (PakKey key) = 32 \<Longrightarrow>
   \<exists>pak'. FinishPAK demo_kdf key pak (replicate PAKYLen NUL) =
     Some (Inr (), pak', key\<lparr>PakKey := replicate 32 (CHR ''k'')\<rparr>)"
proof -
  assume len: "length (PakKey key) = 32"
  have "get_be (replicate PAKYLen NUL) = 0"
    using get_be_put_be [of PAKYLen 0] by (simp add: put_be_zero)
  moreover obtain z where "spake2ee2 (loadPAKPoint (PakHash key) (\<not> isClient pak)) (beToBig (pak_x pak)) 0 =
      Some (Inr z)"
    using decafEncode_total by (auto simp: spake2ee2_def decafDecode_zero Let_def)
  ultimately show ?thesis
    using len by (simp add: FinishPAK_def authpakFinish_def demo_kdf_def beToBig_def Let_def)
qed

definition payload_of :: "bytes result \<times> u32 \<Rightarrow> bytes" where
  "payload_of r = (case fst r of Inr d \<Rightarrow> d | Inl _ \<Rightarrow> [])"

definition demo_key1 :: authkey where
  "demo_key1 = demo_key\<lparr>PakKey := replicate 32 (CHR ''k'')\<rparr>"

definition demo_tr :: ticketreq where
  "demo_tr = \<lparr>tr_Type = AuthPAK, tr_AuthID = ''bootes'', tr_AuthDom = ''dom'', tr_Chal = ''87654321'',
     tr_HostID = [], tr_UID = []\<rparr>"

definition demo_tr_wire :: bytes where
  "demo_tr_wire = (case ticketreq_MarshalBinary demo_tr of Inr d \<Rightarrow> d | Inl _ \<Rightarrow> [])"

definition demo_ticket_wire :: bytes where
  "demo_ticket_wire = payload_of (ticket_MarshalBinary demo_cipher (Some demo_key1) demo_ticket 0)"

definition demo_server_auth :: authenticator where
  "demo_server_auth = \<lparr>a_Num = AuthAs, a_Chal = replicate 8 (CHR ''r''), a_Rand = replicate 32 (CHR ''s'')\<rparr>"

definition demo_auth_wire :: bytes where
  "demo_auth_wire = payload_of (authenticator_MarshalBinary demo_cipher (Some demo_ticket) demo_server_auth 1)"

definition demo_world :: "(bytes list, bytes list, nat) auth_world" where
  "demo_world = \<lparr>
     cpuConn = script_conn (''dp9ik@dom'' @ [NUL])
       [[], demo_tr_wire @ replicate 56 (CHR ''y''), [], demo_auth_wire],
     authConn = script_conn [] [[], [], AuthOK # replicate 112 NUL,
       AuthOK # demo_ticket_wire @ replicate 124 (CHR ''t'')],
     rng = 0, form1Counter = 0\<rparr>"

definition demo_profile :: profile where
  "demo_profile = \<lparr>CPUHost = ''cpu'', AuthHost = ''auth'', User = ''glenda'', AuthDomain = ''dom'',
     RemoteBase = ''/usr/glenda/ws'', SecretEnv = ''S'', SecretCommand = []\<rparr>"

lemma demo_wires:
  "length demo_tr_wire = TicketReqLen" "ticketreq_UnmarshalBinary demo_tr_wire = Inr demo_tr"
  "length demo_ticket_wire = TicketLen" "length demo_auth_wire = AuthLen"
  "openClientTicket demo_cipher demo_ticket_wire demo_key1 = Inr (demo_ticket\<lparr>t_Form := 1\<rparr>)"
  "checkServerAuth demo_cipher demo_auth_wire (demo_ticket\<lparr>t_Form := 1\<rparr>) (replicate 8 (CHR ''r'')) =
     Inr demo_server_auth"
  by code_simp+

lemma script_conn_status:
  "conn_ReadFull (Suc 0) (script_conn (st # r) rs) = (Inr [st], script_conn r rs)"
  using script_conn_read [of "[st]" "Suc 0" r] by simp

lemma NUL_char: "NUL = CHR 0x00"
  by code_simp

lemma demo_negotiate:
  "negotiate demo_env ''dom'' demo_world = (Some (Inr ()),
     demo_world\<lparr>cpuConn := script_conn [] [demo_tr_wire @ replicate 56 (CHR ''y''), [], demo_auth_wire]\<rparr>)"
proof -
  have read: "readCString demo_world = (Some (Inr ''dp9ik@dom''),
      demo_world\<lparr>cpuConn := script_conn [] [[], demo_tr_wire @ replicate 56 (CHR ''y''), [], demo_auth_wire]\<rparr>)"
    by (simp add: readCString_def demo_world_def conn_ReadString_def script_conn_def NUL_char
      TrimSuffix_def HasSuffix_def)
  have choice: "chooseDP9IKOffer ''dp9ik@dom'' ''dom'' = Inr (False, ''dom'')" by code_simp
  show ?thesis
    by (simp add: negotiate_def andThen_def read done_with_def choice cpu_write_def script_conn_write demo_env_def
      error_result_def)
qed

lemma demo_exchange:
  assumes "authConn w = script_conn [] ([] # [] # (AuthOK # replicate 112 NUL) # rest)"
  shows "requestPAKExchange demo_env tr (replicate 56 (CHR ''y'')) demo_key w =
    (Some (Inr (replicate 56 NUL, demo_key1)), w\<lparr>authConn := script_conn [] rest\<rparr>)"
proof -
  obtain pak y where pak: "NewPAK (rand_Int demo_env) demo_key True (rng w) = (Some (Inr (pak, y)), rng w)"
    using demo_NewPAK by blast
  obtain pak' where fin: "FinishPAK demo_kdf demo_key pak (replicate PAKYLen NUL) =
      Some (Inr (), pak', demo_key1)"
    using demo_FinishPAK [of demo_key pak] by (auto simp: demo_key_def demo_key1_def)
  have env: "auth_react demo_env = script_peer" "derive demo_env = demo_kdf" by (simp_all add: demo_env_def)
  show ?thesis
    using fin assms pak
    by (cases w) (simp add: requestPAKExchange_def andThen_def done_with_def ticketreq_MarshalBinary_def
      auth_write_def env script_conn_write error_result_def readAuthServerResponse_def
      auth_read_def script_conn_status script_conn_read_all len_defs)
qed

lemma demo_tickets:
  assumes "authConn w = script_conn [] [AuthOK # demo_ticket_wire @ replicate 124 (CHR ''t'')]"
  shows "requestTickets demo_env tr w =
    (Some (Inr (demo_ticket_wire @ replicate 124 (CHR ''t''))), w\<lparr>authConn := script_conn [] []\<rparr>)"
proof -
  have env: "auth_react demo_env = script_peer" by (simp add: demo_env_def)
  have len: "length (demo_ticket_wire @ replicate 124 (CHR ''t'')) = 2 * TicketLen"
    by (simp add: demo_wires(3)) (simp add: len_defs)
  show ?thesis
    using script_conn_read_all [OF len, of "[]"]
    by (simp add: requestTickets_def andThen_def done_with_def ticketreq_MarshalBinary_def
      auth_write_def env assms script_conn_write error_result_def auth_read_def script_conn_status)
qed

lemma demo_run:
  "\<exists>keys w'. authenticateWithAuthServer demo_env demo_profile ''pw'' demo_world = (Some (Inr keys), w')"
proof -
  let ?w1 = "demo_world\<lparr>cpuConn := script_conn [] [demo_tr_wire @ replicate 56 (CHR ''y''), [], demo_auth_wire]\<rparr>"
  have dl: "applyDeadline b (script_conn s rs) = Inr ()" for b s rs
    by (simp add: applyDeadline_def script_conn_def)
  have env: "cpu_react demo_env = script_peer" "aead demo_env = demo_cipher" "derive demo_env = demo_kdf"
    "newKey demo_env s u = Some demo_key" "rand_Read demo_env n g = (Inr (replicate n (CHR ''r'')), g)" for s u n g
    by (simp_all add: demo_env_def)
  have conns: "authConn ?w1 = script_conn [] ([] # [] # (AuthOK # replicate 112 NUL) #
      [AuthOK # demo_ticket_wire @ replicate 124 (CHR ''t'')])" by (simp add: demo_world_def)
  have req: "readTicketRequest (w\<lparr>cpuConn := script_conn (demo_tr_wire @ replicate 56 (CHR ''y'')) rs\<rparr>) =
      (Some (Inr (demo_tr, replicate 56 (CHR ''y''))), w\<lparr>cpuConn := script_conn [] rs\<rparr>)"
    for w :: "(bytes list, bytes list, nat) auth_world" and rs
  proof -
    have "length (demo_tr_wire @ replicate 56 (CHR ''y'')) = TicketReqLen + PAKYLen"
      by (simp add: demo_wires(1)) (simp add: len_defs)
    from script_conn_read_all [OF this] show ?thesis
      by (simp add: readTicketRequest_def andThen_def cpu_read_def done_with_def demo_wires demo_tr_def)
  qed
  have world: "cpuConn demo_world = script_conn (''dp9ik@dom'' @ [NUL])
      [[], demo_tr_wire @ replicate 56 (CHR ''y''), [], demo_auth_wire]"
    "authConn demo_world = script_conn [] ([] # [] # (AuthOK # replicate 112 NUL) #
      [AuthOK # demo_ticket_wire @ replicate 124 (CHR ''t'')])"
    by (simp_all add: demo_world_def)
  have split: "splitTicketPair (demo_ticket_wire @ replicate 124 (CHR ''t'')) =
      Inr (demo_ticket_wire, replicate 124 (CHR ''t''))"
    using demo_wires(3) by (simp add: splitTicketPair_def) (simp add: len_defs)
  have seal: "authenticator_MarshalBinary demo_cipher (Some (demo_ticket\<lparr>t_Form := 1\<rparr>))
      \<lparr>a_Num = AuthAc, a_Chal = c, a_Rand = r\<rparr> ctr = (Inr (form1_nonce ''form1 Ac'' ctr @ c @ r @
        replicate 16 (CHR ''k'')), ctr + 1)" for c r ctr
    by (simp add: authenticator_MarshalBinary_def form1Encode_def form1Signature_def demo_cipher_def
      demo_ticket_def Let_def)
  have read: "conn_ReadFull AuthLen (script_conn demo_auth_wire rs) = (Inr demo_auth_wire, script_conn [] rs)"
    for rs using demo_wires(4) by (rule script_conn_read_all)
  have derive: "\<exists>out. deriveSessionSecret demo_kdf k a b = Inr out" for k a b
    by (simp add: deriveSessionSecret_def demo_kdf_def)
  have eight: "replicate ChalLen (CHR ''r'') = replicate 8 (CHR ''r'')" by (simp add: ChalLen_def)
  obtain out where out: "deriveSessionSecret demo_kdf (t_Key demo_ticket) (replicate NonceLen (CHR ''r''))
      (a_Rand demo_server_auth) = Inr out" using derive by blast
  show ?thesis
    unfolding authenticateWithAuthServer_def
    by (simp add: andThen_def done_with_def dl world demo_negotiate demo_profile_def randomBytes_def env
      cpu_write_def script_conn_write error_result_def req demo_exchange demo_tickets split
      demo_wires(5) sealAuthenticator_def seal cpu_read_def read eight demo_wires(6) out Let_def
      del: One_nat_def)
qed

theorem session_is_authenticated_witness:
  "\<exists>keys tick sa wire. fst (authenticateWithAuthServer demo_env demo_profile ''pw'' demo_world) =
      Some (Inr keys) \<and>
    authenticator_UnmarshalBinary demo_cipher wire (Some tick) = Inr sa \<and>
    a_Chal sa = replicate 8 (CHR ''r'') \<and> sk_TicketKey keys = t_Key tick"
proof -
  obtain keys w' where run:
    "authenticateWithAuthServer demo_env demo_profile ''pw'' demo_world = (Some (Inr keys), w')"
    using demo_run by blast
  have env: "aead demo_env = demo_cipher"
    "fst (rand_Read demo_env ChalLen g) = Inr (replicate 8 (CHR ''r''))" for g
    by (simp_all add: demo_env_def ChalLen_def)
  from session_is_authenticated [OF run] run show ?thesis by (auto simp: env)
qed

text \<open>
  Property C38: a short answer to the key exchange ends the program. When the auth server
  answers with a variable-length reply of fewer bytes than one key share, the client does not
  return an error: it slices the reply beyond its length, which is a run-time panic.
\<close>

theorem short_variable_reply_panics:
  assumes "length serverY = PAKYLen" and "rand_Int N fieldP (rng w) = (Inr x, g)"
    and "auth_react N = script_peer"
    and "authConn w = script_conn [] [[], [], AuthOKvar # lenBuf @ body]"
    and "length lenBuf = 5" and "parse_digits 0 lenBuf = Inr (length body)"
    and "length body < PAKYLen"
  shows "fst (requestPAKExchange N tr serverY key w) = Some (Inl (Panic ''slice bounds out of range''))"
proof -
  obtain pak y where pak: "NewPAK (rand_Int N) key True (rng w) = (Some (Inr (pak, y)), g)"
  proof -
    obtain v where "spake2ee1 x (loadPAKPoint (PakHash key) True) = Some v"
      using decafEncode_total by (auto simp: spake2ee1_def Let_def)
    with assms(2) that show thesis by (simp add: NewPAK_def authpakNew_def)
  qed
  have "AuthOKvar \<noteq> AuthOK" "AuthOKvar \<noteq> AuthErr" by (simp_all add: auth_consts byte_of_inject)
  then show ?thesis
    using assms pak
    by (cases w) (simp add: requestPAKExchange_def andThen_def done_with_def ticketreq_MarshalBinary_def
      auth_write_def script_conn_write error_result_def readAuthServerResponse_def
      auth_read_def script_conn_status script_conn_read script_conn_read_all)
qed

theorem short_variable_reply_panics_witness:
  "fst (requestPAKExchange demo_env demo_tr (replicate PAKYLen (CHR ''y'')) demo_key
     (demo_world\<lparr>authConn := script_conn [] [[], [], AuthOKvar # ''00003'' @ ''abc'']\<rparr>)) =
   Some (Inl (Panic ''slice bounds out of range''))"
proof (rule short_variable_reply_panics [where x = 3 and g = 0 and lenBuf = "''00003''" and body = "''abc''"])
  show "parse_digits 0 ''00003'' = Inr (length ''abc'')" by code_simp
qed (simp_all add: demo_env_def demo_world_def PAKYLen_def PAKSLen_def)

end
