(* ===== verification/Stream_Consumer.thy ===== *)
theory Stream_Consumer
  imports Prelude
begin

text \<open>
  A byte stream delivered to a callback in chunks (\<open>rcpu.Executor\<close>: the executor calls
  back for every chunk and stops at the first error of the callback; after the last chunk
  it returns its own result), and the interface of a consumer whose state depends only on
  the bytes delivered so far. What holds of one chunk then holds of every chunking.
\<close>

fun deliver ::
  "('s \<Rightarrow> bytes \<Rightarrow> go_error option \<times> 's) \<Rightarrow> bytes list \<Rightarrow> go_error option \<Rightarrow> 's \<Rightarrow>
   go_error option \<times> 's" where
  "deliver cb [] fin s = (fin, s)"
| "deliver cb (c # cs) fin s =
     (case cb s c of (Some e, s') \<Rightarrow> (Some e, s') | (None, s') \<Rightarrow> deliver cb cs fin s')"

locale stream_consumer =
  fixes cb :: "'s \<Rightarrow> bytes \<Rightarrow> go_error option \<times> 's"
    and after :: "bytes \<Rightarrow> 's \<Rightarrow> bool"
  assumes step: "after S s \<Longrightarrow> \<exists>s'. cb s c = (None, s') \<and> after (S @ c) s'"
begin

lemma deliver_after_from:
  "after S s \<Longrightarrow> \<exists>s'. deliver cb cs fin s = (fin, s') \<and> after (S @ concat cs) s'"
proof (induction cs arbitrary: S s)
  case (Cons c cs)
  from step [OF Cons.prems] obtain s1 where "cb s c = (None, s1)" "after (S @ c) s1" by blast
  with Cons.IH [of "S @ c" s1] show ?case by auto
qed simp

lemma deliver_after:
  "after [] s \<Longrightarrow> \<exists>s'. deliver cb cs fin s = (fin, s') \<and> after (concat cs) s'"
  using deliver_after_from [of "[]"] by simp

end

end
