(* ===== verification/Remote_Exec.thy ===== *)
theory Remote_Exec
  imports Go_Strings Stream_Consumer
begin

text \<open>
  Package \<open>internal/remoteexec\<close>: the script sent to the remote \<open>rc\<close> shell, its quoting,
  and the streaming parser that separates the command's output from the exit sentinel.
  The executor behind \<open>Runner\<close> is a parameter: for a script it yields the chunks it
  hands to the callback and the error it ends with.
\<close>

definition quote_byte :: byte where "quote_byte = CHR 0x27"
definition newline :: byte where "newline = CHR 0x0A"

definition sentinelPrefix :: bytes where
  "sentinelPrefix = CHR 0x01 # ''agentic9-exit ''"

record exec_result =
  ExitCode :: int
  RemoteStatus :: string

subsection \<open>Quoting and the script\<close>

definition rcQuote :: "string \<Rightarrow> string" where
  "rcQuote s = [quote_byte] @ ReplaceByte s quote_byte [quote_byte, quote_byte] @ [quote_byte]"

definition rcQuoteCommand :: "string list \<Rightarrow> string" where
  "rcQuoteCommand command = Join (map rcQuote command) '' ''"

definition BuildScript :: "string \<Rightarrow> string list \<Rightarrow> string" where
  "BuildScript workspace command =
     ''cd '' @ rcQuote workspace @ '' || exit '' @ [quote_byte] @ ''cd'' @ [quote_byte, newline] @
     rcQuoteCommand command @ [newline] @
     ''status=$status'' @ [newline] @
     ''echo '' @ [quote_byte] @ sentinelPrefix @ [quote_byte] @ ''$status'' @ [newline] @
     ''exit $status'' @ [newline]"

subsection \<open>The streaming parser\<close>

record parser =
  buf :: bytes
  done_flag :: bool
  status :: string

definition new_parser :: parser where
  "new_parser = \<lparr>buf = [], done_flag = False, status = []\<rparr>"

fun overlap_from :: "nat \<Rightarrow> bytes \<Rightarrow> bytes \<Rightarrow> nat" where
  "overlap_from 0 data needle = 0"
| "overlap_from (Suc n) data needle =
     (if drop (length data - Suc n) data = take (Suc n) needle then Suc n
      else overlap_from n data needle)"

definition overlapSuffix :: "bytes \<Rightarrow> bytes \<Rightarrow> nat" where
  "overlapSuffix data needle =
     (let mx = length needle - 1;
          mx = (if mx > length data then length data else mx)
      in overlap_from mx data needle)"

definition Feed :: "parser \<Rightarrow> bytes \<Rightarrow> bytes \<times> bool \<times> string \<times> parser" where
  "Feed p chunk =
     (if done_flag p then ([], True, status p, p)
      else (let data = buf p @ chunk; p = p\<lparr>buf := data\<rparr> in
        (case bytes_Index data sentinelPrefix of
           None \<Rightarrow>
             (let keep = overlapSuffix data sentinelPrefix in
              if length data > keep
              then (take (length data - keep) data, False, [],
                    p\<lparr>buf := drop (length data - keep) data\<rparr>)
              else ([], False, [], p))
         | Some idx \<Rightarrow>
             (let rest = drop (idx + length sentinelPrefix) data in
              (case IndexByte rest newline of
                 Some nl \<Rightarrow>
                   (let st = TrimSpace (take nl rest)
                    in (take idx data, True, st, p\<lparr>done_flag := True, status := st\<rparr>))
               | None \<Rightarrow> ([], False, [], p))))))"

definition SetResult :: "parser \<Rightarrow> string \<Rightarrow> parser" where
  "SetResult p st = p\<lparr>done_flag := True, status := st\<rparr>"

definition parser_Done :: "parser \<Rightarrow> bool" where "parser_Done p = done_flag p"
definition parser_Status :: "parser \<Rightarrow> string" where "parser_Status p = status p"

subsection \<open>Runner.Run\<close>

definition run_callback ::
  "('s \<Rightarrow> bytes \<Rightarrow> go_error option \<times> 's) option \<Rightarrow> parser \<times> 's \<Rightarrow> bytes \<Rightarrow>
   go_error option \<times> (parser \<times> 's)" where
  "run_callback output ps chunk =
     (let (p, s) = ps; (visible, dn, st, p1) = Feed p chunk;
          (e, s1) = (case output of
              Some out \<Rightarrow> if length visible > 0 then out s visible else (None, s)
            | None \<Rightarrow> (None, s))
      in (case e of
            Some err \<Rightarrow> (Some err, (p1, s1))
          | None \<Rightarrow> (None, (if dn then SetResult p1 st else p1, s1))))"

definition Run ::
  "(string \<Rightarrow> bytes list \<times> go_error option) \<Rightarrow> string \<Rightarrow> string list \<Rightarrow>
   ('s \<Rightarrow> bytes \<Rightarrow> go_error option \<times> 's) option \<Rightarrow> 's \<Rightarrow> exec_result result \<times> 's" where
  "Run exec workspace command output s0 =
     (let (chunks, fin) = exec (BuildScript workspace command);
          (err, (p, s)) = deliver (run_callback output) chunks fin (new_parser, s0)
      in (case err of
            Some e \<Rightarrow> (Inl e, s)
          | None \<Rightarrow>
              (if \<not> parser_Done p
               then (Inl (ErrorString ''remote session ended before exit sentinel''), s)
               else if parser_Status p = [] then (Inr \<lparr>ExitCode = 0, RemoteStatus = []\<rparr>, s)
               else (Inr \<lparr>ExitCode = 1, RemoteStatus = parser_Status p\<rparr>, s))))"

subsection \<open>What a command reads back from quoted text\<close>

text \<open>
  The reading rule of \<open>rc\<close>, as the specification of quoting: inside single quotes every
  byte stands for itself, a doubled quote for one quote, and a single quote ends the word.
  \<open>rc_unquote\<close> reads the rest of a quoted word; \<open>rc_words\<close> reads words separated by
  single blanks.
\<close>

fun rc_unquote :: "bytes \<Rightarrow> (string \<times> bytes) option" where
  "rc_unquote [] = None"
| "rc_unquote [c] = (if c = quote_byte then Some ([], []) else None)"
| "rc_unquote (c # d # cs) =
     (if c = quote_byte then
        (if d = quote_byte then map_option (\<lambda>(w, r). (c # w, r)) (rc_unquote cs)
         else Some ([], d # cs))
      else map_option (\<lambda>(w, r). (c # w, r)) (rc_unquote (d # cs)))"

lemma rc_unquote_quoted:
  "(\<And>x r'. r = x # r' \<Longrightarrow> x \<noteq> quote_byte) \<Longrightarrow>
   rc_unquote (ReplaceByte s quote_byte [quote_byte, quote_byte] @ quote_byte # r) = Some (s, r)"
proof (induction s)
  case Nil
  then show ?case by (cases r) auto
next
  case (Cons x s)
  show ?case
  proof (cases "x = quote_byte")
    case True
    with Cons show ?thesis by simp
  next
    case False
    obtain y ys where
      y: "ReplaceByte s quote_byte [quote_byte, quote_byte] @ quote_byte # r = y # ys"
      by (cases "ReplaceByte s quote_byte [quote_byte, quote_byte] @ quote_byte # r") auto
    with Cons have "rc_unquote (y # ys) = Some (s, r)" by simp
    with False y show ?thesis by simp
  qed
qed

text \<open>Words of a command line: each word is quoted, single blanks separate them.\<close>

fun rc_words :: "nat \<Rightarrow> bytes \<Rightarrow> string list option" where
  "rc_words 0 s = None"
| "rc_words (Suc n) s =
     (case s of
        c # s' \<Rightarrow>
          (if c \<noteq> quote_byte then None
           else (case rc_unquote s' of
                   None \<Rightarrow> None
                 | Some (w, []) \<Rightarrow> Some [w]
                 | Some (w, b # r) \<Rightarrow>
                     (if b = CHR '' '' then map_option ((#) w) (rc_words n r) else None)))
      | [] \<Rightarrow> None)"

lemma quote_byte_not_blank: "CHR '' '' \<noteq> quote_byte"
  by (simp add: quote_byte_def)

lemma rc_words_command:
  "command \<noteq> [] \<Longrightarrow> length command \<le> n \<Longrightarrow> rc_words n (rcQuoteCommand command) = Some command"
proof (induction command arbitrary: n)
  case (Cons w ws)
  then obtain m where n: "n = Suc m" by (cases n) auto
  show ?case
  proof (cases ws)
    case Nil
    then show ?thesis
      using rc_unquote_quoted [of "[]" w] by (simp add: n rcQuoteCommand_def rcQuote_def)
  next
    case (Cons v vs)
    have rest: "rcQuoteCommand (w # ws) = quote_byte #
        (ReplaceByte w quote_byte [quote_byte, quote_byte] @ quote_byte # CHR '' '' # rcQuoteCommand ws)"
      by (simp add: rcQuoteCommand_def rcQuote_def Cons)
    have "rc_unquote (ReplaceByte w quote_byte [quote_byte, quote_byte] @
        quote_byte # CHR '' '' # rcQuoteCommand ws) = Some (w, CHR '' '' # rcQuoteCommand ws)"
      by (rule rc_unquote_quoted) (simp add: quote_byte_not_blank)
    moreover have "rc_words m (rcQuoteCommand ws) = Some ws"
      using Cons.IH [of m] Cons.prems n Cons by simp
    ultimately show ?thesis unfolding rest n by simp
  qed
qed simp


subsection \<open>The parser refines a scan of the whole stream\<close>

text \<open>
  The specification: what the concatenated stream says. It is complete once a sentinel is
  followed by a newline; the visible part is everything before the first sentinel.
\<close>

definition scan_exit :: "bytes \<Rightarrow> (bytes \<times> string) option" where
  "scan_exit S =
     (case bytes_Index S sentinelPrefix of
        None \<Rightarrow> None
      | Some i \<Rightarrow>
          (let rest = drop (i + length sentinelPrefix) S in
           map_option (\<lambda>nl. (take i S, TrimSpace (take nl rest))) (IndexByte rest newline)))"

lemma sentinel_length [simp]: "length sentinelPrefix = 15"
  by (simp add: sentinelPrefix_def)

lemma sentinel_not_Nil [simp]: "sentinelPrefix \<noteq> []"
  by (simp add: sentinelPrefix_def)

lemma scan_exit_append:
  assumes "scan_exit S = Some x"
  shows "scan_exit (S @ T) = Some x"
proof -
  from assms obtain i nl where i: "bytes_Index S sentinelPrefix = Some i"
    and nl: "IndexByte (drop (i + 15) S) newline = Some nl"
    and x: "x = (take i S, TrimSpace (take nl (drop (i + 15) S)))"
    by (auto simp: scan_exit_def Let_def split: option.splits)
  have bound: "i + 15 \<le> length S" using bytes_Index_bound [OF i] by simp
  moreover have "nl < length S - (i + 15)" using nl by (simp add: IndexByte_Some)
  moreover have "IndexByte (drop (i + 15) (S @ T)) newline = Some nl"
    using bound nl by (simp add: IndexByte_append)
  ultimately show ?thesis
    using bytes_Index_append [OF i, of T] x by (simp add: scan_exit_def)
qed

lemma overlap_from_spec:
  assumes "m \<le> length data"
  shows "overlap_from m data needle \<le> m \<and>
    drop (length data - overlap_from m data needle) data = take (overlap_from m data needle) needle \<and>
    (\<forall>n. overlap_from m data needle < n \<and> n \<le> m \<longrightarrow> drop (length data - n) data \<noteq> take n needle)"
  using assms
proof (induction m)
  case (Suc m)
  then show ?case by (auto simp: le_Suc_eq)
qed auto

lemma overlapSuffix_le: "overlapSuffix data needle \<le> length data"
  and overlapSuffix_less: "needle \<noteq> [] \<Longrightarrow> overlapSuffix data needle < length needle"
  and overlapSuffix_eq:
    "drop (length data - overlapSuffix data needle) data = take (overlapSuffix data needle) needle"
  and overlapSuffix_max:
    "overlapSuffix data needle < n \<Longrightarrow> n \<le> length data \<Longrightarrow> n < length needle \<Longrightarrow>
     drop (length data - n) data \<noteq> take n needle"
  using overlap_from_spec [of "min (length needle - 1) (length data)" data needle]
  by (auto simp: overlapSuffix_def min_def Let_def split: if_splits)
    (metis Suc_pred diff_Suc_less leD le_less_trans length_greater_0_conv less_Suc_eq_le)+

text \<open>
  No occurrence of the sentinel starts in bytes that have been shown, whatever follows.
\<close>

definition settled :: "bytes \<Rightarrow> bytes \<Rightarrow> bool" where
  "settled E data \<longleftrightarrow> (\<forall>j < length E. \<forall>t. \<not> HasPrefix (drop j E @ data @ t) sentinelPrefix)"

lemma settled_Nil [simp]: "settled [] data"
  by (simp add: settled_def)

lemma settled_extend: "settled E data \<Longrightarrow> settled E (data @ t)"
  by (simp add: settled_def)

lemma settled_Index:
  assumes "settled E data"
  shows "bytes_Index (E @ data) sentinelPrefix =
    map_option (\<lambda>i. length E + i) (bytes_Index data sentinelPrefix)"
  using assms
proof (induction E)
  case Nil
  then show ?case by (simp add: option.map_ident)
next
  case (Cons x E)
  have "\<not> HasPrefix ((x # E) @ data) sentinelPrefix"
    using Cons.prems unfolding settled_def by (metis append_Nil2 drop0 length_greater_0_conv list.discI)
  moreover have "settled E data"
    using Cons.prems unfolding settled_def by (metis Suc_less_eq drop_Suc_Cons length_Cons)
  ultimately show ?case using Cons.IH by (simp add: option.map_comp o_def)
qed

lemma no_sentinel_before_overlap:
  assumes none: "bytes_Index data sentinelPrefix = None"
    and i: "i < length data - overlapSuffix data sentinelPrefix"
  shows "\<not> HasPrefix (drop i data @ t) sentinelPrefix"
proof
  assume pre: "HasPrefix (drop i data @ t) sentinelPrefix"
  let ?n = "length data - i"
  show False
  proof (cases "15 \<le> ?n")
    case True
    with pre have "HasPrefix (drop i data) sentinelPrefix" by (simp add: HasPrefix_def)
    with none i show False by (auto simp: bytes_Index_None)
  next
    case False
    have "take ?n sentinelPrefix = take ?n (take 15 (drop i data @ t))"
      using pre by (simp add: HasPrefix_def)
    also have "\<dots> = drop i data" using False by simp
    finally have "drop i data = take ?n sentinelPrefix" by simp
    moreover have "i = length data - ?n" "overlapSuffix data sentinelPrefix < ?n" using i by linarith+
    ultimately show False
      using overlapSuffix_max [of data sentinelPrefix ?n] False by auto
  qed
qed


fun feed_all :: "parser \<Rightarrow> bytes list \<Rightarrow> bytes \<times> parser" where
  "feed_all p [] = ([], p)"
| "feed_all p (c # cs) =
     (let (v, dn, st, p1) = Feed p c; (vs, p2) = feed_all p1 cs in (v @ vs, p2))"

text \<open>What the parser knows after the stream \<open>S\<close>, of which it has shown \<open>E\<close>.\<close>

definition parser_inv :: "bytes \<Rightarrow> bytes \<Rightarrow> parser \<Rightarrow> bool" where
  "parser_inv S E p =
     (if done_flag p then scan_exit S = Some (E, status p)
      else status p = [] \<and> E @ buf p = S \<and> settled E (buf p) \<and> scan_exit S = None \<and>
        (bytes_Index S sentinelPrefix = None \<longrightarrow> length (buf p) < 15))"

lemma parser_inv_new: "parser_inv [] [] new_parser"
  by (simp add: parser_inv_def new_parser_def scan_exit_def)

lemma settled_show:
  assumes "settled E data" and "bytes_Index data sentinelPrefix = None"
    and k: "k = length data - overlapSuffix data sentinelPrefix"
  shows "settled (E @ take k data) (drop k data)"
  unfolding settled_def
proof (intro allI impI)
  fix j t
  assume j: "j < length (E @ take k data)"
  show "\<not> HasPrefix (drop j (E @ take k data) @ drop k data @ t) sentinelPrefix"
  proof (cases "j < length E")
    case True
    have "take k data @ drop k data @ t = data @ t" by (metis append_assoc append_take_drop_id)
    with True have eq: "drop j (E @ take k data) @ drop k data @ t = drop j E @ data @ t"
      by simp
    show ?thesis unfolding eq using assms(1) True by (simp add: settled_def)
  next
    case False
    then obtain i where i: "j = length E + i" using le_Suc_ex not_less by blast
    with j k have "i < k" by simp
    then have "drop i (take k data @ drop k data) = drop i (take k data) @ drop k data"
      using k by (subst drop_append) simp
    then have "drop i data = drop i (take k data) @ drop k data" by simp
    moreover have "\<not> HasPrefix (drop i data @ t) sentinelPrefix"
      using assms(2) \<open>i < k\<close> k by (intro no_sentinel_before_overlap) simp_all
    ultimately show ?thesis by (simp add: i)
  qed
qed

lemma Feed_inv:
  assumes inv: "parser_inv S E p" and feed: "Feed p c = (v, dn, st, p')"
  shows "parser_inv (S @ c) (E @ v) p' \<and> dn = done_flag p' \<and> st = status p'"
proof (cases "done_flag p")
  case True
  with assms show ?thesis by (auto simp: Feed_def parser_inv_def scan_exit_append)
next
  case False
  define data where "data = buf p @ c"
  from inv False have st0: "status p = []" and S: "S = E @ buf p" and set: "settled E (buf p)"
    by (auto simp: parser_inv_def)
  have set': "settled E data" unfolding data_def using set by (rule settled_extend)
  have S': "S @ c = E @ data" by (simp add: S data_def)
  have idx: "bytes_Index (S @ c) sentinelPrefix =
      map_option (\<lambda>i. length E + i) (bytes_Index data sentinelPrefix)"
    using settled_Index [OF set'] by (simp add: S data_def)
  show ?thesis
  proof (cases "bytes_Index data sentinelPrefix")
    case None
    let ?k = "length data - overlapSuffix data sentinelPrefix"
    have less: "overlapSuffix data sentinelPrefix < 15"
      using overlapSuffix_less [of sentinelPrefix data] by simp
    have scan: "scan_exit (S @ c) = None" using None idx by (simp add: scan_exit_def)
    have p': "v = take ?k data" "p' = p\<lparr>buf := drop ?k data\<rparr>" "dn = False" "st = []"
      using feed None False overlapSuffix_le [of data sentinelPrefix]
      by (auto simp: Feed_def Let_def data_def [symmetric] split: if_splits)
    have "settled (E @ v) (buf p')"
      unfolding p' using settled_show [OF set' None refl] by simp
    moreover have "length (buf p') < 15"
      using less overlapSuffix_le [of data sentinelPrefix] by (simp add: p')
    ultimately show ?thesis
      using scan False st0 by (simp add: parser_inv_def p' S')
  next
    case (Some i)
    have bound: "i + 15 \<le> length data" using bytes_Index_bound [OF Some] by simp
    have rest: "drop (length E + i + 15) (S @ c) = drop (i + 15) data"
      by (simp add: S' add.assoc)
    have tk: "take (length E + i) (S @ c) = E @ take i data" by (simp add: S')
    have scan: "scan_exit (S @ c) = map_option
        (\<lambda>nl. (E @ take i data, TrimSpace (take nl (drop (i + 15) data))))
        (IndexByte (drop (i + 15) data) newline)"
      unfolding scan_exit_def idx Some by (simp only: option.map option.case Let_def sentinel_length rest tk)
    show ?thesis
    proof (cases "IndexByte (drop (i + 15) data) newline")
      case None
      with feed Some False have "v = []" "dn = False" "st = []" "p' = p\<lparr>buf := data\<rparr>"
        by (auto simp: Feed_def Let_def data_def [symmetric])
      with scan None set' st0 False idx Some show ?thesis by (simp add: parser_inv_def S')
    next
      case (Some nl)
      with feed \<open>bytes_Index data sentinelPrefix = Some i\<close> False scan show ?thesis
        by (auto simp: Feed_def Let_def parser_inv_def data_def [symmetric])
    qed
  qed
qed

lemma feed_all_inv:
  "parser_inv S E p \<Longrightarrow> feed_all p cs = (vs, p') \<Longrightarrow> parser_inv (S @ concat cs) (E @ vs) p'"
proof (induction cs arbitrary: S E p vs p')
  case (Cons c cs)
  obtain v dn st p1 where f: "Feed p c = (v, dn, st, p1)" by (metis prod_cases4)
  obtain ws p2 where r: "feed_all p1 cs = (ws, p2)" by (metis surj_pair)
  have "parser_inv (S @ c) (E @ v) p1" using Feed_inv [OF Cons.prems(1) f] by simp
  from Cons.IH [OF this r] Cons.prems(2) f r show ?case by simp
qed simp


lemma SetResult_status [simp]: "done_flag p \<Longrightarrow> SetResult p (status p) = p"
  by (simp add: SetResult_def)

text \<open>The sink that collects what it is shown.\<close>

definition collect :: "bytes \<Rightarrow> bytes \<Rightarrow> go_error option \<times> bytes" where
  "collect acc v = (None, acc @ v)"

definition showing :: "(bytes \<Rightarrow> 's \<Rightarrow> bool) \<Rightarrow> bytes \<Rightarrow> parser \<times> 's \<Rightarrow> bool" where
  "showing shown S ps \<longleftrightarrow> (\<exists>E. parser_inv S E (fst ps) \<and> shown E (snd ps))"

lemma run_callback_step:
  assumes "showing shown S ps"
    and sink: "\<And>E s v. shown E s \<Longrightarrow> v \<noteq> [] \<Longrightarrow> \<exists>s'. out s v = (None, s') \<and> shown (E @ v) s'"
  shows "\<exists>ps'. run_callback (Some out) ps c = (None, ps') \<and> showing shown (S @ c) ps'"
proof -
  obtain p s E where ps: "ps = (p, s)" and inv: "parser_inv S E p" and sh: "shown E s"
    using assms(1) by (cases ps) (auto simp: showing_def)
  obtain v dn st p1 where f: "Feed p c = (v, dn, st, p1)" by (metis prod_cases4)
  have inv1: "parser_inv (S @ c) (E @ v) p1" and dn: "dn = done_flag p1" "st = status p1"
    using Feed_inv [OF inv f] by simp_all
  have p1: "(if dn then SetResult p1 st else p1) = p1" using dn by simp
  show ?thesis
  proof (cases "v = []")
    case True
    with inv1 sh f p1 show ?thesis by (auto simp: run_callback_def ps showing_def)
  next
    case False
    from sink [OF sh this] obtain s' where "out s v = (None, s')" "shown (E @ v) s'" by blast
    with False inv1 f p1 show ?thesis by (auto simp: run_callback_def ps showing_def)
  qed
qed

interpretation collected:
  stream_consumer "run_callback (Some collect)" "showing (=)"
  by unfold_locales (rule run_callback_step, auto simp: collect_def)

lemma showing_start: "shown [] s \<Longrightarrow> showing shown [] (new_parser, s)"
  using parser_inv_new by (auto simp: showing_def)

subsection \<open>Properties\<close>

text \<open>
  Property C11: the parser does not depend on how the stream is cut into chunks. For every
  sequence of chunks, it is done exactly if the concatenated stream holds a sentinel and,
  after it, a newline; then it has shown exactly the bytes before the first sentinel and
  its status is the trimmed text between sentinel and newline. Otherwise nothing is lost:
  what it has shown followed by its buffer is the stream, and as long as no sentinel has
  appeared it withholds fewer bytes than the sentinel has.
\<close>

theorem parser_refines_scan:
  "case feed_all new_parser chunks of (V, p) \<Rightarrow>
    (case scan_exit (concat chunks) of
       Some (v, st) \<Rightarrow> parser_Done p \<and> V = v \<and> parser_Status p = st
     | None \<Rightarrow> \<not> parser_Done p \<and> V @ buf p = concat chunks \<and>
         (Contains (concat chunks) sentinelPrefix \<or> length (buf p) < length sentinelPrefix))"
proof -
  obtain V p where f: "feed_all new_parser chunks = (V, p)" by (metis surj_pair)
  from feed_all_inv [OF parser_inv_new f] have "parser_inv (concat chunks) V p" by simp
  then show ?thesis
    by (auto simp: f parser_inv_def parser_Done_def parser_Status_def Contains_def
        split: if_splits option.splits)
qed

text \<open>
  The runner (\<open>Run\<close>) end to end. Whatever chunks the executor delivers, the result
  and the output depend only on the bytes of the stream: success with the exit code and
  status after the sentinel and exactly the bytes before it shown, an error when the
  stream ends before the sentinel is complete, and the executor's own error otherwise.
\<close>

lemma run_result:
  assumes "exec (BuildScript workspace command) = (chunks, fin)"
  shows "case Run exec workspace command (Some collect) [] of (res, shown) \<Rightarrow>
    (case fin of
       Some e \<Rightarrow> res = Inl e
     | None \<Rightarrow>
         (case scan_exit (concat chunks) of
            None \<Rightarrow> res = Inl (ErrorString ''remote session ended before exit sentinel'')
          | Some (v, st) \<Rightarrow> shown = v \<and>
              res = Inr \<lparr>ExitCode = (if st = [] then 0 else 1), RemoteStatus = st\<rparr>))"
proof -
  obtain p V where d: "deliver (run_callback (Some collect)) chunks fin (new_parser, []) = (fin, (p, V))"
    and "parser_inv (concat chunks) V p"
    using collected.deliver_after [OF showing_start, of "[]" chunks fin] by (auto simp: showing_def)
  then show ?thesis
    using assms
    by (auto simp: Run_def parser_inv_def parser_Done_def parser_Status_def
        split: option.splits if_splits)
qed

definition example_exec :: "string \<Rightarrow> bytes list \<times> go_error option" where
  "example_exec script = ([''hi'' @ take 4 sentinelPrefix, drop 4 sentinelPrefix @ '' x'', [newline]], None)"

lemma run_result_witness:
  "Run example_exec ''/ws'' [''ls''] (Some collect) [] =
     (Inr \<lparr>ExitCode = 1, RemoteStatus = ''x''\<rparr>, ''hi'')"
proof -
  have e: "example_exec (BuildScript ''/ws'' [''ls'']) =
      ([''hi'' @ take 4 sentinelPrefix, drop 4 sentinelPrefix @ '' x'', [newline]], None)"
    by (simp add: example_exec_def)
  have "TrimSpace '' x'' = ''x''" by (simp add: TrimSpace_eval)
  then have "scan_exit (concat [''hi'' @ take 4 sentinelPrefix, drop 4 sentinelPrefix @ '' x'',
      [newline]]) = Some (''hi'', ''x'')"
    by (simp add: scan_exit_def sentinelPrefix_def newline_def HasPrefix_def)
  with run_result [where exec = example_exec, OF e] show ?thesis by (auto split: prod.splits)
qed

text \<open>
  Property C27: quoting is transparent to the remote shell. Read by the quoting rule of
  \<open>rc\<close>, the quoted command line splits into exactly the given arguments, so no argument
  can end its word, start another command or be expanded.
\<close>

theorem quoted_command_is_literal:
  assumes "command \<noteq> []"
  shows "rc_words (length command) (rcQuoteCommand command) = Some command"
  using assms by (simp add: rc_words_command)

theorem quoted_command_is_literal_witness:
  "rc_words 2 (rcQuoteCommand [''echo'', CHR 0x27 # ''; rm -rf /'']) =
     Some [''echo'', CHR 0x27 # ''; rm -rf /'']"
  using quoted_command_is_literal [of "[''echo'', CHR 0x27 # ''; rm -rf /'']"] by (simp add: numeral_2_eq_2)

end
