(* ===== verification/Tls_Rcpu.thy ===== *)
theory Tls_Rcpu
  imports Dp9ik_Auth Remote_Exec
begin

text \<open>
  The rcpu client of \<open>internal/transport/tlsrcpu/client.go\<close>: dialling, authentication, the
  TLS layer keyed with the session secret, and the operations on top of it. Dialling and the
  TLS library are parameters; so is what the reads of the encrypted connection yield. The raw
  connection is the cpu connection of the authentication state.
\<close>

definition rcpuPort :: string where "rcpuPort = ''17019''"

record rcpu_client =
  rc_profile :: profile
  rc_secret :: secret

definition tls_NewClient :: "profile \<Rightarrow> secret \<Rightarrow> rcpu_client" where
  "tls_NewClient prof sec = \<lparr>rc_profile = prof, rc_secret = sec\<rparr>"

text \<open>What the program passes to the TLS library.\<close>

datatype cipher_suite =
    TLS_PSK_WITH_CHACHA20_POLY1305
  | TLS_PSK_WITH_AES_128_CBC_SHA256
  | TLS_PSK_WITH_AES_128_CBC_SHA
  | TLS_ECDHE_PSK_WITH_CHACHA20_POLY1305_SHA256
  | TLS_ECDHE_PSK_WITH_AES_128_CBC_SHA256
  | TLS_ECDHE_PSK_WITH_AES_256_CBC_SHA384
  | TLS_ECDHE_PSK_WITH_AES_128_CBC_SHA
  | TLS_ECDHE_PSK_WITH_AES_256_CBC_SHA

record tls_config =
  InsecureSkipVerify :: bool
  MinVersion :: nat
  MaxVersion :: nat
  CipherSuites :: "cipher_suite list"
  GetIdentity :: string
  GetKey :: "string \<Rightarrow> bytes result"

definition VersionTLS12 :: nat where "VersionTLS12 = 0x303"

definition psk_GetKey :: "bytes \<Rightarrow> string \<Rightarrow> bytes result" where
  "psk_GetKey sessionSecret identity =
     (if identity \<noteq> [] \<and> identity \<noteq> ''p9secret''
      then Inl (ErrorString (''unexpected psk identity '' @ Quote identity))
      else Inr sessionSecret)"

definition psk_config :: "bytes \<Rightarrow> tls_config" where
  "psk_config sessionSecret = \<lparr>InsecureSkipVerify = True, MinVersion = VersionTLS12,
     MaxVersion = VersionTLS12,
     CipherSuites = [TLS_PSK_WITH_CHACHA20_POLY1305, TLS_PSK_WITH_AES_128_CBC_SHA256,
       TLS_PSK_WITH_AES_128_CBC_SHA, TLS_ECDHE_PSK_WITH_CHACHA20_POLY1305_SHA256,
       TLS_ECDHE_PSK_WITH_AES_128_CBC_SHA256, TLS_ECDHE_PSK_WITH_AES_256_CBC_SHA384,
       TLS_ECDHE_PSK_WITH_AES_128_CBC_SHA, TLS_ECDHE_PSK_WITH_AES_256_CBC_SHA],
     GetIdentity = ''p9secret'', GetKey = psk_GetKey sessionSecret\<rparr>"

record ('p, 'q, 'r, 't) rcpu_env =
  auth_env :: "('p, 'q, 'r) env"
  dialTCP :: "string \<Rightarrow> 'p conn result"
  dialAuth :: "string \<Rightarrow> 'q conn result"
  HandshakeContext :: "tls_config \<Rightarrow> 'p conn \<Rightarrow> 't conn result \<times> 'p conn"
  tls_react :: "'t peer_fn"
  CloseWrite :: "'t conn \<Rightarrow> 't conn"
  tls_Reads :: "'t conn \<Rightarrow> (bytes \<times> go_error option) list"
  ctx_Err :: "go_error option"

record ('p, 'q, 'r, 't) rcpu_world =
  auth_state :: "('p, 'q, 'r) auth_world"
  dialed :: bool
  tls :: "'t conn option"

definition close_raw :: "('p, 'q, 'r, 't) rcpu_world \<Rightarrow> ('p, 'q, 'r, 't) rcpu_world" where
  "close_raw w = w\<lparr>auth_state := (auth_state w)\<lparr>cpuConn := conn_close (cpuConn (auth_state w))\<rparr>\<rparr>"

text \<open>Closing the TLS connection closes the raw connection below it.\<close>

definition close_tls :: "('p, 'q, 'r, 't) rcpu_world \<Rightarrow> ('p, 'q, 'r, 't) rcpu_world" where
  "close_tls w = (close_raw w)\<lparr>tls := map_option conn_close (tls w)\<rparr>"

definition validateSecret :: "rcpu_client \<Rightarrow> unit result" where
  "validateSecret c =
     (if TrimSpace (secret_Value (rc_secret c)) = []
      then Inl (ErrorString (''secret from '' @ secret_Source (rc_secret c) @ '' is empty''))
      else Inr ())"

definition tls_serviceAddress :: "string \<Rightarrow> string \<Rightarrow> string" where
  "tls_serviceAddress host port =
     (case SplitHostPort host of Inr _ \<Rightarrow> host | Inl _ \<Rightarrow> JoinHostPort host port)"

definition tls_rcQuote :: "string \<Rightarrow> string" where
  "tls_rcQuote s = [quote_byte] @ ReplaceByte s quote_byte [quote_byte, quote_byte] @ [quote_byte]"

text \<open>
  On success the connection is the \<open>tls\<close> of the new state. A panic inside the
  authentication leaves the raw connection open: nothing closes it on that path.
\<close>

definition connectTLS ::
  "('p, 'q, 'r, 't) rcpu_env \<Rightarrow> rcpu_client \<Rightarrow> (('p, 'q, 'r, 't) rcpu_world, unit) run" where
  "connectTLS E c w =
     (case dialTCP E (tls_serviceAddress (CPUHost (rc_profile c)) rcpuPort) of
        Inl e \<Rightarrow> (Some (Inl e), w)
      | Inr rawConn \<Rightarrow>
          (let (r, a) = Authenticate (auth_env E) (dialAuth E) (rc_profile c)
                 (secret_Value (rc_secret c)) ((auth_state w)\<lparr>cpuConn := rawConn\<rparr>);
               w = w\<lparr>auth_state := a, dialed := True\<rparr>
           in (case r of
                 None \<Rightarrow> (None, w)
               | Some (Inl e) \<Rightarrow> (Some (Inl e), if is_panic e then w else close_raw w)
               | Some (Inr session) \<Rightarrow>
                   (case HandshakeContext E (psk_config (sk_SessionSecret session)) (cpuConn a) of
                      (Inl e, raw) \<Rightarrow>
                        (Some (Inl e), close_raw (w\<lparr>auth_state := a\<lparr>cpuConn := raw\<rparr>\<rparr>))
                    | (Inr tlsConn, raw) \<Rightarrow>
                        (Some (Inr ()), w\<lparr>auth_state := a\<lparr>cpuConn := raw\<rparr>, tls := Some tlsConn\<rparr>)))))"

definition script_frame :: "string \<Rightarrow> bytes" where
  "script_frame script = pad_left 7 (string_of_nat (length script)) @ [newline] @ script"

definition sendRemoteScript :: "'t peer_fn \<Rightarrow> string \<Rightarrow> 't conn \<Rightarrow> unit result \<times> 't conn" where
  "sendRemoteScript react script c =
     (let (e, c) = conn_write react (script_frame script) c in (error_result e, c))"

text \<open>
  \<open>streamUntilEOF\<close> over what the successive reads yield. It returns the outcome, the state
  of the callback and whether it closed the connection; \<open>None\<close> is a read that never ends.
\<close>

fun streamUntilEOF ::
  "go_error option \<Rightarrow> ('s \<Rightarrow> bytes \<Rightarrow> go_error option \<times> 's) option \<Rightarrow> (bytes \<times> go_error option) list \<Rightarrow>
   's \<Rightarrow> go_error option option \<times> 's \<times> bool" where
  "streamUntilEOF ctx out [] s = (None, s, False)"
| "streamUntilEOF ctx out ((chunk, err) # reads) s =
     (let (cbErr, s) = (case out of
            Some f \<Rightarrow> if length chunk > 0 then f s chunk else (None, s)
          | None \<Rightarrow> (None, s))
      in (case cbErr of
            Some e \<Rightarrow> (Some (Some e), s, True)
          | None \<Rightarrow>
              (case err of
                 None \<Rightarrow> streamUntilEOF ctx out reads s
               | Some e \<Rightarrow>
                   (if errors_Is e IoEOF then (Some None, s, False)
                    else (case ctx of
                            Some ce \<Rightarrow> (Some (Some ce), s, False)
                          | None \<Rightarrow> (Some (Some e), s, False))))))"

definition Verify ::
  "('p, 'q, 'r, 't) rcpu_env \<Rightarrow> rcpu_client \<Rightarrow> (('p, 'q, 'r, 't) rcpu_world, unit) run" where
  "Verify E c =
     andThen (done_with (validateSecret c)) (\<lambda>_.
     andThen (connectTLS E c) (\<lambda>_ w. (Some (Inr ()), close_tls w)))"

definition tls_Exec ::
  "('p, 'q, 'r, 't) rcpu_env \<Rightarrow> rcpu_client \<Rightarrow> string \<Rightarrow>
   ('s \<Rightarrow> bytes \<Rightarrow> go_error option \<times> 's) option \<Rightarrow> 's \<Rightarrow>
   ('p, 'q, 'r, 't) rcpu_world \<Rightarrow> go_error option option \<times> 's \<times> ('p, 'q, 'r, 't) rcpu_world" where
  "tls_Exec E c script out s w =
     (case andThen (done_with (validateSecret c)) (\<lambda>_. connectTLS E c) w of
        (None, w) \<Rightarrow> (None, s, w)
      | (Some (Inl e), w) \<Rightarrow> (Some (Some e), s, w)
      | (Some (Inr _), w) \<Rightarrow>
          (let (r, tc) = sendRemoteScript (tls_react E) script (the (tls w)) in
           (case r of
              Inl e \<Rightarrow> (Some (Some e), s, close_tls (w\<lparr>tls := Some tc\<rparr>))
            | Inr _ \<Rightarrow>
                (let tc = CloseWrite E tc;
                     (res, s, _) = streamUntilEOF (ctx_Err E) out (tls_Reads E tc) s
                 in (case res of
                       None \<Rightarrow> (None, s, w\<lparr>tls := Some tc\<rparr>)
                     | Some e \<Rightarrow> (Some e, s, close_tls (w\<lparr>tls := Some tc\<rparr>)))))))"

text \<open>The callback of these two operations is nil.\<close>

definition no_output :: "(unit \<Rightarrow> bytes \<Rightarrow> go_error option \<times> unit) option" where
  "no_output = None"

definition EnsureRemoteDir ::
  "('p, 'q, 'r, 't) rcpu_env \<Rightarrow> rcpu_client \<Rightarrow> string \<Rightarrow>
   ('p, 'q, 'r, 't) rcpu_world \<Rightarrow> go_error option option \<times> unit \<times> ('p, 'q, 'r, 't) rcpu_world" where
  "EnsureRemoteDir E c remoteRoot w =
     tls_Exec E c (''mkdir -p '' @ tls_rcQuote remoteRoot @ [newline]) no_output () w"

definition RemoveRemoteTree ::
  "('p, 'q, 'r, 't) rcpu_env \<Rightarrow> rcpu_client \<Rightarrow> string \<Rightarrow>
   ('p, 'q, 'r, 't) rcpu_world \<Rightarrow> go_error option option \<times> unit \<times> ('p, 'q, 'r, 't) rcpu_world" where
  "RemoveRemoteTree E c remoteRoot w =
     tls_Exec E c (''rm -rf '' @ tls_rcQuote remoteRoot @ [newline]) no_output () w"

definition OpenExportFS ::
  "('p, 'q, 'r, 't) rcpu_env \<Rightarrow> rcpu_client \<Rightarrow> string \<Rightarrow> (('p, 'q, 'r, 't) rcpu_world, 't conn) run" where
  "OpenExportFS E c remoteRoot =
     andThen (done_with (validateSecret c)) (\<lambda>_.
     andThen (connectTLS E c) (\<lambda>_ w.
       (let (r, tc) = sendRemoteScript (tls_react E)
              (''exec exportfs -r '' @ tls_rcQuote remoteRoot @ [newline]) (the (tls w))
        in (case r of
              Inl e \<Rightarrow> (Some (Inl e), close_tls (w\<lparr>tls := Some tc\<rparr>))
            | Inr _ \<Rightarrow> (Some (Inr tc), w\<lparr>tls := Some tc\<rparr>)))))"

subsection \<open>The frame of a script\<close>

lemma string_of_nat_nonempty [simp]: "string_of_nat n \<noteq> []"
  by (subst string_of_nat.simps) simp

lemma length_string_of_nat: "length (string_of_nat n) \<le> Suc k \<longleftrightarrow> n < 10 ^ Suc k"
proof (induction k arbitrary: n)
  case 0
  then show ?case by (subst string_of_nat.simps) (simp add: Suc_le_eq)
next
  case (Suc k)
  show ?case
  proof (cases "n < 10")
    case True
    then have "n < 10 ^ Suc (Suc k)" by (rule less_le_trans) simp
    with True show ?thesis by (subst string_of_nat.simps) simp
  next
    case False
    then show ?thesis
      using Suc.IH [of "n div 10"]
      by (subst string_of_nat.simps) (simp add: div_less_iff_less_mult mult.commute)
  qed
qed

lemma digit_not_blank: "c \<in> set (string_of_nat n) \<Longrightarrow> c \<noteq> CHR '' '' \<and> c \<noteq> newline"
  using string_of_nat_digits [of c n] by (auto simp: byte_val_def newline_def)

lemma dropWhile_pad_left:
  "dropWhile (\<lambda>c. c = CHR '' '') (pad_left k (string_of_nat n)) = string_of_nat n"
proof -
  have "hd (string_of_nat n) \<noteq> CHR '' ''" using digit_not_blank [of _ n] hd_in_set by fastforce
  then have "dropWhile (\<lambda>c. c = CHR '' '') (string_of_nat n) = string_of_nat n"
    by (cases "string_of_nat n") auto
  then show ?thesis by (simp add: pad_left_def dropWhile_append)
qed

lemma script_frame_newline: "script_frame s ! 7 = newline \<longleftrightarrow> length s < 10 ^ 7"
proof (cases "length s < 10 ^ 7")
  case True
  then have "length (pad_left 7 (string_of_nat (length s))) = 7"
    using length_string_of_nat [of "length s" 6] by (simp add: pad_left_def)
  with True show ?thesis by (simp add: script_frame_def nth_append)
next
  case False
  then have len: "7 < length (string_of_nat (length s))"
    using length_string_of_nat [of "length s" 6] by simp
  then have "script_frame s ! 7 = string_of_nat (length s) ! 7"
    by (simp add: script_frame_def pad_left_def nth_append)
  with len False show ?thesis using digit_not_blank by (metis nth_mem)
qed

subsection \<open>The stream as an executor\<close>

text \<open>
  What an executor delivers and returns (the view of package \<open>remoteexec\<close>) for a list of
  reads that comes to an end.
\<close>

fun read_chunks ::
  "go_error option \<Rightarrow> (bytes \<times> go_error option) list \<Rightarrow> (bytes list \<times> go_error option) option" where
  "read_chunks ctx [] = None"
| "read_chunks ctx ((chunk, err) # reads) =
     (let cs = (if chunk = [] then [] else [chunk]) in
      (case err of
         None \<Rightarrow> map_option (\<lambda>(chunks, fin). (cs @ chunks, fin)) (read_chunks ctx reads)
       | Some e \<Rightarrow>
           Some (cs, if errors_Is e IoEOF then None else (case ctx of Some ce \<Rightarrow> Some ce | None \<Rightarrow> Some e))))"

lemma streamUntilEOF_deliver:
  assumes "read_chunks ctx reads = Some (chunks, fin)"
  shows "\<exists>cl. streamUntilEOF ctx (Some f) reads s =
    (Some (fst (deliver f chunks fin s)), snd (deliver f chunks fin s), cl)"
  using assms
proof (induction reads arbitrary: s chunks fin)
  case (Cons r reads)
  obtain chunk err where r: "r = (chunk, err)" by (cases r)
  show ?case
  proof (cases err)
    case None
    with Cons.prems r obtain chunks' where chunks: "read_chunks ctx reads = Some (chunks', fin)"
      "chunks = (if chunk = [] then [] else [chunk]) @ chunks'" by auto
    with Cons.IH [OF chunks(1)] None r show ?thesis
      by (cases "f s chunk" ; cases "fst (f s chunk)") auto
  next
    case (Some e)
    with Cons.prems r show ?thesis
      by (cases "f s chunk"; cases "fst (f s chunk)"; cases ctx) auto
  qed
qed simp

subsection \<open>Connections are closed\<close>

lemma close_simps [simp]:
  "closed (cpuConn (auth_state (close_raw w)))" "closed (cpuConn (auth_state (close_tls w)))"
  by (simp_all add: close_raw_def close_tls_def)

lemma connectTLS_error:
  "connectTLS E c w = (Some (Inl e), w') \<Longrightarrow>
   w' = w \<or> closed (cpuConn (auth_state w')) \<or> is_panic e"
  by (auto simp: connectTLS_def Let_def split: sum.splits prod.splits option.splits if_splits)

lemma connectTLS_ok: "connectTLS E c w = (Some (Inr u), w') \<Longrightarrow> \<exists>tc. tls w' = Some tc"
  by (auto simp: connectTLS_def Let_def split: sum.splits prod.splits option.splits if_splits)

lemma exec_delivers:
  assumes "validateSecret c = Inr ()" and "connectTLS E c w = (Some (Inr ()), w1)"
    and "conn_write (tls_react E) (script_frame script) (the (tls w1)) = (None, tc)"
    and "read_chunks (ctx_Err E) (tls_Reads E (CloseWrite E tc)) = Some (chunks, fin)"
  shows "tls_Exec E c script (Some f) s w =
      (Some (fst (deliver f chunks fin s)), snd (deliver f chunks fin s),
       close_tls (w1\<lparr>tls := Some (CloseWrite E tc)\<rparr>))"
  using assms streamUntilEOF_deliver [OF assms(4), of f s]
  by (auto simp: tls_Exec_def andThen_def done_with_def sendRemoteScript_def error_result_def)

subsection \<open>Properties\<close>

text \<open>
  The remote side reads back the script. For scripts shorter than ten million
  bytes the frame is seven columns with the length in decimal, blank-padded on the left, a
  newline, and the script, so a reader that takes seven columns finds the newline where it
  expects it, the exact length, and the script even when other data follows. The bound is
  sharp: for a longer script the eighth byte is a digit and the fixed columns overflow.
\<close>

lemma script_frame_readable:
  "(script_frame s ! 7 = newline \<longleftrightarrow> length s < 10 ^ 7) \<and>
   (length s < 10 ^ 7 \<longrightarrow>
     nat_of_digits 0 (dropWhile (\<lambda>c. c = CHR '' '') (take 7 (script_frame s @ rest))) = length s \<and>
     take (length s) (drop 8 (script_frame s @ rest)) = s)"
proof (intro conjI impI)
  assume "length s < 10 ^ 7"
  then have len: "length (pad_left 7 (string_of_nat (length s))) = 7"
    using length_string_of_nat [of "length s" 6] by (simp add: pad_left_def)
  then show "nat_of_digits 0 (dropWhile (\<lambda>c. c = CHR '' '') (take 7 (script_frame s @ rest))) = length s"
    by (simp add: script_frame_def dropWhile_pad_left nat_of_digits_string_of_nat)
  have "drop 8 (script_frame s @ rest) = s @ rest"
    using len by (simp add: script_frame_def)
  then show "take (length s) (drop 8 (script_frame s @ rest)) = s" by simp
qed (rule script_frame_newline)

lemma script_frame_readable_witness:
  "nat_of_digits 0 (dropWhile (\<lambda>c. c = CHR '' '') (take 7 (script_frame ''ls'' @ ''xyz''))) = length ''ls'' \<and>
   take (length ''ls'') (drop 8 (script_frame ''ls'' @ ''xyz'')) = ''ls''"
  using script_frame_readable [of "''ls''" "''xyz''"] by (simp del: take_append drop_append)


definition demo_rcpu :: "(bytes list, bytes list, nat, bytes list) rcpu_env" where
  "demo_rcpu = \<lparr>auth_env = demo_env, dialTCP = (\<lambda>_. Inr (cpuConn demo_world)),
     dialAuth = (\<lambda>_. Inr (authConn demo_world)),
     HandshakeContext = (\<lambda>cfg raw. (Inr (script_conn [] [[]]), raw)), tls_react = script_peer,
     CloseWrite = (\<lambda>c. c), tls_Reads = (\<lambda>_. [(''hel'', None), ([], None), (''lo'', Some IoEOF)]),
     ctx_Err = None\<rparr>"

definition demo_client :: rcpu_client where
  "demo_client = tls_NewClient demo_profile \<lparr>secret_Value = ''pw'', secret_Source = ''env:S''\<rparr>"

definition demo_net :: "(bytes list, bytes list, nat, bytes list) rcpu_world" where
  "demo_net = \<lparr>auth_state = demo_world, dialed = False, tls = None\<rparr>"

lemma demo_validate: "validateSecret demo_client = Inr ()"
  by code_simp

lemma demo_connect:
  "\<exists>w. connectTLS demo_rcpu demo_client demo_net = (Some (Inr ()), w) \<and> tls w = Some (script_conn [] [[]])"
proof -
  obtain keys w' where run:
    "authenticateWithAuthServer demo_env demo_profile ''pw'' demo_world = (Some (Inr keys), w')"
    using demo_run by blast
  have "demo_world\<lparr>cpuConn := cpuConn demo_world, authConn := authConn demo_world\<rparr> = demo_world"
    by (simp add: demo_world_def)
  with run show ?thesis
    by (simp add: connectTLS_def Authenticate_def DialAuthServer_def demo_rcpu_def demo_client_def
      demo_net_def tls_NewClient_def)
qed

lemma demo_exec:
  "\<exists>w. tls_Exec demo_rcpu demo_client script None () demo_net = (Some None, (), w)"
proof -
  obtain w where "connectTLS demo_rcpu demo_client demo_net = (Some (Inr ()), w)"
    "tls w = Some (script_conn [] [[]])" using demo_connect by blast
  then show ?thesis
    by (simp add: tls_Exec_def andThen_def done_with_def demo_validate sendRemoteScript_def
      error_result_def demo_rcpu_def script_conn_write)
qed


text \<open>
  Executing over rcpu is an executor in the sense of the command runner. Once
  the connection is up and the script is sent, the callback receives exactly the non-empty
  chunks of the reads, in order, until its first error, and the result is the callback's
  error or the end of the stream: none after EOF, else the context's error if it is done,
  else the read error. The session is closed afterwards.
\<close>

lemma exec_is_executor:
  assumes "validateSecret c = Inr ()" and "connectTLS E c w = (Some (Inr ()), w1)"
    and "conn_write (tls_react E) (script_frame script) (the (tls w1)) = (None, tc)"
    and "read_chunks (ctx_Err E) (tls_Reads E (CloseWrite E tc)) = Some (chunks, fin)"
  shows "\<exists>w2. tls_Exec E c script (Some f) s w =
      (Some (fst (deliver f chunks fin s)), snd (deliver f chunks fin s), w2) \<and>
    closed (cpuConn (auth_state w2))"
  by (simp add: exec_delivers [OF assms])

lemma exec_is_executor_witness:
  "\<exists>w2. tls_Exec demo_rcpu demo_client ''ls'' (Some (\<lambda>s chunk. (None, s @ chunk))) [] demo_net =
     (Some None, ''hello'', w2)"
proof -
  obtain w where w: "connectTLS demo_rcpu demo_client demo_net = (Some (Inr ()), w)"
    "tls w = Some (script_conn [] [[]])" using demo_connect by blast
  have "conn_write (tls_react demo_rcpu) (script_frame ''ls'') (the (tls w)) = (None, script_conn [] [])"
    by (simp add: w demo_rcpu_def script_conn_write)
  moreover have "read_chunks (ctx_Err demo_rcpu)
      (tls_Reads demo_rcpu (CloseWrite demo_rcpu (script_conn [] []))) = Some ([''hel'', ''lo''], None)"
    by (simp add: demo_rcpu_def)
  ultimately show ?thesis
    using exec_is_executor [OF demo_validate w(1), of "''ls''" "script_conn [] []" "[''hel'', ''lo'']" None
      "\<lambda>s chunk. (None, s @ chunk)" "[]"] by auto
qed

end
