(* ===== verification/Exec_Output.thy ===== *)
theory Exec_Output
  imports Remote_Exec
begin

text \<open>
  The output side of the \<open>exec\<close> command in \<open>cmd/agentic9/main.go\<close>: the router that
  cuts the remote output into lines, sets benign warnings of the remote shell aside and
  prints the rest, raw or as JSON events. Printing is a parameter with a state of its own
  (standard output), given as a function of the kind of event and the line.
\<close>

record execWarning =
  Kind :: string
  Message :: string
  Benign :: bool

text \<open>What \<open>handleLine\<close> prints: raw bytes, or one JSON output event.\<close>

datatype out_event = RawOut bytes | JsonOut bytes

type_synonym 'w printer = "out_event \<Rightarrow> 'w \<Rightarrow> go_error option \<times> 'w"

record 'w execOutputRouter =
  jsonOut :: bool
  pending :: bytes
  warnings :: "execWarning list"
  stdout :: 'w

definition newExecOutputRouter :: "bool \<Rightarrow> 'w \<Rightarrow> 'w execOutputRouter" where
  "newExecOutputRouter j w = \<lparr>jsonOut = j, pending = [], warnings = [], stdout = w\<rparr>"

definition bind_cons_warning :: string where
  "bind_cons_warning = ''bind: /mnt/term/dev/cons: file does not exist: '' @
     [quote_byte] @ ''/mnt/term/dev'' @ [quote_byte]"

definition bind_dev_warning :: string where
  "bind_dev_warning = ''bind: /mnt/term/dev: file does not exist: '' @
     [quote_byte] @ ''/mnt/term/dev'' @ [quote_byte]"

definition classifyExecWarning :: "bytes \<Rightarrow> execWarning option" where
  "classifyExecWarning line =
     (let message = TrimRight line [CHR 0x0D, CHR 0x0A] in
      if message = bind_cons_warning \<or> message = bind_dev_warning
      then Some \<lparr>Kind = ''benign_remote_bind_warning'', Message = message, Benign = True\<rparr>
      else None)"

definition handleLine ::
  "'w printer \<Rightarrow> bytes \<Rightarrow> 'w execOutputRouter \<Rightarrow> go_error option \<times> 'w execOutputRouter" where
  "handleLine pr line r =
     (case classifyExecWarning line of
        Some w \<Rightarrow> (None, r\<lparr>warnings := warnings r @ [w]\<rparr>)
      | None \<Rightarrow>
          (let (e, s) = pr (if jsonOut r then JsonOut line else RawOut line) (stdout r)
           in (e, r\<lparr>stdout := s\<rparr>)))"

text \<open>
  The loop of \<open>flushLines\<close> over the complete lines of \<open>data[consumed:]\<close>: it returns
  the value of \<open>consumed\<close> at the break, or the first error.
\<close>

function flush_loop ::
  "'w printer \<Rightarrow> bytes \<Rightarrow> nat \<Rightarrow> 'w execOutputRouter \<Rightarrow>
   (go_error + nat) \<times> 'w execOutputRouter" where
  "flush_loop pr data consumed r =
     (case IndexByte (drop consumed data) newline of
        None \<Rightarrow> (Inr consumed, r)
      | Some idx \<Rightarrow>
          (let fin = consumed + idx + 1 in
           (case handleLine pr (take (fin - consumed) (drop consumed data)) r of
              (Some e, r') \<Rightarrow> (Inl e, r')
            | (None, r') \<Rightarrow> flush_loop pr data fin r')))"
  by pat_completeness auto
termination
proof (relation "measure (\<lambda>(pr, data, consumed, r). length data - consumed)", goal_cases)
  case (2 pr data consumed r idx)
  then have "idx < length (drop consumed data)" by (simp add: IndexByte_Some)
  with 2 show ?case by auto
qed simp

declare flush_loop.simps [simp del]

definition flushLines ::
  "'w printer \<Rightarrow> bool \<Rightarrow> 'w execOutputRouter \<Rightarrow> go_error option \<times> 'w execOutputRouter" where
  "flushLines pr flushRemainder r =
     (let data = pending r in
      (case flush_loop pr data 0 r of
         (Inl e, r) \<Rightarrow> (Some e, r)
       | (Inr consumed, r) \<Rightarrow>
           (let (e, consumed, r) =
              (if flushRemainder \<and> consumed < length data
               then (case handleLine pr (drop consumed data) r of
                       (Some e, r) \<Rightarrow> (Some e, consumed, r)
                     | (None, r) \<Rightarrow> (None, length data, r))
               else (None, consumed, r))
            in (case e of
                  Some err \<Rightarrow> (Some err, r)
                | None \<Rightarrow>
                    (if consumed = 0 then (None, r)
                     else (None, r\<lparr>pending := drop consumed data\<rparr>))))))"

definition router_Write ::
  "'w printer \<Rightarrow> 'w execOutputRouter \<Rightarrow> bytes \<Rightarrow> go_error option \<times> 'w execOutputRouter" where
  "router_Write pr r chunk =
     (if length chunk = 0 then (None, r)
      else flushLines pr False (r\<lparr>pending := pending r @ chunk\<rparr>))"

definition router_Flush ::
  "'w printer \<Rightarrow> 'w execOutputRouter \<Rightarrow> go_error option \<times> 'w execOutputRouter" where
  "router_Flush pr r = flushLines pr True r"


subsection \<open>Lines of a stream\<close>

text \<open>The specification: the complete lines of a stream, and the text after the last one.\<close>

fun take_lines :: "bytes \<Rightarrow> bytes list \<times> bytes" where
  "take_lines [] = ([], [])"
| "take_lines (c # cs) =
     (let (ls, r) = take_lines cs in
      if c = newline then ([c] # ls, r)
      else (case ls of [] \<Rightarrow> ([], c # r) | l # ls' \<Rightarrow> ((c # l) # ls', r)))"

lemma take_lines_concat: "concat (fst (take_lines s)) @ snd (take_lines s) = s"
  by (induction s) (auto split: prod.splits list.splits)

lemma take_lines_no_newline: "newline \<notin> set s \<Longrightarrow> take_lines s = ([], s)"
  by (induction s) auto

lemma take_lines_line:
  "newline \<notin> set l \<Longrightarrow> take_lines (l @ newline # s) =
     ((l @ [newline]) # fst (take_lines s), snd (take_lines s))"
  by (induction l) (auto split: prod.splits)

lemma take_lines_rest: "newline \<notin> set (snd (take_lines s))"
  by (induction s) (auto split: prod.splits list.splits)

lemma take_lines_append:
  "take_lines (s @ t) =
     (fst (take_lines s) @ fst (take_lines (snd (take_lines s) @ t)),
      snd (take_lines (snd (take_lines s) @ t)))"
proof (induction s)
  case (Cons c s)
  show ?case
  proof (cases "fst (take_lines s)")
    case Nil
    with Cons show ?thesis by (cases "c = newline") (auto split: prod.splits)
  next
    case (Cons l ls)
    with Cons.IH show ?thesis by (auto split: prod.splits)
  qed
qed simp

definition all_lines :: "bytes \<Rightarrow> bytes list" where
  "all_lines s = fst (take_lines s) @ (if snd (take_lines s) = [] then [] else [snd (take_lines s)])"

lemma concat_all_lines: "concat (all_lines s) = s"
  using take_lines_concat [of s] by (auto simp: all_lines_def)

subsection \<open>The router with a printer that records its events\<close>

definition record_event :: "out_event list printer" where
  "record_event ev w = (None, w @ [ev])"

definition handle_pure :: "out_event list execOutputRouter \<Rightarrow> bytes \<Rightarrow> out_event list execOutputRouter" where
  "handle_pure r line = snd (handleLine record_event line r)"

lemma handleLine_record: "handleLine record_event line r = (None, handle_pure r line)"
  by (simp add: handle_pure_def handleLine_def record_event_def split: option.splits)

lemma handle_pure_pending [simp]:
  "pending (handle_pure r line) = pending r" "jsonOut (handle_pure r line) = jsonOut r"
  by (simp_all add: handle_pure_def handleLine_def record_event_def split: option.splits)

lemma foldl_handle_pending [simp]:
  "pending (foldl handle_pure r ls) = pending r" "jsonOut (foldl handle_pure r ls) = jsonOut r"
  by (induction ls arbitrary: r) simp_all

lemma handle_pure_commute:
  "handle_pure (r\<lparr>pending := x\<rparr>) line = (handle_pure r line)\<lparr>pending := x\<rparr>"
  by (simp add: handle_pure_def handleLine_def record_event_def split: option.splits)

lemma foldl_handle_commute:
  "foldl handle_pure (r\<lparr>pending := x\<rparr>) ls = (foldl handle_pure r ls)\<lparr>pending := x\<rparr>"
  by (induction ls arbitrary: r) (simp_all add: handle_pure_commute)

lemma flush_loop_record:
  "n \<le> length data \<Longrightarrow>
   flush_loop record_event data n r =
     (Inr (length data - length (snd (take_lines (drop n data)))),
      foldl handle_pure r (fst (take_lines (drop n data))))"
proof (induction "record_event :: out_event list printer" data n r rule: flush_loop.induct)
  case (1 data n r)
  show ?case
  proof (cases "IndexByte (drop n data) newline")
    case None
    then have "take_lines (drop n data) = ([], drop n data)"
      by (simp add: IndexByte_None take_lines_no_newline)
    with None "1.prems" show ?thesis by (subst flush_loop.simps) simp
  next
    case (Some i)
    let ?d = "drop n data"
    from Some have i: "i < length ?d" "?d ! i = newline" "newline \<notin> set (take i ?d)"
      by (simp_all add: IndexByte_Some)
    have d: "?d = take i ?d @ newline # drop (n + i + 1) data"
      using i id_take_nth_drop [OF i(1)] by (simp add: add.commute)
    have tl: "take_lines ?d = ((take i ?d @ [newline]) # fst (take_lines (drop (n + i + 1) data)),
        snd (take_lines (drop (n + i + 1) data)))"
      using take_lines_line [OF i(3), of "drop (n + i + 1) data"] d by simp
    have line: "take (i + 1) ?d = take i ?d @ [newline]"
      using i by (simp add: take_Suc_conv_app_nth)
    have "n + i + 1 \<le> length data" using i(1) by simp
    note IH = "1.hyps" [OF Some refl handleLine_record [symmetric] refl this]
    show ?thesis
      using IH line Some
      by (subst flush_loop.simps) (simp add: handleLine_record tl)
  qed
qed


lemma pending_same: "pending x = d \<Longrightarrow> x\<lparr>pending := d\<rparr> = x"
  by simp

lemma flushLines_end:
  assumes "flush_loop record_event (pending r) 0 r = (Inr n, r')" "pending r' = pending r"
    and "n \<le> length (pending r)"
  shows "flushLines record_event False r = (None, r'\<lparr>pending := drop n (pending r)\<rparr>)"
    and "flushLines record_event True r =
      (None, (if drop n (pending r) = [] then r' else handle_pure r' (drop n (pending r)))
         \<lparr>pending := []\<rparr>)"
proof -
  show "flushLines record_event False r = (None, r'\<lparr>pending := drop n (pending r)\<rparr>)"
    using pending_same [OF assms(2)] by (cases "n = 0") (simp_all add: flushLines_def assms(1) Let_def)
  consider "n < length (pending r)" | "n = length (pending r)" using assms(3) by linarith
  then show "flushLines record_event True r =
      (None, (if drop n (pending r) = [] then r' else handle_pure r' (drop n (pending r)))
         \<lparr>pending := []\<rparr>)"
  proof cases
    case 1
    then have "pending r \<noteq> []" by auto
    with 1 show ?thesis by (simp add: flushLines_def assms(1) Let_def handleLine_record)
  next
    case 2
    with pending_same [OF assms(2)] assms(1) show ?thesis
      by (cases "n = 0") (simp_all add: flushLines_def Let_def)
  qed
qed

lemma flushLines_record:
  "flushLines record_event False r =
     (None, (foldl handle_pure r (fst (take_lines (pending r))))
        \<lparr>pending := snd (take_lines (pending r))\<rparr>)"
  "flushLines record_event True r =
     (None, (foldl handle_pure r (all_lines (pending r)))\<lparr>pending := []\<rparr>)"
proof -
  define d where "d = pending r"
  obtain ls rest where tl: "take_lines d = (ls, rest)" by (cases "take_lines d")
  have cat: "d = concat ls @ rest" using take_lines_concat [of d] tl by simp
  then have dr: "drop (length d - length rest) d = rest" by simp
  have fl: "flush_loop record_event (pending r) 0 r =
      (Inr (length d - length rest), foldl handle_pure r ls)"
    by (simp add: flush_loop_record d_def [symmetric] tl)
  note e = flushLines_end [OF fl, unfolded d_def [symmetric] dr]
  show "flushLines record_event False r =
     (None, (foldl handle_pure r (fst (take_lines (pending r))))
        \<lparr>pending := snd (take_lines (pending r))\<rparr>)"
    using e(1) by (simp add: d_def [symmetric] tl)
  show "flushLines record_event True r =
     (None, (foldl handle_pure r (all_lines (pending r)))\<lparr>pending := []\<rparr>)"
    using e(2) by (simp add: d_def [symmetric] all_lines_def tl)
qed

text \<open>
  The router after the stream \<open>S\<close>: all complete lines handled, the rest pending.
\<close>

definition routed :: "out_event list execOutputRouter \<Rightarrow> bytes \<Rightarrow> out_event list execOutputRouter \<Rightarrow> bool" where
  "routed r0 S r \<longleftrightarrow>
     r = (foldl handle_pure r0 (fst (take_lines S)))\<lparr>pending := snd (take_lines S)\<rparr>"

lemma router_Write_step:
  assumes "routed r0 S r"
  shows "\<exists>r'. router_Write record_event r c = (None, r') \<and> routed r0 (S @ c) r'"
proof (cases "c = []")
  case True
  with assms show ?thesis by (simp add: router_Write_def)
next
  case False
  have p: "pending r = snd (take_lines S)" using assms by (simp add: routed_def)
  let ?r = "r\<lparr>pending := pending r @ c\<rparr>"
  have "router_Write record_event r c = (None,
      (foldl handle_pure ?r (fst (take_lines (pending ?r))))\<lparr>pending := snd (take_lines (pending ?r))\<rparr>)"
    using False by (simp add: router_Write_def flushLines_record)
  also have "\<dots> = (None, (foldl handle_pure r (fst (take_lines (snd (take_lines S) @ c))))
      \<lparr>pending := snd (take_lines (snd (take_lines S) @ c))\<rparr>)"
    by (simp add: foldl_handle_commute p)
  finally show ?thesis
    using assms unfolding routed_def
    by (simp add: take_lines_append [of S c] foldl_handle_commute)
qed

interpretation router: stream_consumer "router_Write record_event" "routed r0"
  by unfold_locales (rule router_Write_step)

interpretation routed_run:
  stream_consumer "run_callback (Some (router_Write record_event))" "showing (routed r0)"
  by unfold_locales (rule run_callback_step, auto intro: router_Write_step)

lemma routed_start: "pending r0 = [] \<Longrightarrow> routed r0 [] r0"
  by (simp add: routed_def)

lemma routed_flush:
  assumes "routed r0 S r"
  shows "router_Flush record_event r = (None, (foldl handle_pure r0 (all_lines S))\<lparr>pending := []\<rparr>)"
proof -
  have "take_lines (snd (take_lines S)) = ([], snd (take_lines S))"
    using take_lines_rest by (rule take_lines_no_newline)
  then have "foldl handle_pure r (all_lines (pending r)) =
      (foldl handle_pure r0 (all_lines S))\<lparr>pending := snd (take_lines S)\<rparr>"
    using assms unfolding routed_def by (simp add: all_lines_def foldl_handle_commute)
  then show ?thesis by (simp add: router_Flush_def flushLines_record)
qed

text \<open>What handling a list of lines leaves in the router.\<close>

definition is_warning :: "bytes \<Rightarrow> bool" where
  "is_warning line \<longleftrightarrow> classifyExecWarning line \<noteq> None"

definition line_event :: "bool \<Rightarrow> bytes \<Rightarrow> out_event" where
  "line_event j line = (if j then JsonOut line else RawOut line)"

lemma foldl_handle_stdout:
  "stdout (foldl handle_pure r ls) =
     stdout r @ map (line_event (jsonOut r)) (filter (\<lambda>l. \<not> is_warning l) ls)"
  by (induction ls arbitrary: r)
    (auto simp: handle_pure_def handleLine_def record_event_def is_warning_def line_event_def)

lemma foldl_handle_warnings:
  "warnings (foldl handle_pure r ls) = warnings r @ List.map_filter classifyExecWarning ls"
  by (induction ls arbitrary: r)
    (auto simp: handle_pure_def handleLine_def record_event_def map_filter_simps split: option.splits)

subsection \<open>Properties\<close>

text \<open>
  Property C28: the router is independent of chunking and loses nothing. After any sequence
  of writes and a final flush, it has printed, in order and once each, exactly the lines of
  the whole stream (the last one with or without its newline) that are not benign warnings,
  and has recorded exactly the warnings, with nothing left pending; printed or set aside,
  the lines make up the stream.
\<close>

theorem router_prints_lines:
  "case deliver (router_Write record_event) chunks None (newExecOutputRouter j []) of (e, r) \<Rightarrow>
    e = None \<and>
    (case router_Flush record_event r of (e', r') \<Rightarrow>
       e' = None \<and> pending r' = [] \<and>
       stdout r' = map (line_event j) (filter (\<lambda>l. \<not> is_warning l) (all_lines (concat chunks))) \<and>
       warnings r' = List.map_filter classifyExecWarning (all_lines (concat chunks)) \<and>
       concat (all_lines (concat chunks)) = concat chunks)"
proof -
  let ?r0 = "newExecOutputRouter j [] :: out_event list execOutputRouter" and ?S = "concat chunks"
  have r0: "routed ?r0 [] ?r0" by (intro routed_start) (simp add: newExecOutputRouter_def)
  obtain r where d: "deliver (router_Write record_event) chunks None ?r0 = (None, r)"
    and r: "routed ?r0 ?S r"
    using router.deliver_after [OF r0, of chunks None] by blast
  note f = routed_flush [OF r]
  have "stdout ?r0 = []" "warnings ?r0 = []" "jsonOut ?r0 = j"
    by (simp_all add: newExecOutputRouter_def)
  then show ?thesis
    unfolding d by (simp add: f foldl_handle_stdout foldl_handle_warnings concat_all_lines)
qed

end
