(* ===== verification/Cli_World.thy ===== *)
theory Cli_World
  imports Cli_Flags Cli_Seed Tls_Rcpu Exec_Output
begin

text \<open>
  What the commands of \<open>cmd/agentic9/main.go\<close> work on. The world of a command is the local
  file system, the kernel's mounts, the network, the exportfs connections left behind and
  what was printed; everything else (configuration sources, clock, process calls, the FUSE
  library, the TLS library and the peers) is the environment, which does not change while a
  command runs. A command is a run over the world (\<open>Go_Net\<close>): \<open>None\<close> when it does not
  return, else its error, or the exit code: 0 for \<open>nil\<close>, \<open>n\<close> for \<open>exitCodeError(n)\<close>.
\<close>

subsection \<open>What is printed\<close>

record stepResult =
  step_Status :: string
  step_Error :: string

record workspaceDeleteReport =
  dr_OK :: bool
  dr_AgentID :: string
  dr_RemoteRoot :: string
  dr_MetadataLookup :: stepResult
  dr_Unmount :: stepResult
  dr_RemoteDelete :: stepResult
  dr_Metadata :: stepResult
  dr_Error :: string

text \<open>A field of a printed map; maps and reports are printed as JSON documents.\<close>

datatype jout = JV jvalue | JStrings "string list" | JWarnings "execWarning list"

datatype out_item =
    Text string
  | JsonMap "(string \<times> jout) list"
  | JsonVersion versionReport
  | JsonDelete workspaceDeleteReport
  | JsonStatus workspaceStatusReport
  | OutEvent out_event

subsection \<open>Environment and world\<close>

record ('p, 'q, 'r, 't, 'k, 'h) cli_env =
  ce_proc :: "'k proc_env"
  ce_rcpu :: "('p, 'q, 'r, 't) rcpu_env"
  ce_now :: int
  ce_duration :: int
  ce_pid :: int
  ce_getenv :: "string \<Rightarrow> string"
  ce_tempDir :: string
  ce_decodeFile :: "string \<Rightarrow> config result"
  ce_configDir :: "string result"
  ce_homeDir :: "string result"
  ce_wd :: "string result"
  ce_secret :: "string list \<Rightarrow> bytes result"
  ce_encode :: "content \<Rightarrow> bytes"
  ce_fuel :: nat
  ce_mounts :: "nat \<Rightarrow> content local_fs"
  ce_closes :: "nat \<Rightarrow> go_error option"
  ce_waits :: "nat \<Rightarrow> go_error option"
  ce_stdout :: "out_item \<Rightarrow> go_error option"
  ce_gomount :: "string \<Rightarrow> 'k \<Rightarrow> 'h result \<times> 'k"
  ce_gounmount :: "'h \<Rightarrow> 'k \<Rightarrow> unit result \<times> 'k"
  ce_served :: "'h \<Rightarrow> 'k \<Rightarrow> bool"
  ce_signal :: bool

record ('p, 'q, 'r, 't, 'k) cli_world =
  cw_fs :: "content local_fs"
  cw_kernel :: 'k
  cw_net :: "('p, 'q, 'r, 't) rcpu_world"
  cw_left :: "'t nclient list"
  cw_out :: "out_item list"

type_synonym ('p, 'q, 'r, 't, 'k, 'a) cli = "(('p, 'q, 'r, 't, 'k) cli_world, 'a) run"

definition return :: "'a \<Rightarrow> ('w, 'a) run" where
  "return v = done_with (Inr v)"

definition raise :: "go_error \<Rightarrow> ('w, 'a) run" where
  "raise e = done_with (Inl e)"

text \<open>
  \<open>catching m k\<close> is \<open>v, err := m\<close> followed by \<open>k\<close>, which looks at the result; a panic is not
  caught. \<open>or_rollback m d k\<close> is \<open>if err := m; err != nil { _ = d; return err }; k\<close>.
\<close>

definition catching :: "('w, 'a) run \<Rightarrow> ('a result \<Rightarrow> ('w, 'b) run) \<Rightarrow> ('w, 'b) run" where
  "catching m k w =
     (case m w of
        (None, w) \<Rightarrow> (None, w)
      | (Some (Inl e), w) \<Rightarrow> (if is_panic e then (Some (Inl e), w) else k (Inl e) w)
      | (Some (Inr v), w) \<Rightarrow> k (Inr v) w)"

definition or_rollback :: "('w, 'a) run \<Rightarrow> ('w, unit) run \<Rightarrow> ('a \<Rightarrow> ('w, 'b) run) \<Rightarrow> ('w, 'b) run" where
  "or_rollback m d k =
     catching m (\<lambda>r. case r of Inr v \<Rightarrow> k v | Inl e \<Rightarrow> catching d (\<lambda>_. raise e))"

subsection \<open>Access to the parts of the world\<close>

definition on_local :: "(content local_fs \<Rightarrow> 'a result \<times> content local_fs) \<Rightarrow> ('p, 'q, 'r, 't, 'k, 'a) cli" where
  "on_local f w = (case f (cw_fs w) of (r, s) \<Rightarrow> (Some r, w\<lparr>cw_fs := s\<rparr>))"

definition on_net :: "(('p, 'q, 'r, 't) rcpu_world, 'a) run \<Rightarrow> ('p, 'q, 'r, 't, 'k, 'a) cli" where
  "on_net m w = (case m (cw_net w) of (r, n) \<Rightarrow> (r, w\<lparr>cw_net := n\<rparr>))"

definition on_mounts ::
  "(content local_fs \<Rightarrow> 'k \<Rightarrow> 'a result \<times> content local_fs \<times> 'k) \<Rightarrow> ('p, 'q, 'r, 't, 'k, 'a) cli" where
  "on_mounts f w =
     (case f (cw_fs w) (cw_kernel w) of (r, s, k) \<Rightarrow> (Some r, w\<lparr>cw_fs := s, cw_kernel := k\<rparr>))"

text \<open>\<open>writeJSON\<close> returns the error of the write, \<open>fmt.Println\<close> and \<open>fmt.Printf\<close> drop it.\<close>

definition writeJSON ::
  "('p, 'q, 'r, 't, 'k, 'h) cli_env \<Rightarrow> out_item \<Rightarrow> ('p, 'q, 'r, 't, 'k, int) cli" where
  "writeJSON E v w =
     (Some (bind_result (error_result (ce_stdout E v)) (\<lambda>_. Inr 0)), w\<lparr>cw_out := cw_out w @ [v]\<rparr>)"

definition print_lines :: "string list \<Rightarrow> ('p, 'q, 'r, 't, 'k, int) cli" where
  "print_lines ls w = (Some (Inr 0), w\<lparr>cw_out := cw_out w @ map (\<lambda>l. Text (l @ [newline])) ls\<rparr>)"

subsection \<open>The remote side\<close>

text \<open>An execution without output, as a run.\<close>

definition as_run ::
  "('w \<Rightarrow> go_error option option \<times> unit \<times> 'w) \<Rightarrow> ('w, unit) run" where
  "as_run f w = (case f w of (r, _, w) \<Rightarrow> (map_option error_result r, w))"

text \<open>
  The opener of exportfs clients. An opening that does not return is the panic \<open>no_return\<close>
  there, which no operation of a client catches, and \<open>None\<close> again for the command.
\<close>

definition no_return :: go_error where "no_return = Panic ''no return''"

definition rcpu_opener ::
  "('p, 'q, 'r, 't) rcpu_env \<Rightarrow> rcpu_client \<Rightarrow> (('p, 'q, 'r, 't) rcpu_world, 't) opener_fn" where
  "rcpu_opener R c net ctx root =
     (case OpenExportFS R c root net of
        (None, net) \<Rightarrow> (Inl no_return, net)
      | (Some r, net) \<Rightarrow> (r, net))"

definition returned :: "'a result option \<Rightarrow> 'a result option" where
  "returned r = (if r = Some (Inl no_return) then None else r)"

text \<open>An operation over \<open>exportfs.New(client, remoteRoot)\<close> clients, as a run.\<close>

definition on_remote ::
  "('p, 'q, 'r, 't, 'k, 'h) cli_env \<Rightarrow> rcpu_client \<Rightarrow> string \<Rightarrow>
   ((('p, 'q, 'r, 't) rcpu_world, 't) seed_net \<Rightarrow>
     ((('p, 'q, 'r, 't) rcpu_world, 't) seed_net, (('p, 'q, 'r, 't) rcpu_world, 't) xclient, remoteFile)
       remote_ops \<Rightarrow> 'a result option \<times> (('p, 'q, 'r, 't) rcpu_world, 't) seed_net) \<Rightarrow>
   ('p, 'q, 'r, 't, 'k, 'a) cli" where
  "on_remote E c root f w =
     (let ops = exportfs_ops (tls_react (ce_rcpu E)) (rcpu_opener (ce_rcpu E) c) (ce_now E)
            (ctx_Err (ce_rcpu E)) root;
          (r, net) = f \<lparr>sn_opener = cw_net w, sn_left = cw_left w\<rparr> ops
      in (returned r, w\<lparr>cw_net := sn_opener net, cw_left := sn_left net\<rparr>))"

definition remoteWorkspaceExists ::
  "('p, 'q, 'r, 't, 'k, 'h) cli_env \<Rightarrow> profile \<Rightarrow> secret \<Rightarrow> string \<Rightarrow> ('p, 'q, 'r, 't, 'k, bool) cli" where
  "remoteWorkspaceExists E prof sec rroot =
     (let c = tls_NewClient prof sec in
      on_remote E c rroot (\<lambda>net ops.
        case fs_Stat (tls_react (ce_rcpu E)) (rcpu_opener (ce_rcpu E) c) (ctx_Err (ce_rcpu E)) [slash]
            (ro_New ops net) of
          (r, x) \<Rightarrow>
            (Some (case r of
                Inr _ \<Rightarrow> Inr True
              | Inl e \<Rightarrow> if errors_Is e OsErrNotExist then Inr False else Inl e),
             ro_drop ops x net)))"

subsection \<open>Shared helpers\<close>

definition loadProfile ::
  "('p, 'q, 'r, 't, 'k, 'h) cli_env \<Rightarrow> string \<Rightarrow> (config \<times> profile \<times> secret) result" where
  "loadProfile E name =
     bind_result (config_Load (ce_decodeFile E) (ce_configDir E) []) (\<lambda>cfg.
     bind_result (config_Profile cfg name) (\<lambda>prof.
     bind_result (LoadSecret (ce_getenv E) (ce_secret E) cfg name) (\<lambda>sec.
       Inr (cfg, prof, sec))))"

definition ce_runtimeRoot :: "('p, 'q, 'r, 't, 'k, 'h) cli_env \<Rightarrow> string" where
  "ce_runtimeRoot E = RuntimeRoot (ce_getenv E) (ce_tempDir E)"

definition new_manager :: "('p, 'q, 'r, 't, 'k, 'h) cli_env \<Rightarrow> ('p, 'q, 'r, 't, 'k, manager) cli" where
  "new_manager E = on_local (NewManager (StateRoot (ce_homeDir E)))"

definition require :: "bool \<Rightarrow> string \<Rightarrow> ('w, unit) run" where
  "require b msg = (if b then return () else raise (ErrorString msg))"

definition versionInfo :: versionReport where
  "versionInfo = \<lparr>CLIVersion = ''dev'', ExpectedSkillVersion = ''2026-04-05.1''\<rparr>"

definition emptyDash :: "string \<Rightarrow> string" where
  "emptyDash s = (if s = [] then ''-'' else s)"

definition directoryIsEmpty :: "string \<Rightarrow> 'c local_fs \<Rightarrow> bool result" where
  "directoryIsEmpty path s = bind_result (os_ReadDir path s) (\<lambda>entries. Inr (length entries = 0))"

definition errString :: "'a result \<Rightarrow> string" where
  "errString r = (case r of Inl e \<Rightarrow> error_text e | Inr _ \<Rightarrow> [])"

definition stepOK :: string where "stepOK = ''ok''"

definition okStep :: stepResult where "okStep = \<lparr>step_Status = stepOK, step_Error = []\<rparr>"

definition skippedStep :: "string \<Rightarrow> stepResult" where
  "skippedStep reason = \<lparr>step_Status = ''skipped'', step_Error = reason\<rparr>"

definition errorStep :: "go_error \<Rightarrow> stepResult" where
  "errorStep err = \<lparr>step_Status = ''error'', step_Error = error_text err\<rparr>"

definition delete_steps :: "workspaceDeleteReport \<Rightarrow> (string \<times> stepResult) list" where
  "delete_steps r = [(''metadata lookup'', dr_MetadataLookup r), (''unmount'', dr_Unmount r),
     (''remote delete'', dr_RemoteDelete r), (''metadata'', dr_Metadata r)]"

definition finish :: "workspaceDeleteReport \<Rightarrow> workspaceDeleteReport" where
  "finish r =
     (if dr_OK r then r\<lparr>dr_Error := []\<rparr>
      else (let failures = map (\<lambda>(name, res). name @ '': '' @ step_Error res)
                  (filter (\<lambda>(_, res). step_Status res = ''error'') (delete_steps r))
            in if length failures = 0 then r\<lparr>dr_Error := ''workspace delete failed''\<rparr>
               else r\<lparr>dr_Error := Join failures ''; ''\<rparr>))"

subsection \<open>An environment for the witnesses\<close>

definition demo_proc :: "unit proc_env" where
  "demo_proc = \<lparr>pe_sha256 = (\<lambda>b. b), pe_kill = demo_kill, pe_Executable = Inr ''/bin/agentic9'',
     pe_Start = (\<lambda>_ _. Inr 8), pe_looks = (\<lambda>_ s _. \<lparr>env_fs = s, env_kill = demo_kill, env_ctx = None\<rparr>), pe_after_wait = (\<lambda>_ s. s),
     pe_after_term = (\<lambda>_ _. []), pe_run_bin = (\<lambda>_ _ k. (True, k))\<rparr>"

definition demo_secret :: secret where
  "demo_secret = \<lparr>secret_Value = ''pw'', secret_Source = ''env:S''\<rparr>"

definition demo_cli :: "(bytes list, bytes list, nat, bytes list, unit, unit) cli_env" where
  "demo_cli = \<lparr>ce_proc = demo_proc, ce_rcpu = demo_rcpu, ce_now = 5, ce_duration = 0, ce_pid = 8,
     ce_getenv = (\<lambda>v. if v = ''XDG_RUNTIME_DIR'' then ''/run'' else if v = ''S'' then ''pw'' else []),
     ce_tempDir = ''/tmp'',
     ce_decodeFile = (\<lambda>_. Inr \<lparr>cfg_Path = [], Profiles = [(''default'', demo_profile)]\<rparr>),
     ce_configDir = Inr ''/config'', ce_homeDir = Inr ''/home/u'', ce_wd = Inr ''/home/u'',
     ce_secret = (\<lambda>_. Inl OsErrNotExist), ce_encode = content_bytes, ce_fuel = 3, ce_mounts = (\<lambda>_. empty_fs),
     ce_closes = (\<lambda>_. None), ce_waits = (\<lambda>_. None), ce_stdout = (\<lambda>_. None),
     ce_gomount = (\<lambda>_ k. (Inr (), k)), ce_gounmount = (\<lambda>_ k. (Inr (), k)), ce_served = (\<lambda>_ _. True),
     ce_signal = False\<rparr>"

lemma demo_client: "tls_NewClient demo_profile demo_secret = demo_client"
  by (simp add: demo_client_def demo_secret_def)

lemma demo_load: "\<exists>cfg. loadProfile demo_cli ''default'' = Inr (cfg, demo_profile, demo_secret)"
proof -
  have "(case loadProfile demo_cli ''default'' of Inr (_, prof, sec) \<Rightarrow> prof = demo_profile \<and> sec = demo_secret
    | Inl _ \<Rightarrow> False)" by code_simp
  then show ?thesis by (auto split: sum.splits)
qed

definition demo_cli_world :: "(bytes list, bytes list, nat, bytes list, unit) cli_world" where
  "demo_cli_world = \<lparr>cw_fs = demo_fs, cw_kernel = (), cw_net = demo_net, cw_left = [], cw_out = []\<rparr>"

end
