(* ===== verification/Cli_Commands.thy ===== *)
theory Cli_Commands
  imports Cli_World
begin

text \<open>
  The commands of \<open>cmd/agentic9/main.go\<close> except \<open>exec\<close>, one definition per handler, each the
  whole handler from its flags to its output. Deferred calls and rollbacks run where the code
  runs them.
\<close>

subsection \<open>version, profile verify\<close>

definition printVersion ::
  "('p, 'q, 'r, 't, 'k, 'h) cli_env \<Rightarrow> string list \<Rightarrow> ('p, 'q, 'r, 't, 'k, int) cli" where
  "printVersion E args =
     andThen (done_with (parse_flags version_flags args)) (\<lambda>(fl, _).
       if flag_bool fl ''json'' then writeJSON E (JsonVersion versionInfo)
       else print_lines [''agentic9 '' @ CLIVersion versionInfo,
         ''expected skill version '' @ ExpectedSkillVersion versionInfo])"

definition verify_json :: "unit result \<Rightarrow> string \<Rightarrow> profile \<Rightarrow> config \<Rightarrow> out_item" where
  "verify_json r profileName prof cfg = JsonMap
     [(''ok'', JV (JBool (r = Inr ()))), (''profile'', JV (JString profileName)),
      (''cpu_host'', JV (JString (CPUHost prof))), (''auth_host'', JV (JString (AuthHost prof))),
      (''user'', JV (JString (User prof))), (''error'', JV (JString (errString r))),
      (''configPath'', JV (JString (cfg_Path cfg)))]"

definition profileVerify ::
  "('p, 'q, 'r, 't, 'k, 'h) cli_env \<Rightarrow> string list \<Rightarrow> ('p, 'q, 'r, 't, 'k, int) cli" where
  "profileVerify E args =
     andThen (done_with (parse_flags verify_flags args)) (\<lambda>(fl, _).
     (let profileName = flag_string fl ''profile'' in
     andThen (done_with (loadProfile E profileName)) (\<lambda>(cfg, prof, sec).
     catching (on_net (Verify (ce_rcpu E) (tls_NewClient prof sec))) (\<lambda>r.
       if flag_bool fl ''json'' then writeJSON E (verify_json r profileName prof cfg)
       else andThen (done_with r) (\<lambda>_. print_lines [''ok''])))))"

subsection \<open>workspace create\<close>

definition path_Abs :: "string result \<Rightarrow> string \<Rightarrow> string result" where
  "path_Abs wd path =
     (if HasPrefix path [slash] then Inr (Clean path)
      else bind_result wd (\<lambda>d. Inr (path_Join [d, path])))"

text \<open>The source directory as bytes: a document of the model stands for its encoding.\<close>

definition fs_bytes :: "(content \<Rightarrow> bytes) \<Rightarrow> content local_fs \<Rightarrow> bytes local_fs" where
  "fs_bytes enc s = \<lparr>nodes = map (\<lambda>(p, d). (p, map_fnode enc d)) (nodes s), fault = fault s\<rparr>"

definition seed_remote ::
  "('p, 'q, 'r, 't, 'k, 'h) cli_env \<Rightarrow> rcpu_client \<Rightarrow> string \<Rightarrow> bool \<Rightarrow> string \<Rightarrow>
   ('p, 'q, 'r, 't, 'k, unit) cli" where
  "seed_remote E c root mirror source w =
     on_remote E c root (\<lambda>net ops.
       copyTreeToRemote (ce_fuel E) ops mirror source (fs_bytes (ce_encode E) (cw_fs w)) net) w"

definition remote_is_empty ::
  "('p, 'q, 'r, 't, 'k, 'h) cli_env \<Rightarrow> rcpu_client \<Rightarrow> string \<Rightarrow> ('p, 'q, 'r, 't, 'k, bool) cli" where
  "remote_is_empty E c root =
     on_remote E c root (\<lambda>net ops. case remoteDirectoryIsEmpty ops net of
       None \<Rightarrow> (None, net) | Some (r, net) \<Rightarrow> (Some r, net))"

text \<open>The rollback of a workspace that this command created runs under a fresh context.\<close>

definition remove_created ::
  "('p, 'q, 'r, 't, 'k, 'h) cli_env \<Rightarrow> rcpu_client \<Rightarrow> string \<Rightarrow> bool \<Rightarrow> ('p, 'q, 'r, 't, 'k, unit) cli" where
  "remove_created E c root created =
     (if created then on_net (as_run (RemoveRemoteTree (ce_rcpu E\<lparr>ctx_Err := None\<rparr>) c root))
      else return ())"

definition start_mount ::
  "('p, 'q, 'r, 't, 'k, 'h) cli_env \<Rightarrow> string \<Rightarrow> string \<Rightarrow> string \<Rightarrow> ('p, 'q, 'r, 't, 'k, mount_state) cli" where
  "start_mount E profileName agentID mp w =
     (case startDetachedMount (ce_proc E) (ce_runtimeRoot E) profileName agentID mp (cw_fs w) of
        (r, s) \<Rightarrow> (r, w\<lparr>cw_fs := s\<rparr>))"

definition stop_mount ::
  "('p, 'q, 'r, 't, 'k, 'h) cli_env \<Rightarrow> string \<Rightarrow> string \<Rightarrow> ('p, 'q, 'r, 't, 'k, unit) cli" where
  "stop_mount E runtimeRoot mp = on_mounts (stopDetachedMount (ce_proc E) runtimeRoot mp)"

definition workspaceCreateJSON :: "string \<Rightarrow> string \<Rightarrow> string \<Rightarrow> string \<Rightarrow> int \<Rightarrow> bool \<Rightarrow> out_item" where
  "workspaceCreateJSON agentID rroot mp sourcePath pid mirror =
     (let mode = (if mirror then ''mirror-once'' else ''copy-once'') in JsonMap
       [(''ok'', JV (JBool True)), (''agent_id'', JV (JString agentID)),
        (''cli_version'', JV (JString (CLIVersion versionInfo))),
        (''expected_skill_version'', JV (JString (ExpectedSkillVersion versionInfo))),
        (''remote_root'', JV (JString rroot)), (''remote_project_root'', JV (JString rroot)),
        (''mountpoint'', JV (JString mp)), (''edit_path'', JV (JString mp)),
        (''project_root'', JV (JString mp)), (''source_path'', JV (JString sourcePath)),
        (''seed_path'', JV (JString sourcePath)), (''sync_mode'', JV (JString mode)),
        (''bootstrap_mode'', JV (JString mode)), (''mounted'', JV (JBool True)),
        (''pid'', JV (JInt pid))])"

text \<open>
  The handler after its arguments are checked and the profile is loaded, in two parts: up to
  the look at the remote directory, and from the seeding on.
\<close>

definition prepare_workspace ::
  "('p, 'q, 'r, 't, 'k, 'h) cli_env \<Rightarrow> rcpu_client \<Rightarrow> string \<Rightarrow> ('p, 'q, 'r, 't, 'k, manager \<times> bool) cli" where
  "prepare_workspace E c rroot =
     andThen (new_manager E) (\<lambda>manager.
     andThen (on_net (Verify (ce_rcpu E) c)) (\<lambda>_.
     andThen (on_net (as_run (EnsureRemoteDir (ce_rcpu E) c rroot))) (\<lambda>_.
     andThen (remote_is_empty E c rroot) (\<lambda>created. return (manager, created)))))"

definition populate_workspace ::
  "('p, 'q, 'r, 't, 'k, 'h) cli_env \<Rightarrow> rcpu_client \<Rightarrow> string \<Rightarrow> string \<Rightarrow> string \<Rightarrow> string \<Rightarrow> string \<Rightarrow> bool \<Rightarrow>
   manager \<Rightarrow> bool \<Rightarrow> ('p, 'q, 'r, 't, 'k, string \<times> int) cli" where
  "populate_workspace E c profileName agentID rroot sourcePath project mirror manager created =
     (let rollback = remove_created E c rroot created in
      or_rollback (seed_remote E c rroot mirror sourcePath) rollback (\<lambda>_.
      andThen (if project \<noteq> [] then return project
               else on_local (DefaultMountpoint (ce_getenv E) (ce_tempDir E) profileName agentID)) (\<lambda>mp.
      andThen (on_local (os_MkdirAll mp 0x1ED)) (\<lambda>_.
      or_rollback (start_mount E profileName agentID mp) rollback (\<lambda>state.
      (let undo = catching (stop_mount E (ce_runtimeRoot E) mp) (\<lambda>_. rollback) in
      or_rollback (done_with (waitForWritableMount (ce_mounts E) (ce_closes E) (ce_waits E) (ce_pid E) mp))
        undo (\<lambda>_.
      or_rollback (on_local (saveWorkspaceMetadata (ce_now E) manager profileName agentID rroot mp
          (ms_PID state)))
        undo (\<lambda>_. return (mp, ms_PID state)))))))))"

definition workspaceCreate ::
  "('p, 'q, 'r, 't, 'k, 'h) cli_env \<Rightarrow> string list \<Rightarrow> ('p, 'q, 'r, 't, 'k, int) cli" where
  "workspaceCreate E args =
     andThen (done_with (parse_flags create_flags args)) (\<lambda>(fl, _).
     andThen (done_with (resolveAliasedPathFlag ''--source'' (flag_string fl ''source'')
         ''--seed-path'' (flag_string fl ''seed-path''))) (\<lambda>source.
     andThen (done_with (resolveAliasedPathFlag ''--mountpoint'' (flag_string fl ''mountpoint'')
         ''--project-root'' (flag_string fl ''project-root''))) (\<lambda>project.
     (let profileName = flag_string fl ''profile''; agentID = flag_string fl ''agent-id'';
          mirror = flag_bool fl ''mirror'' in
     andThen (require (agentID \<noteq> [] \<and> source \<noteq> [])
         ''workspace create requires --agent-id and one of --seed-path or --source'') (\<lambda>_.
     andThen (done_with (ValidateAgentID agentID)) (\<lambda>_.
     andThen (done_with (path_Abs (ce_wd E) source)) (\<lambda>sourcePath.
     andThen (done_with (loadProfile E profileName)) (\<lambda>(cfg, prof, sec).
     (let c = tls_NewClient prof sec; rroot = RemoteRoot prof agentID in
     andThen (prepare_workspace E c rroot) (\<lambda>(manager, created).
     andThen (populate_workspace E c profileName agentID rroot sourcePath project mirror manager created)
         (\<lambda>(mp, pid).
       if flag_bool fl ''json''
       then writeJSON E (workspaceCreateJSON agentID rroot mp sourcePath pid mirror)
       else print_lines [mp])))))))))))"

subsection \<open>workspace delete\<close>

definition delete_start :: "string \<Rightarrow> string \<Rightarrow> workspaceDeleteReport" where
  "delete_start agentID rroot =
     (let none = skippedStep ''not attempted'' in
      \<lparr>dr_OK = True, dr_AgentID = agentID, dr_RemoteRoot = rroot, dr_MetadataLookup = none,
       dr_Unmount = none, dr_RemoteDelete = none, dr_Metadata = none, dr_Error = []\<rparr>)"

text \<open>The lookup: the report so far, and the metadata when it was found and refreshed.\<close>

definition delete_lookup ::
  "('p, 'q, 'r, 't, 'k, 'h) cli_env \<Rightarrow> manager \<Rightarrow> profile \<Rightarrow> string \<Rightarrow> string \<Rightarrow> workspaceDeleteReport \<Rightarrow>
   ('p, 'q, 'r, 't, 'k, workspaceDeleteReport \<times> metadata option) cli" where
  "delete_lookup E manager prof profileName agentID report =
     (let P = ce_proc E; root = ce_runtimeRoot E in
      catching (on_local (loadWorkspaceMetadata (pe_sha256 P) (pe_kill P) (ce_now E) root manager prof
          profileName agentID)) (\<lambda>loaded.
      case loaded of
        Inr meta \<Rightarrow>
          catching (on_local (refreshWorkspaceMetadata (pe_sha256 P) (pe_kill P) root manager meta)) (\<lambda>refreshed.
          case refreshed of
            Inl e \<Rightarrow> return (report\<lparr>dr_MetadataLookup := errorStep e, dr_OK := False\<rparr>, None)
          | Inr meta \<Rightarrow>
              return (report\<lparr>dr_MetadataLookup := okStep,
                dr_RemoteRoot := (if m_RemoteRoot meta \<noteq> [] then m_RemoteRoot meta else dr_RemoteRoot report)\<rparr>,
                Some meta))
      | Inl e \<Rightarrow>
          (if errors_Is e OsErrNotExist
           then return (report\<lparr>dr_MetadataLookup := skippedStep ''workspace metadata not found''\<rparr>, None)
           else return (report\<lparr>dr_MetadataLookup := errorStep e, dr_OK := False\<rparr>, None))))"

text \<open>The unmount: the report, and \<open>unmountOK\<close>.\<close>

definition delete_unmount ::
  "('p, 'q, 'r, 't, 'k, 'h) cli_env \<Rightarrow> metadata option \<Rightarrow> workspaceDeleteReport \<Rightarrow>
   ('p, 'q, 'r, 't, 'k, workspaceDeleteReport \<times> bool) cli" where
  "delete_unmount E found report =
     (case found of
        None \<Rightarrow> return (report\<lparr>dr_Unmount := skippedStep ''workspace metadata unavailable''\<rparr>, False)
      | Some meta \<Rightarrow>
          (if m_Mounted meta \<and> m_Mountpoint meta \<noteq> [] then
             catching (stop_mount E (ce_runtimeRoot E) (m_Mountpoint meta)) (\<lambda>r. case r of
               Inl e \<Rightarrow> return (report\<lparr>dr_Unmount := errorStep e, dr_OK := False\<rparr>, False)
             | Inr _ \<Rightarrow> return (report\<lparr>dr_Unmount := okStep\<rparr>, True))
           else return (report\<lparr>dr_Unmount := skippedStep ''workspace was not mounted''\<rparr>, True)))"

definition delete_remote ::
  "('p, 'q, 'r, 't, 'k, 'h) cli_env \<Rightarrow> rcpu_client \<Rightarrow> workspaceDeleteReport \<Rightarrow>
   ('p, 'q, 'r, 't, 'k, workspaceDeleteReport) cli" where
  "delete_remote E c report =
     catching (on_net (as_run (RemoveRemoteTree (ce_rcpu E) c (dr_RemoteRoot report)))) (\<lambda>r. case r of
       Inl e \<Rightarrow> return (report\<lparr>dr_RemoteDelete := errorStep e, dr_OK := False\<rparr>)
     | Inr _ \<Rightarrow> return (report\<lparr>dr_RemoteDelete := okStep\<rparr>))"

definition delete_metadata ::
  "manager \<Rightarrow> string \<Rightarrow> string \<Rightarrow> bool \<Rightarrow> bool \<Rightarrow> workspaceDeleteReport \<Rightarrow>
   ('p, 'q, 'r, 't, 'k, workspaceDeleteReport) cli" where
  "delete_metadata manager profileName agentID metaFound unmountOK report =
     (if \<not> metaFound
      then return (report\<lparr>dr_Metadata := skippedStep ''workspace metadata not found''\<rparr>)
      else if step_Status (dr_RemoteDelete report) = stepOK \<and> unmountOK then
        catching (on_local (manager_Delete manager profileName agentID)) (\<lambda>r. case r of
          Inl e \<Rightarrow>
            (if \<not> errors_Is e OsErrNotExist
             then return (report\<lparr>dr_Metadata := errorStep e, dr_OK := False\<rparr>)
             else return (report\<lparr>dr_Metadata := \<lparr>step_Status = ''deleted'', step_Error = []\<rparr>\<rparr>))
        | Inr _ \<Rightarrow> return (report\<lparr>dr_Metadata := \<lparr>step_Status = ''deleted'', step_Error = []\<rparr>\<rparr>))
      else if step_Status (dr_Unmount report) = stepOK then
        catching (on_local (clearWorkspaceMountState manager profileName agentID)) (\<lambda>r. case r of
          Inl e \<Rightarrow> return (report\<lparr>dr_Metadata := errorStep e, dr_OK := False\<rparr>)
        | Inr _ \<Rightarrow> return (report\<lparr>dr_Metadata := \<lparr>step_Status = ''updated'', step_Error = []\<rparr>\<rparr>))
      else return (report\<lparr>dr_Metadata := skippedStep ''leaving metadata in place after earlier failure''\<rparr>))"

definition delete_report ::
  "('p, 'q, 'r, 't, 'k, 'h) cli_env \<Rightarrow> string \<Rightarrow> string \<Rightarrow> manager \<Rightarrow> profile \<Rightarrow> secret \<Rightarrow>
   ('p, 'q, 'r, 't, 'k, workspaceDeleteReport) cli" where
  "delete_report E profileName agentID manager prof sec =
     andThen (delete_lookup E manager prof profileName agentID
         (delete_start agentID (RemoteRoot prof agentID))) (\<lambda>(report, found).
     andThen (delete_unmount E found report) (\<lambda>(report, unmountOK).
     andThen (delete_remote E (tls_NewClient prof sec) report) (\<lambda>report.
     andThen (delete_metadata manager profileName agentID (found \<noteq> None) unmountOK report) (\<lambda>report.
       return (finish report)))))"

definition workspaceDelete ::
  "('p, 'q, 'r, 't, 'k, 'h) cli_env \<Rightarrow> string list \<Rightarrow> ('p, 'q, 'r, 't, 'k, int) cli" where
  "workspaceDelete E args =
     andThen (done_with (parse_flags agent_flags args)) (\<lambda>(fl, _).
     (let profileName = flag_string fl ''profile''; agentID = flag_string fl ''agent-id'' in
     andThen (require (agentID \<noteq> []) ''workspace delete requires --agent-id'') (\<lambda>_.
     andThen (done_with (ValidateAgentID agentID)) (\<lambda>_.
     andThen (done_with (loadProfile E profileName)) (\<lambda>(cfg, prof, sec).
     andThen (new_manager E) (\<lambda>manager.
     andThen (delete_report E profileName agentID manager prof sec) (\<lambda>report.
     (let outcome = (if \<not> dr_OK report then raise (ErrorString (dr_Error report)) else return 0) in
       if flag_bool fl ''json''
       then andThen (writeJSON E (JsonDelete report)) (\<lambda>_. outcome)
       else outcome))))))))"

subsection \<open>workspace path, workspace status\<close>

definition path_json :: "bool \<Rightarrow> string \<Rightarrow> string \<Rightarrow> string \<Rightarrow> (string \<times> jout) list \<Rightarrow> out_item" where
  "path_json ok agentID rroot mp rest = JsonMap
     ([(''ok'', JV (JBool ok)), (''agent_id'', JV (JString agentID)), (''remote_root'', JV (JString rroot)),
       (''remote_project_root'', JV (JString rroot)), (''edit_path'', JV (JString mp)),
       (''mountpoint'', JV (JString mp)), (''project_root'', JV (JString mp)),
       (''mounted'', JV (JBool ok))] @ rest)"

definition workspacePath ::
  "('p, 'q, 'r, 't, 'k, 'h) cli_env \<Rightarrow> string list \<Rightarrow> ('p, 'q, 'r, 't, 'k, int) cli" where
  "workspacePath E args =
     andThen (done_with (parse_flags agent_flags args)) (\<lambda>(fl, _).
     (let profileName = flag_string fl ''profile''; agentID = flag_string fl ''agent-id'';
          json = flag_bool fl ''json''; P = ce_proc E; root = ce_runtimeRoot E in
     andThen (require (agentID \<noteq> []) ''workspace path requires --agent-id'') (\<lambda>_.
     andThen (done_with (ValidateAgentID agentID)) (\<lambda>_.
     andThen (done_with (loadProfile E profileName)) (\<lambda>(cfg, prof, _).
     andThen (new_manager E) (\<lambda>manager.
     catching (on_local (loadWorkspaceMetadata (pe_sha256 P) (pe_kill P) (ce_now E) root manager prof
         profileName agentID)) (\<lambda>loaded.
     case loaded of
       Inl e \<Rightarrow>
         (if json \<and> errors_Is e OsErrNotExist
          then writeJSON E (path_json False agentID (RemoteRoot prof agentID) []
            [(''error'', JV (JString ''workspace metadata and active mount state not found''))])
          else raise e)
     | Inr meta \<Rightarrow>
         andThen (on_local (refreshWorkspaceMetadata (pe_sha256 P) (pe_kill P) root manager meta)) (\<lambda>meta.
           if \<not> m_Mounted meta \<or> m_Mountpoint meta = [] then
             (if json
              then writeJSON E (path_json False (m_AgentID meta) (m_RemoteRoot meta) []
                [(''error'', JV (JString ''workspace is not mounted''))])
              else raise (ErrorString ''workspace is not mounted''))
           else if json
           then writeJSON E (path_json True (m_AgentID meta) (m_RemoteRoot meta) (m_Mountpoint meta)
             [(''pid'', JV (JInt (m_MountPID meta)))])
           else print_lines [m_Mountpoint meta]))))))))"

definition bool_text :: "bool \<Rightarrow> string" where
  "bool_text b = (if b then ''true'' else ''false'')"

definition status_lines :: "workspaceStatusReport \<Rightarrow> string list" where
  "status_lines r =
     [''agentic9 '' @ CLIVersion (st_Version r), ''workspace '' @ st_Profile r @ ''/'' @ st_AgentID r,
      ''project_root: '' @ emptyDash (st_ProjectRoot r), ''mounted: '' @ bool_text (st_Mounted r),
      ''metadata present: '' @ bool_text (sm_Present (st_Metadata r)),
      ''runtime present: '' @ bool_text (sr_Present (st_Runtime r))] @
     (if sr_Present (st_Runtime r)
      then [''runtime status: '' @ sr_Status (st_Runtime r),
        ''runtime pid alive: '' @ bool_text (sr_ProcessAlive (st_Runtime r))] else []) @
     (if se_Checked (st_Remote r) then [''remote exists: '' @ bool_text (se_Exists (st_Remote r))]
      else [''remote exists: unknown ('' @ se_Error (st_Remote r) @ '')'']) @
     map (\<lambda>i. ''warning: '' @ i) (st_Inconsistencies r)"

definition status_remote ::
  "('p, 'q, 'r, 't, 'k, 'h) cli_env \<Rightarrow> config \<Rightarrow> string \<Rightarrow> profile \<Rightarrow> workspaceStatusReport \<Rightarrow>
   ('p, 'q, 'r, 't, 'k, workspaceStatusReport) cli" where
  "status_remote E cfg profileName prof report =
     (let remote = st_Remote report in
      case LoadSecret (ce_getenv E) (ce_secret E) cfg profileName of
        Inl e \<Rightarrow> return (report\<lparr>st_Remote := remote\<lparr>se_Checked := False, se_Error := error_text e\<rparr>\<rparr>)
      | Inr sec \<Rightarrow>
          catching (remoteWorkspaceExists E prof sec (se_Root remote)) (\<lambda>r.
            return (report\<lparr>st_Remote := remote\<lparr>se_Checked := True,
              se_Exists := (case r of Inr b \<Rightarrow> b | Inl _ \<Rightarrow> False), se_Error := errString r\<rparr>\<rparr>)))"

definition workspaceStatus ::
  "('p, 'q, 'r, 't, 'k, 'h) cli_env \<Rightarrow> string list \<Rightarrow> ('p, 'q, 'r, 't, 'k, int) cli" where
  "workspaceStatus E args =
     andThen (done_with (parse_flags agent_flags args)) (\<lambda>(fl, _).
     (let profileName = flag_string fl ''profile''; agentID = flag_string fl ''agent-id'';
          P = ce_proc E in
     andThen (require (agentID \<noteq> []) ''workspace status requires --agent-id'') (\<lambda>_.
     andThen (done_with (ValidateAgentID agentID)) (\<lambda>_.
     andThen (done_with (config_Load (ce_decodeFile E) (ce_configDir E) [])) (\<lambda>cfg.
     andThen (done_with (config_Profile cfg profileName)) (\<lambda>prof.
     andThen (new_manager E) (\<lambda>manager.
     andThen (\<lambda>w. done_with (inspectWorkspaceState (pe_sha256 P) (pe_kill P) (ce_runtimeRoot E) manager
         prof profileName agentID (cw_fs w)) w) (\<lambda>report.
     andThen (status_remote E cfg profileName prof (report\<lparr>st_Version := versionInfo\<rparr>)) (\<lambda>report.
       if flag_bool fl ''json'' then writeJSON E (JsonStatus report)
       else print_lines (status_lines report))))))))))"

subsection \<open>mount, unmount\<close>

text \<open>
  \<open>mounter.Mount\<close> and \<open>handle.Wait\<close> in the process itself. The FUSE server runs until it is
  unmounted; \<open>ce_served\<close> says whether that happens.
\<close>

definition mount_here ::
  "('p, 'q, 'r, 't, 'k, 'h) cli_env \<Rightarrow> string \<Rightarrow> ('p, 'q, 'r, 't, 'k, 'h) cli" where
  "mount_here E mp =
     on_mounts (\<lambda>s k. case Mount (ce_gomount E) mp s k (NewMountManager (ce_runtimeRoot E)) of
       (r, s, k, _) \<Rightarrow> (r, s, k))"

text \<open>
  \<open>Handle.Close\<close> and \<open>Handle.Wait\<close>; \<open>Mount\<close> only makes handles whose server is not nil.
\<close>

definition handle_Close :: "('p, 'q, 'r, 't, 'k, 'h) cli_env \<Rightarrow> 'h option \<Rightarrow> ('p, 'q, 'r, 't, 'k, unit) cli" where
  "handle_Close E server =
     (case server of
        None \<Rightarrow> return ()
      | Some h \<Rightarrow> on_mounts (\<lambda>s k. case ce_gounmount E h k of (r, k) \<Rightarrow> (r, s, k)))"

definition handle_Wait :: "('p, 'q, 'r, 't, 'k, 'h) cli_env \<Rightarrow> 'h option \<Rightarrow> ('p, 'q, 'r, 't, 'k, int) cli" where
  "handle_Wait E server w =
     (case server of
        None \<Rightarrow> return 0 w
      | Some h \<Rightarrow> (if ce_served E h (cw_kernel w) then return 0 w else (None, w)))"

definition mount_json :: "string \<Rightarrow> string \<Rightarrow> string \<Rightarrow> string \<Rightarrow> int \<Rightarrow> out_item" where
  "mount_json agentID profileName mp rroot pid = JsonMap
     [(''ok'', JV (JBool True)), (''agent_id'', JV (JString agentID)), (''profile'', JV (JString profileName)),
      (''mountpoint'', JV (JString mp)), (''project_root'', JV (JString mp)),
      (''remote_root'', JV (JString rroot)), (''remote_project_root'', JV (JString rroot)),
      (''pid'', JV (JInt pid)), (''mounted'', JV (JBool True))]"

definition mountWorkspace ::
  "('p, 'q, 'r, 't, 'k, 'h) cli_env \<Rightarrow> string list \<Rightarrow> ('p, 'q, 'r, 't, 'k, int) cli" where
  "mountWorkspace E args =
     andThen (done_with (parse_flags mount_flags args)) (\<lambda>(fl, _).
     andThen (done_with (resolveAliasedPathFlag ''--mountpoint'' (flag_string fl ''mountpoint'')
         ''--project-root'' (flag_string fl ''project-root''))) (\<lambda>mp.
     (let profileName = flag_string fl ''profile''; agentID = flag_string fl ''agent-id'' in
     andThen (require (agentID \<noteq> [] \<and> mp \<noteq> [])
         ''mount requires --agent-id and one of --project-root or --mountpoint'') (\<lambda>_.
     andThen (done_with (ValidateAgentID agentID)) (\<lambda>_.
     andThen (done_with (loadProfile E profileName)) (\<lambda>(cfg, prof, sec).
     andThen (on_local (os_MkdirAll mp 0x1ED)) (\<lambda>_.
     (let rroot = RemoteRoot prof agentID; undo = stop_mount E (ce_runtimeRoot E) mp in
      if flag_bool fl ''json'' then
        andThen (start_mount E profileName agentID mp) (\<lambda>state.
        or_rollback (new_manager E) undo (\<lambda>manager.
        or_rollback (on_local (saveWorkspaceMetadata (ce_now E) manager profileName agentID rroot mp
            (ms_PID state))) undo (\<lambda>_.
          writeJSON E (mount_json agentID profileName mp rroot (ms_PID state)))))
      else andThen (mount_here E mp) (\<lambda>h. handle_Wait E (Some h))))))))))"

definition unmount_json :: "unit result \<Rightarrow> string \<Rightarrow> out_item" where
  "unmount_json r mp = JsonMap
     [(''ok'', JV (JBool (r = Inr ()))), (''mountpoint'', JV (JString mp)),
      (''project_root'', JV (JString mp)), (''error'', JV (JString (errString r)))]"

definition unmountWorkspace ::
  "('p, 'q, 'r, 't, 'k, 'h) cli_env \<Rightarrow> string list \<Rightarrow> ('p, 'q, 'r, 't, 'k, int) cli" where
  "unmountWorkspace E args =
     andThen (done_with (parse_flags unmount_flags args)) (\<lambda>(fl, _).
     andThen (done_with (resolveAliasedPathFlag ''--mountpoint'' (flag_string fl ''mountpoint'')
         ''--project-root'' (flag_string fl ''project-root''))) (\<lambda>mp.
     andThen (require (mp \<noteq> []) ''unmount requires one of --project-root or --mountpoint'') (\<lambda>_ w.
     (let root = DefaultRuntimeRoot (ce_getenv E) (ce_tempDir E);
          loaded = runtime_Load (pe_sha256 (ce_proc E)) (NewRuntime root) mp (cw_fs w) in
     catching (stop_mount E root mp) (\<lambda>r.
     andThen (case (r, loaded) of
         (Inr _, Inr state) \<Rightarrow>
           (if ms_Profile state \<noteq> [] \<and> ms_AgentID state \<noteq> [] then
              catching (new_manager E) (\<lambda>mgr. case mgr of
                Inr manager \<Rightarrow>
                  catching (on_local (clearWorkspaceMountState manager (ms_Profile state) (ms_AgentID state)))
                    (\<lambda>_. return ())
              | Inl _ \<Rightarrow> return ())
            else return ())
       | _ \<Rightarrow> return ()) (\<lambda>_.
       if flag_bool fl ''json'' then writeJSON E (unmount_json r mp)
       else andThen (done_with r) (\<lambda>_. return 0))) w))))"

subsection \<open>The mount helper\<close>

definition serve_cleanup ::
  "('p, 'q, 'r, 't, 'k, 'h) cli_env \<Rightarrow> runtime \<Rightarrow> string \<Rightarrow> ('p, 'q, 'r, 't, 'k, unit) cli" where
  "serve_cleanup E runtime mp =
     catching (on_local (runtime_Delete (pe_sha256 (ce_proc E)) runtime mp)) (\<lambda>_.
     catching (on_local (os_Remove (LogPath (pe_sha256 (ce_proc E)) runtime mp))) (\<lambda>_. return ()))"

text \<open>
  The deferred cleanup runs unless \<open>cleanupState\<close> was set to false, also when a panic passes.
  When a signal comes first, the server is unmounted and waited for.
\<close>

definition with_cleanup :: "('w, 'a \<times> bool) run \<Rightarrow> ('w, unit) run \<Rightarrow> ('w, 'a) run" where
  "with_cleanup m d w =
     (case m w of
        (None, w) \<Rightarrow> (None, w)
      | (Some (Inr (v, cleanup)), w) \<Rightarrow>
          (if cleanup then (case d w of (None, w) \<Rightarrow> (None, w) | (Some _, w) \<Rightarrow> (Some (Inr v), w))
           else (Some (Inr v), w))
      | (Some (Inl e), w) \<Rightarrow>
          (case d w of (None, w) \<Rightarrow> (None, w) | (Some _, w) \<Rightarrow> (Some (Inl e), w)))"

definition serve_mounted ::
  "('p, 'q, 'r, 't, 'k, 'h) cli_env \<Rightarrow> 'h \<Rightarrow> ('p, 'q, 'r, 't, 'k, int) cli" where
  "serve_mounted E h =
     (if ce_signal E
      then catching (handle_Close E (Some h)) (\<lambda>_. handle_Wait E (Some h))
      else handle_Wait E (Some h))"

text \<open>The value is the error the handler returns, and whether the state is to be cleaned up.\<close>

definition serve_state ::
  "('p, 'q, 'r, 't, 'k, 'h) cli_env \<Rightarrow> runtime \<Rightarrow> mount_state \<Rightarrow> string \<Rightarrow>
   ('p, 'q, 'r, 't, 'k, int result \<times> bool) cli" where
  "serve_state E runtime state mp =
     (let save = (\<lambda>st. on_local (runtime_Save (pe_sha256 (ce_proc E)) (ce_now E) runtime st)) in
      catching (mount_here E mp) (\<lambda>r. case r of
        Inl e \<Rightarrow>
          catching (save (state\<lparr>ms_Status := MountStatusFailed, ms_Error := error_text e\<rparr>)) (\<lambda>_.
            return (Inl e, False))
      | Inr h \<Rightarrow>
          catching (save (state\<lparr>ms_Status := MountStatusMounted, ms_Error := []\<rparr>)) (\<lambda>r. case r of
            Inl e \<Rightarrow>
              catching (handle_Close E (Some h)) (\<lambda>_.
                return (Inl e, True))
          | Inr _ \<Rightarrow> andThen (serve_mounted E h) (\<lambda>n. return (Inr n, True)))))"

definition serveMount ::
  "('p, 'q, 'r, 't, 'k, 'h) cli_env \<Rightarrow> string list \<Rightarrow> ('p, 'q, 'r, 't, 'k, int) cli" where
  "serveMount E args =
     andThen (done_with (parse_flags serve_flags args)) (\<lambda>(fl, _).
     (let profileName = flag_string fl ''profile''; agentID = flag_string fl ''agent-id'';
          mp = flag_string fl ''mountpoint'' in
     andThen (done_with (ValidateAgentID agentID)) (\<lambda>_.
     andThen (require (mp \<noteq> []) ''__serve-mount requires --mountpoint'') (\<lambda>_.
     andThen (done_with (loadProfile E profileName)) (\<lambda>(cfg, prof, sec).
     (let runtime = NewRuntime (ce_runtimeRoot E);
          state = zero_mount_state\<lparr>ms_Profile := profileName, ms_AgentID := agentID, ms_Mountpoint := mp,
            ms_PID := ce_pid E, ms_Status := MountStatusStarting\<rparr> in
     andThen (on_local (runtime_Save (pe_sha256 (ce_proc E)) (ce_now E) runtime state)) (\<lambda>_.
     andThen (with_cleanup (serve_state E runtime state mp) (serve_cleanup E runtime mp)) done_with)))))))"

end
