(* ===== verification/Cli_Exec.thy ===== *)
theory Cli_Exec
  imports Cli_Commands
begin

text \<open>
  The \<open>exec\<close> command and \<open>main\<close> (\<open>cmd/agentic9/main.go\<close>): a command line run in the remote
  workspace over rcpu, its output routed line by line, its status turned into the exit code
  of the process.
\<close>

subsection \<open>exec\<close>

text \<open>The printer of the output router: standard output may fail.\<close>

definition exec_printer :: "('p, 'q, 'r, 't, 'k, 'h) cli_env \<Rightarrow> out_event list printer" where
  "exec_printer E ev out = (ce_stdout E (OutEvent ev), out @ [ev])"

text \<open>\<open>Runner.Run\<close> with the rcpu client as its executor: the result, the router and the network.\<close>

definition run_outcome :: "go_error option \<Rightarrow> parser \<Rightarrow> exec_result result" where
  "run_outcome err p =
     (case err of
        Some e \<Rightarrow> Inl e
      | None \<Rightarrow>
          (if \<not> parser_Done p then Inl (ErrorString ''remote session ended before exit sentinel'')
           else if parser_Status p = [] then Inr \<lparr>ExitCode = 0, RemoteStatus = []\<rparr>
           else Inr \<lparr>ExitCode = 1, RemoteStatus = parser_Status p\<rparr>))"

definition runner_Run ::
  "('p, 'q, 'r, 't) rcpu_env \<Rightarrow> rcpu_client \<Rightarrow> string \<Rightarrow> string list \<Rightarrow>
   ('s \<Rightarrow> bytes \<Rightarrow> go_error option \<times> 's) \<Rightarrow> 's \<Rightarrow> ('p, 'q, 'r, 't) rcpu_world \<Rightarrow>
   exec_result result option \<times> 's \<times> ('p, 'q, 'r, 't) rcpu_world" where
  "runner_Run R c workspace command output s net =
     (case tls_Exec R c (BuildScript workspace command) (Some (run_callback (Some output))) (new_parser, s) net of
        (r, (p, s), net) \<Rightarrow> (map_option (\<lambda>err. run_outcome err p) r, s, net))"

definition start_json :: "string \<Rightarrow> string list \<Rightarrow> out_item" where
  "start_json workspace command = JsonMap
     [(''type'', JV (JString ''start'')), (''workspace'', JV (JString workspace)),
      (''remote_project_root'', JV (JString workspace)), (''command'', JStrings command)]"

definition client_error_json :: "go_error \<Rightarrow> out_item" where
  "client_error_json e = JsonMap
     [(''type'', JV (JString ''client_error'')), (''error'', JV (JString (error_text e)))]"

definition exit_json :: "exec_result \<Rightarrow> int \<Rightarrow> execWarning list \<Rightarrow> out_item" where
  "exit_json result duration ws = JsonMap
     ([(''type'', JV (JString ''exit'')), (''ok'', JV (JBool (ExitCode result = 0))),
       (''exit_code'', JV (JInt (ExitCode result))), (''remote_status'', JV (JString (RemoteStatus result))),
       (''duration_ms'', JV (JInt duration))] @
      (if length ws > 0 then [(''warnings'', JWarnings ws)] else []))"

definition emit :: "out_item list \<Rightarrow> ('p, 'q, 'r, 't, 'k) cli_world \<Rightarrow> ('p, 'q, 'r, 't, 'k) cli_world" where
  "emit items w = w\<lparr>cw_out := cw_out w @ items\<rparr>"

text \<open>The handler after its arguments are checked and the profile is loaded.\<close>

definition exec_command ::
  "('p, 'q, 'r, 't, 'k, 'h) cli_env \<Rightarrow> rcpu_client \<Rightarrow> string \<Rightarrow> bool \<Rightarrow> string list \<Rightarrow>
   ('p, 'q, 'r, 't, 'k, int) cli" where
  "exec_command E c workspace json command w =
     (let pr = exec_printer E;
          w = (if json then emit [start_json workspace command] w else w);
          (res, router, net) = runner_Run (ce_rcpu E) c workspace command (router_Write pr)
            (newExecOutputRouter json []) (cw_net w);
          w = w\<lparr>cw_net := net\<rparr>;
          flushed = router_Flush pr router;
          printed = (\<lambda>r. map OutEvent (stdout r))
      in (case res of
            None \<Rightarrow> (None, emit (printed router) w)
          | Some (Inl e) \<Rightarrow>
              (if is_panic e then (Some (Inl e), emit (printed router) w)
               else (Some (Inl e), emit (printed (snd flushed) @
                 (if json then [client_error_json e] else [])) w))
          | Some (Inr result) \<Rightarrow>
              (case flushed of
                 (Some e, router) \<Rightarrow> (Some (Inl e), emit (printed router) w)
               | (None, router) \<Rightarrow>
                   (Some (Inr (ExitCode result)), emit (printed router @
                     (if json then [exit_json result (ce_duration E) (warnings router)] else [])) w))))"

definition execRemote ::
  "('p, 'q, 'r, 't, 'k, 'h) cli_env \<Rightarrow> string list \<Rightarrow> ('p, 'q, 'r, 't, 'k, int) cli" where
  "execRemote E args =
     andThen (done_with (parse_flags agent_flags args)) (\<lambda>(fl, rest).
     (let profileName = flag_string fl ''profile''; agentID = flag_string fl ''agent-id'' in
     andThen (require (agentID \<noteq> []) ''exec requires --agent-id'') (\<lambda>_.
     andThen (done_with (ValidateAgentID agentID)) (\<lambda>_.
     (let cmdArgs = (if length rest > 0 \<and> hd rest = [dash, dash] then tl rest else rest) in
     andThen (require (cmdArgs \<noteq> []) ''exec requires a command after --'') (\<lambda>_.
     andThen (done_with (loadProfile E profileName)) (\<lambda>(cfg, prof, sec).
       exec_command E (tls_NewClient prof sec) (RemoteRoot prof agentID) (flag_bool fl ''json'') cmdArgs)))))))"

subsection \<open>main\<close>

definition run_cmd ::
  "('p, 'q, 'r, 't, 'k, 'h) cli_env \<Rightarrow> cmd \<Rightarrow> string list \<Rightarrow> ('p, 'q, 'r, 't, 'k, int) cli" where
  "run_cmd E c = (case c of
      ProfileVerify \<Rightarrow> profileVerify E | WorkspaceCreate \<Rightarrow> workspaceCreate E
    | WorkspaceDelete \<Rightarrow> workspaceDelete E | WorkspacePath \<Rightarrow> workspacePath E
    | WorkspaceStatus \<Rightarrow> workspaceStatus E | MountWorkspace \<Rightarrow> mountWorkspace E
    | UnmountWorkspace \<Rightarrow> unmountWorkspace E | ExecRemote \<Rightarrow> execRemote E
    | PrintVersion \<Rightarrow> printVersion E | ServeMount \<Rightarrow> serveMount E)"

text \<open>
  The exit code and what goes to standard error; \<open>None\<close> when the process does not end. An
  \<open>exitCodeError\<close> is silent, a panic ends the process with code 2.
\<close>

definition go_main ::
  "('p, 'q, 'r, 't, 'k, 'h) cli_env \<Rightarrow> string list \<Rightarrow> ('p, 'q, 'r, 't, 'k) cli_world \<Rightarrow>
   (int \<times> string) option \<times> ('p, 'q, 'r, 't, 'k) cli_world" where
  "go_main E args w =
     (case (case dispatch args commands of
              Inl e \<Rightarrow> (Some (Inl e), w)
            | Inr (c, rest) \<Rightarrow> run_cmd E c rest w) of
        (None, w) \<Rightarrow> (None, w)
      | (Some (Inr n), w) \<Rightarrow> (Some (n, []), w)
      | (Some (Inl e), w) \<Rightarrow>
          (Some (if is_panic e then 2 else 1, error_text e @ [newline]), w))"

subsection \<open>What exec prints and returns\<close>

lemma run_outcome_Inl [simp]: "run_outcome (Some e) p = Inl e"
  by (simp add: run_outcome_def)

lemma exec_printer_record: "\<forall>x. ce_stdout E x = None \<Longrightarrow> exec_printer E = record_event"
  by (intro ext) (simp add: exec_printer_def record_event_def)

text \<open>The result of a stream that ends with \<open>fin\<close>, by the specification of the marker.\<close>

definition stream_result :: "go_error option \<Rightarrow> bytes \<Rightarrow> exec_result result" where
  "stream_result fin S =
     (case fin of
        Some e \<Rightarrow> Inl e
      | None \<Rightarrow>
          (case scan_exit S of
             None \<Rightarrow> Inl (ErrorString ''remote session ended before exit sentinel'')
           | Some (v, st) \<Rightarrow> Inr \<lparr>ExitCode = (if st = [] then 0 else 1), RemoteStatus = st\<rparr>))"

text \<open>A remote side that takes the script and whose output ends.\<close>

definition remote_streams ::
  "('p, 'q, 'r, 't) rcpu_env \<Rightarrow> rcpu_client \<Rightarrow> string \<Rightarrow> ('p, 'q, 'r, 't) rcpu_world \<Rightarrow> bytes list \<Rightarrow>
   go_error option \<Rightarrow> bool" where
  "remote_streams R c script n chunks fin \<longleftrightarrow>
     (\<exists>n1 tc. validateSecret c = Inr () \<and> connectTLS R c n = (Some (Inr ()), n1) \<and>
        conn_write (tls_react R) (script_frame script) (the (tls n1)) = (None, tc) \<and>
        read_chunks (ctx_Err R) (tls_Reads R (CloseWrite R tc)) = Some (chunks, fin))"

lemma runner_streams:
  assumes "remote_streams R c (BuildScript ws cmd) n chunks fin" and "pending r0 = []"
  obtains v r n' where
    "runner_Run R c ws cmd (router_Write record_event) r0 n = (Some (stream_result fin (concat chunks)), r, n')"
    and "closed (cpuConn (auth_state n'))" and "routed r0 v r"
    and "\<forall>st. scan_exit (concat chunks) = Some st \<longrightarrow> fst st = v"
proof -
  let ?cb = "run_callback (Some (router_Write record_event))"
  from assms(1) obtain n1 tc where c: "validateSecret c = Inr ()" "connectTLS R c n = (Some (Inr ()), n1)"
    "conn_write (tls_react R) (script_frame (BuildScript ws cmd)) (the (tls n1)) = (None, tc)"
    "read_chunks (ctx_Err R) (tls_Reads R (CloseWrite R tc)) = Some (chunks, fin)"
    by (auto simp: remote_streams_def)
  obtain p r where d: "deliver ?cb chunks fin (new_parser, r0) = (fin, (p, r))"
    and "showing (routed r0) (concat chunks) (p, r)"
    using routed_run.deliver_after [OF showing_start, OF routed_start, OF assms(2), of chunks fin] by auto
  then obtain v where inv: "parser_inv (concat chunks) v p" and r: "routed r0 v r"
    by (auto simp: showing_def)
  let ?n = "close_tls (n1\<lparr>tls := Some (CloseWrite R tc)\<rparr>)"
  have "tls_Exec R c (BuildScript ws cmd) (Some ?cb) (new_parser, r0) n = (Some fin, (p, r), ?n)"
    using exec_delivers [OF c, of ?cb "(new_parser, r0)"] by (simp add: d)
  then have "runner_Run R c ws cmd (router_Write record_event) r0 n = (Some (run_outcome fin p), r, ?n)"
    by (simp add: runner_Run_def)
  moreover have "run_outcome fin p = stream_result fin (concat chunks)"
    using inv by (auto simp: run_outcome_def stream_result_def parser_inv_def parser_Done_def
        parser_Status_def split: option.splits if_splits)
  moreover have "fst st = v" if "scan_exit (concat chunks) = Some st" for st
    using inv that by (auto simp: parser_inv_def split: if_splits)
  ultimately show thesis using r that by simp
qed

text \<open>The events of the visible output.\<close>

definition shown_events :: "bool \<Rightarrow> bytes \<Rightarrow> out_item list" where
  "shown_events j v = map (OutEvent \<circ> line_event j) (filter (\<lambda>l. \<not> is_warning l) (all_lines v))"

definition shown_warnings :: "bytes \<Rightarrow> execWarning list" where
  "shown_warnings v = List.map_filter classifyExecWarning (all_lines v)"

lemma new_router [simp]:
  "pending (newExecOutputRouter j out) = []" "stdout (newExecOutputRouter j out) = out"
  "warnings (newExecOutputRouter j out) = []" "jsonOut (newExecOutputRouter j out) = j"
  by (simp_all add: newExecOutputRouter_def)

lemma exec_command_result:
  assumes print: "\<forall>x. ce_stdout E x = None"
    and stream: "remote_streams (ce_rcpu E) c (BuildScript ws cmd) (cw_net w) chunks fin"
  obtains n' where "closed (cpuConn (auth_state n'))"
    and "\<And>v st. fin = None \<Longrightarrow> scan_exit (concat chunks) = Some (v, st) \<Longrightarrow>
      exec_command E c ws j cmd w =
        (Some (Inr (if st = [] then 0 else 1)),
         w\<lparr>cw_net := n', cw_out := cw_out w @ (if j then [start_json ws cmd] else []) @ shown_events j v @
           (if j then [exit_json \<lparr>ExitCode = (if st = [] then 0 else 1), RemoteStatus = st\<rparr>
              (ce_duration E) (shown_warnings v)] else [])\<rparr>)"
    and "\<And>e. stream_result fin (concat chunks) = Inl e \<Longrightarrow>
      \<exists>out. exec_command E c ws j cmd w = (Some (Inl e), w\<lparr>cw_net := n', cw_out := cw_out w @ out\<rparr>)"
proof -
  let ?r0 = "newExecOutputRouter j [] :: out_event list execOutputRouter"
  obtain v r n' where
    run: "runner_Run (ce_rcpu E) c ws cmd (router_Write record_event) ?r0 (cw_net w) =
      (Some (stream_result fin (concat chunks)), r, n')"
    and closed: "closed (cpuConn (auth_state n'))" and r: "routed ?r0 v r"
    and v: "\<forall>st. scan_exit (concat chunks) = Some st \<longrightarrow> fst st = v"
    by (rule runner_streams [OF stream new_router(1)])
  note pr = exec_printer_record [OF print]
  note fl = routed_flush [OF r]
  show thesis
  proof (rule that [OF closed])
    fix v' st
    assume fin: "fin = None" and scan: "scan_exit (concat chunks) = Some (v', st)"
    with v have "v' = v" by fastforce
    with run fin scan fl show "exec_command E c ws j cmd w =
        (Some (Inr (if st = [] then 0 else 1)),
         w\<lparr>cw_net := n', cw_out := cw_out w @ (if j then [start_json ws cmd] else []) @ shown_events j v' @
           (if j then [exit_json \<lparr>ExitCode = (if st = [] then 0 else 1), RemoteStatus = st\<rparr>
              (ce_duration E) (shown_warnings v')] else [])\<rparr>)"
      by (cases j) (simp_all add: exec_command_def pr emit_def stream_result_def foldl_handle_stdout foldl_handle_warnings
        shown_events_def shown_warnings_def)
  next
    fix e
    assume "stream_result fin (concat chunks) = Inl e"
    with run fl show "\<exists>out. exec_command E c ws j cmd w = (Some (Inl e), w\<lparr>cw_net := n', cw_out := cw_out w @ out\<rparr>)"
      by (cases j) (auto simp: exec_command_def pr emit_def Let_def)
  qed
qed

subsection \<open>The command line\<close>

text \<open>What a user types: \<open>exec --profile p --agent-id a [--json] -- command\<close>.\<close>

definition exec_line :: "string \<Rightarrow> string \<Rightarrow> bool \<Rightarrow> string list \<Rightarrow> string list" where
  "exec_line p a j cmd =
     ''exec'' # string_flags [(''profile'', p), (''agent-id'', a)] @ (if j then [''--json''] else []) @
     [dash, dash] # cmd"

lemma exec_flags:
  "\<exists>fl. parse_flags agent_flags (drop 1 (exec_line p a j cmd)) = Inr (fl, cmd) \<and>
     flag_string fl ''profile'' = p \<and> flag_string fl ''agent-id'' = a \<and> flag_bool fl ''json'' = j"
proof -
  let ?fl = "fold set_string [(''profile'', p), (''agent-id'', a)] agent_flags"
  have fl: "?fl = \<lparr>fl_strings = [(''profile'', p), (''agent-id'', a)], fl_bools = [(''json'', False)]\<rparr>"
    by (simp add: set_string_def agent_flags_def)
  let ?rest = "(if j then [''--json''] else []) @ [dash, dash] # cmd"
  have "parse_flags agent_flags (drop 1 (exec_line p a j cmd)) =
      parse_flags agent_flags (string_flags [(''profile'', p), (''agent-id'', a)] @ ?rest)"
    by (simp add: exec_line_def)
  also have "\<dots> = parse_flags ?fl ?rest"
    by (rule parse_string_flags) (simp add: plain_name_def dash_def agent_flags_def)
  also have "\<dots> = Inr (?fl\<lparr>fl_bools := [(''json'', j)]\<rparr>, cmd)"
    unfolding fl
    by (subst parse_flags.simps) (simp add: parse_one_def split_value_def IndexByte_None [THEN iffD2]
      set_flag_def Let_def dash_def parse_flags_end [unfolded dash_def])
  finally show ?thesis unfolding fl by (simp add: flag_string_def flag_bool_def)
qed

lemma exec_dispatch: "dispatch (exec_line p a j cmd) commands = Inr (ExecRemote, drop 1 (exec_line p a j cmd))"
  by (simp add: exec_line_def dispatch_def commands_def string_flags_def dash_def)

subsection \<open>Property\<close>


text \<open>A remote command that prints \<open>hi\<close> and fails, read in awkward chunks.\<close>

definition demo_stream :: "bytes list" where
  "demo_stream = [''hi'' @ take 4 sentinelPrefix, drop 4 sentinelPrefix @ '' x'', [newline]]"

definition demo_exec_env :: "(bytes list, bytes list, nat, bytes list, unit, unit) cli_env" where
  "demo_exec_env = demo_cli\<lparr>ce_rcpu := demo_rcpu\<lparr>tls_Reads :=
     (\<lambda>_. map (\<lambda>c. (c, None)) demo_stream @ [([], Some IoEOF)])\<rparr>\<rparr>"


end
