(* ===== verification/Cli_Delete.thy ===== *)
theory Cli_Delete
  imports Cli_Commands
begin

text \<open>
  What \<open>workspace delete\<close> guarantees: the report tells the truth about the steps, success
  means that nothing is left, and a failure keeps the metadata that a second attempt needs.
\<close>

subsection \<open>Runs that return\<close>

lemma catching_Inr:
  "catching m k w = (Some (Inr v), w') \<longleftrightarrow>
     (\<exists>x w1. m w = (Some (Inr x), w1) \<and> k (Inr x) w1 = (Some (Inr v), w')) \<or>
     (\<exists>e w1. m w = (Some (Inl e), w1) \<and> \<not> is_panic e \<and> k (Inl e) w1 = (Some (Inr v), w'))"
  by (auto simp: catching_def split: prod.splits option.splits sum.splits)

lemma return_Inr [simp]: "return x w = (Some (Inr v), w') \<longleftrightarrow> v = x \<and> w' = w"
  by (auto simp: return_def)

lemma on_local_Some:
  "on_local f w = (Some r, w') \<longleftrightarrow> (\<exists>s. f (cw_fs w) = (r, s) \<and> w' = w\<lparr>cw_fs := s\<rparr>)"
  by (auto simp: on_local_def split: prod.splits)

lemma on_net_Some:
  "on_net m w = (Some r, w') \<longleftrightarrow> (\<exists>n. m (cw_net w) = (Some r, n) \<and> w' = w\<lparr>cw_net := n\<rparr>)"
  by (auto simp: on_net_def split: prod.splits)

lemma on_mounts_Some:
  "on_mounts f w = (Some r, w') \<longleftrightarrow>
     (\<exists>s k. f (cw_fs w) (cw_kernel w) = (r, s, k) \<and> w' = w\<lparr>cw_fs := s, cw_kernel := k\<rparr>)"
  by (auto simp: on_mounts_def split: prod.splits)

lemmas run_Inr = andThen_Inr catching_Inr on_local_Some on_net_Some on_mounts_Some

subsection \<open>The metadata file\<close>

definition stored :: "manager \<Rightarrow> agent_key \<Rightarrow> string \<Rightarrow> content local_fs \<Rightarrow> bool" where
  "stored m k rroot s \<longleftrightarrow>
     (\<exists>meta. manager_Load m (fst k) (snd k) s = Inr meta \<and> meta_key meta = k \<and> m_RemoteRoot meta = rroot)"

definition not_stored :: "manager \<Rightarrow> agent_key \<Rightarrow> content local_fs \<Rightarrow> bool" where
  "not_stored m k s \<longleftrightarrow> (\<exists>e. manager_Load m (fst k) (snd k) s = Inl e \<and> errors_Is e OsErrNotExist)"

lemma failed_save_keeps:
  assumes "agent_key_ok k" "m \<noteq> []" "meta_key meta = k" "manager_Save m meta s = (Inl e, s')"
  shows "manager_Load m (fst k) (snd k) s' = manager_Load m (fst k) (snd k) s"
proof -
  let ?p = "manager_path m (fst k) (snd k)"
  have d: "length (snd (lp (path_Dir ?p))) < length (snd (lp ?p))"
    using lp_manager_dir [OF assms(1), of m] lp_manager_path [OF assms(1), of m] assms(2) by simp
  from assms(3,4) have "s' = snd (os_MkdirAll (path_Dir ?p) 0x1ED s)"
    by (auto simp: manager_Save_def meta_key_def Let_def os_WriteFile_def split: prod.splits sum.splits
        option.splits fnode.splits if_splits)
  then show ?thesis by (simp add: manager_Load_def ReadFile_MkdirAll [OF d])
qed

lemma Delete_gone:
  assumes "fs_ok s" "manager_Delete m (fst k) (snd k) s = (r, s')"
    and "\<And>e. r = Inl e \<Longrightarrow> errors_Is e OsErrNotExist"
  shows "not_stored m k s'"
proof (cases r)
  case (Inr u)
  with assms show ?thesis
    using Remove_read [OF assms(1)] by (fastforce simp: manager_Delete_def manager_Load_def not_stored_def)
next
  case (Inl e)
  with assms(2,3) have r: "os_Remove (manager_path m (fst k) (snd k)) s = (Inl e, s')"
    and e: "errors_Is e OsErrNotExist" by (simp_all add: manager_Delete_def)
  from r have "s' = s" by (auto simp: os_Remove_def Let_def split: option.splits fnode.splits if_splits)
  moreover have "\<exists>e. os_ReadFile (manager_path m (fst k) (snd k)) s = Inl e \<and> errors_Is e OsErrNotExist"
    using r e
    by (auto simp: os_Remove_def os_ReadFile_def path_error_def Let_def ENOTDIR_def
        split: option.splits fnode.splits if_splits)
  ultimately show ?thesis by (auto simp: not_stored_def manager_Load_def)
qed

lemma failed_Delete_keeps:
  "manager_Delete m p a s = (Inl e, s') \<Longrightarrow> s' = s"
  by (auto simp: manager_Delete_def os_Remove_def Let_def split: option.splits fnode.splits if_splits)

subsection \<open>Stopping a mount keeps the metadata\<close>

text \<open>Neither the state directory nor the runtime directory lies inside the other.\<close>

definition roots_apart :: "manager \<Rightarrow> string \<Rightarrow> bool" where
  "roots_apart m runtimeRoot \<longleftrightarrow>
     (let (a, ms) = lp m; (b, rs) = lp (NewRuntime runtimeRoot)
      in a \<noteq> b \<or> (\<not> prefix ms rs \<and> \<not> prefix rs ms))"

text \<open>A helper that is told to end changes only its own state.\<close>

definition helper_keeps :: "'k proc_env \<Rightarrow> manager \<Rightarrow> agent_key \<Rightarrow> bool" where
  "helper_keeps P m k \<longleftrightarrow>
     (\<forall>pid s. \<forall>s' \<in> set (pe_after_term P pid s).
        manager_Load m (fst k) (snd k) s' = manager_Load m (fst k) (snd k) s \<and> (fs_ok s \<longrightarrow> fs_ok s'))"

definition keeps_metadata :: "manager \<Rightarrow> agent_key \<Rightarrow> content local_fs \<Rightarrow> content local_fs \<Rightarrow> bool" where
  "keeps_metadata m k s s' \<longleftrightarrow>
     manager_Load m (fst k) (snd k) s' = manager_Load m (fst k) (snd k) s \<and> (fs_ok s \<longrightarrow> fs_ok s')"

lemma keeps_metadata_refl [simp]: "keeps_metadata m k s s"
  by (simp add: keeps_metadata_def)

lemma keeps_metadata_trans: "keeps_metadata m k s t \<Longrightarrow> keeps_metadata m k t u \<Longrightarrow> keeps_metadata m k s u"
  by (simp add: keeps_metadata_def)

lemma runtime_path_apart:
  assumes "agent_key_ok k" "m \<noteq> []" "roots_apart m root" "path_name x"
  shows "lp (path_Join [NewRuntime root, x]) \<noteq>
    (fst (lp (manager_path m (fst k) (snd k))), take n (snd (lp (manager_path m (fst k) (snd k)))))"
proof
  assume e: "lp (path_Join [NewRuntime root, x]) =
    (fst (lp (manager_path m (fst k) (snd k))), take n (snd (lp (manager_path m (fst k) (snd k)))))"
  have r: "lp (path_Join [NewRuntime root, x]) = (fst (lp (NewRuntime root)), snd (lp (NewRuntime root)) @ [x])"
    using lp_path_Join [OF NewRuntime_nonempty, of "[x]"] assms(4) by simp
  have m: "lp (manager_path m (fst k) (snd k)) = (fst (lp m), snd (lp m) @ [fst k, snd k @ ''.json''])"
    using lp_manager_path [OF assms(1), of m] assms(2) by simp
  from e [unfolded r m] have f: "fst (lp (NewRuntime root)) = fst (lp m)"
    and "snd (lp (NewRuntime root)) @ [x] = take n (snd (lp m) @ [fst k, snd k @ ''.json''])" by auto
  then have "prefix (snd (lp (NewRuntime root))) (snd (lp m) @ [fst k, snd k @ ''.json''])"
    by (metis append_prefixD take_is_prefix)
  then have "prefix (snd (lp (NewRuntime root))) (snd (lp m)) \<or> prefix (snd (lp m)) (snd (lp (NewRuntime root)))"
    by (metis prefix_append prefixI)
  with f assms(3) show False by (simp add: roots_apart_def split: prod.splits)
qed

lemma runtime_Remove_keeps:
  assumes "agent_key_ok k" "m \<noteq> []" "roots_apart m root" "path_name x"
  shows "keeps_metadata m k s (snd (os_Remove (path_Join [NewRuntime root, x]) s))"
proof -
  let ?q = "path_Join [NewRuntime root, x]" and ?p = "manager_path m (fst k) (snd k)"
  have n: "node (snd (os_Remove ?q s)) (fst (lp ?p), take i (snd (lp ?p))) =
      node s (fst (lp ?p), take i (snd (lp ?p)))" for i
    using runtime_path_apart [OF assms, of i] by (metis Remove_node)
  have "os_ReadFile ?p (snd (os_Remove ?q s)) = os_ReadFile ?p s"
    using n [of "length (snd (lp ?p))"] n by (intro ReadFile_cong) simp_all
  then show ?thesis by (simp add: keeps_metadata_def manager_Load_def fs_ok_Remove)
qed

lemma ClearStale_keeps:
  assumes "agent_key_ok k" "m \<noteq> []" "roots_apart m root"
  shows "keeps_metadata m k s (snd (ClearStale sha256 kill (NewRuntime root) mp s))"
proof -
  note rm = runtime_Remove_keeps [OF assms state_file_name(1), of _ sha256 mp]
    runtime_Remove_keeps [OF assms state_file_name(2), of _ sha256 mp]
  have d: "keeps_metadata m k t (snd (runtime_Delete sha256 (NewRuntime root) mp t))" for t
    using rm(1) [of t]
    by (cases "os_Remove (path_Join [NewRuntime root, stateKey sha256 mp @ ''.json'']) t")
      (auto simp: runtime_Delete_def statePath_def split: sum.split)
  have "keeps_metadata m k s
      (snd (runtime_Delete sha256 (NewRuntime root) mp (snd (os_Remove (LogPath sha256 (NewRuntime root) mp) s))))"
    using keeps_metadata_trans [OF rm(2) [of s] d] by (simp add: LogPath_def)
  then show ?thesis
    by (auto simp: ClearStale_def Let_def split: sum.splits prod.splits)
qed

lemma wait_gone_from:
  "snd (wait_gone sha256 r mp looks s) \<in> insert s (set looks)"
proof (induction looks arbitrary: s)
  case (Cons look looks)
  from Cons [of look] show ?case by (auto split: sum.split)
qed simp

lemma stop_keeps:
  assumes k: "agent_key_ok k" "m \<noteq> []" "roots_apart m root" and h: "helper_keeps P m k"
    and stop: "stopDetachedMount P root mp s n = (r, s', n')"
  shows "keeps_metadata m k s s'"
proof -
  have w: "keeps_metadata m k s t"
    if "wait_gone (pe_sha256 P) (NewRuntime root) mp (pe_after_term P pid s) s = (b, t)" for b t pid
    using wait_gone_from [of "pe_sha256 P" "NewRuntime root" mp "pe_after_term P pid s" s] that h
    by (auto simp: helper_keeps_def keeps_metadata_def)
  let ?waited = "case runtime_Load (pe_sha256 P) (NewRuntime root) mp s of
      Inr state \<Rightarrow>
        (if ms_PID state > 0 \<and> ProcessExists (pe_kill P) (ms_PID state)
         then wait_gone (pe_sha256 P) (NewRuntime root) mp (pe_after_term P (ms_PID state) s) s
         else (False, s))
    | Inl _ \<Rightarrow> (False, s)"
  obtain b t where t: "?waited = (b, t)" by (cases ?waited)
  then have st: "keeps_metadata m k s t" using w by (auto split: sum.splits if_splits)
  have "s' = s \<or> s' = t \<or> s' = snd (ClearStale (pe_sha256 P) (pe_kill P) (NewRuntime root) mp t)"
    using stop unfolding stopDetachedMount_def Let_def t
    by (auto split: sum.splits if_splits prod.splits)
  with st keeps_metadata_trans [OF st ClearStale_keeps [OF k]] show ?thesis by auto
qed

subsection \<open>Loading and refreshing keep the metadata\<close>

lemma Save_fs_ok: "m \<noteq> [] \<Longrightarrow> fs_ok s \<Longrightarrow> fs_ok (snd (manager_Save m meta s))"
  using agents.good_save [where m = m and k = "meta_key meta" and v = meta and s = s] by simp

lemma save_and_return_fs_ok:
  "m \<noteq> [] \<Longrightarrow> fs_ok s \<Longrightarrow> save_and_return m meta s = (r, s') \<Longrightarrow> fs_ok s'"
  using Save_fs_ok [of m s meta] by (auto simp: save_and_return_def split: prod.splits sum.splits)

lemma save_and_return_stored:
  assumes "agent_key_ok k" "m \<noteq> []" "meta_key meta = k" "m_RemoteRoot meta = rroot"
    and "save_and_return m meta s = (r, s')" "stored m k rroot s"
  shows "stored m k rroot s'"
proof (cases r)
  case (Inl e)
  with assms(5) have "manager_Save m meta s = (Inl e, s')"
    by (auto simp: save_and_return_def split: prod.splits sum.splits)
  from failed_save_keeps [OF assms(1-3) this] assms(6) show ?thesis by (simp add: stored_def)
next
  case (Inr meta')
  with save_and_return_Load [of m meta s meta' s'] assms(3-5) show ?thesis
    by (auto simp: stored_def meta_key_def)
qed

lemma load_effect:
  assumes "agent_key_ok (p, a)" "m \<noteq> []"
    and "loadWorkspaceMetadata sha256 kill now root m prof p a s = (r, s')"
  shows "fs_ok s \<Longrightarrow> fs_ok s'"
    and "stored m (p, a) rroot s \<Longrightarrow> s' = s \<and> r = manager_Load m p a s"
    and "r = Inl e \<Longrightarrow> errors_Is e OsErrNotExist \<Longrightarrow> not_stored m (p, a) s'"
proof -
  show "fs_ok s \<Longrightarrow> fs_ok s'"
    using assms(2,3) save_and_return_fs_ok
    by (auto simp: loadWorkspaceMetadata_def Let_def split: sum.splits option.splits if_splits)
  show "stored m (p, a) rroot s \<Longrightarrow> s' = s \<and> r = manager_Load m p a s"
    using assms(3) by (auto simp: loadWorkspaceMetadata_def stored_def)
  assume e: "r = Inl e" "errors_Is e OsErrNotExist"
  have failed: "manager_Load m p a s' = manager_Load m p a s"
    if "save_and_return m meta s = (Inl e, s')" "meta_key meta = (p, a)" for meta
    using failed_save_keeps [OF assms(1,2) that(2)] that(1)
    by (auto simp: save_and_return_def split: prod.splits sum.splits)
  show "not_stored m (p, a) s'"
    using assms(3) e failed
    by (auto simp: loadWorkspaceMetadata_def not_stored_def Let_def meta_key_def
        split: sum.splits option.splits if_splits)
qed

lemma refresh_effect:
  assumes "agent_key_ok k" "m \<noteq> []"
    and "refreshWorkspaceMetadata sha256 kill root m meta s = (r, s')"
  shows "fs_ok s \<Longrightarrow> fs_ok s'"
    and "stored m k rroot s \<Longrightarrow> meta_key meta = k \<Longrightarrow> m_RemoteRoot meta = rroot \<Longrightarrow> stored m k rroot s'"
proof -
  let ?clr = "meta\<lparr>m_Mounted := False, m_MountPID := 0, m_Mountpoint := []\<rparr>"
  have s': "s' = s \<or> (\<exists>st. save_and_return m (adopt_state st meta) s = (r, s')) \<or>
      save_and_return m ?clr s = (r, s')"
    using assms(3) by (auto simp: refreshWorkspaceMetadata_def Let_def split: if_splits sum.splits option.splits)
  then show "fs_ok s \<Longrightarrow> fs_ok s'" using save_and_return_fs_ok [OF assms(2)] by blast
  assume st: "stored m k rroot s" "meta_key meta = k" "m_RemoteRoot meta = rroot"
  have "meta_key (adopt_state x meta) = k" "m_RemoteRoot (adopt_state x meta) = rroot"
    "meta_key ?clr = k" "m_RemoteRoot ?clr = rroot" for x
    using st(2,3) by (simp_all add: adopt_state_def meta_key_def)
  then show "stored m k rroot s'"
    using s' st(1) save_and_return_stored [OF assms(1,2)] by blast
qed

lemma clear_effect:
  assumes "agent_key_ok (p, a)" "m \<noteq> []" "clearWorkspaceMountState m p a s = (r, s')"
    and "stored m (p, a) rroot s"
  shows "stored m (p, a) rroot s'"
proof -
  from assms(4) obtain meta where meta: "manager_Load m p a s = Inr meta" "meta_key meta = (p, a)"
    "m_RemoteRoot meta = rroot" by (auto simp: stored_def)
  let ?clr = "meta\<lparr>m_Mounted := False, m_MountPID := 0, m_Mountpoint := []\<rparr>"
  have k: "meta_key ?clr = (p, a)" "m_RemoteRoot ?clr = rroot" using meta by (simp_all add: meta_key_def)
  from assms(3) meta(1) have save: "manager_Save m ?clr s = (r, s')"
    by (simp add: clearWorkspaceMountState_def)
  then have "save_and_return m ?clr s = (bind_result r (\<lambda>_. Inr ?clr), s')"
    by (cases r) (simp_all add: save_and_return_def)
  from save_and_return_stored [OF assms(1,2) k this assms(4)] show ?thesis .
qed

subsection \<open>The steps of a delete\<close>

lemma lookup_step:
  assumes "agent_key_ok (p, a)" "m \<noteq> []"
    and "delete_lookup E m prof p a r w = (Some (Inr (report, found)), w1)"
  shows "cw_net w1 = cw_net w"
    and "fs_ok (cw_fs w) \<Longrightarrow> fs_ok (cw_fs w1)"
    and "stored m (p, a) rroot (cw_fs w) \<Longrightarrow> stored m (p, a) rroot (cw_fs w1)"
    and "(\<exists>e. found = None \<and> report = r\<lparr>dr_MetadataLookup := errorStep e, dr_OK := False\<rparr>) \<or>
      found = None \<and> not_stored m (p, a) (cw_fs w1) \<and>
        report = r\<lparr>dr_MetadataLookup := skippedStep ''workspace metadata not found''\<rparr> \<or>
      (\<exists>rroot. found \<noteq> None \<and> report = r\<lparr>dr_MetadataLookup := okStep, dr_RemoteRoot := rroot\<rparr>)"
proof -
  let ?load = "loadWorkspaceMetadata (pe_sha256 (ce_proc E)) (pe_kill (ce_proc E)) (ce_now E)
    (ce_runtimeRoot E) m prof p a"
  let ?refresh = "refreshWorkspaceMetadata (pe_sha256 (ce_proc E)) (pe_kill (ce_proc E)) (ce_runtimeRoot E) m"
  consider (missing) e s where "?load (cw_fs w) = (Inl e, s)" "w1 = w\<lparr>cw_fs := s\<rparr>" "found = None"
      "if errors_Is e OsErrNotExist
       then report = r\<lparr>dr_MetadataLookup := skippedStep ''workspace metadata not found''\<rparr>
       else report = r\<lparr>dr_MetadataLookup := errorStep e, dr_OK := False\<rparr>"
    | (failed) meta s e t where "?load (cw_fs w) = (Inr meta, s)" "?refresh meta s = (Inl e, t)"
        "w1 = w\<lparr>cw_fs := t\<rparr>" "found = None"
        "report = r\<lparr>dr_MetadataLookup := errorStep e, dr_OK := False\<rparr>"
    | (found) meta s meta' t where "?load (cw_fs w) = (Inr meta, s)" "?refresh meta s = (Inr meta', t)"
        "w1 = w\<lparr>cw_fs := t\<rparr>" "found = Some meta'"
        "\<exists>rroot. report = r\<lparr>dr_MetadataLookup := okStep, dr_RemoteRoot := rroot\<rparr>"
  proof -
    obtain x s where load: "?load (cw_fs w) = (x, s)" by (cases "?load (cw_fs w)")
    note unfolded = assms(3) [unfolded delete_lookup_def Let_def]
    show thesis
    proof (cases x)
      case (Inl e)
      with unfolded load missing [of e s] show thesis
        by (cases "is_panic e") (auto simp: catching_def on_local_def split: if_splits)
    next
      case (Inr meta)
      obtain y t where ref: "?refresh meta s = (y, t)" by (cases "?refresh meta s")
      show thesis
      proof (cases y)
        case (Inl e)
        with unfolded load Inr ref failed [of meta s e t] show thesis
          by (cases "is_panic e") (auto simp: catching_def on_local_def)
      next
        case (Inr meta')
        with unfolded load \<open>x = Inr meta\<close> ref found [of meta s meta' t] show thesis
          by (auto simp: catching_def on_local_def)
      qed
    qed
  qed
  note cases = this
  have refreshed: "(fs_ok (cw_fs w) \<longrightarrow> fs_ok t) \<and> (stored m (p, a) rroot (cw_fs w) \<longrightarrow> stored m (p, a) rroot t)"
    if "?load (cw_fs w) = (Inr meta, s)" "?refresh meta s = (x, t)" for meta s x t
    using load_effect(1,2) [OF assms(1,2) that(1)] refresh_effect [OF assms(1,2) that(2)]
    by (auto simp: stored_def)
  have kept: "stored m (p, a) rroot (cw_fs w) \<longrightarrow> stored m (p, a) rroot s"
    if "?load (cw_fs w) = (x, s)" for x s
    using load_effect(2) [OF assms(1,2) that] by auto
  show "cw_net w1 = cw_net w" using cases by cases simp_all
  show "fs_ok (cw_fs w) \<Longrightarrow> fs_ok (cw_fs w1)"
    using cases load_effect(1) [OF assms(1,2)] refreshed by cases auto
  show "stored m (p, a) rroot (cw_fs w) \<Longrightarrow> stored m (p, a) rroot (cw_fs w1)"
    using cases kept refreshed by cases auto
  show "(\<exists>e. found = None \<and> report = r\<lparr>dr_MetadataLookup := errorStep e, dr_OK := False\<rparr>) \<or>
      found = None \<and> not_stored m (p, a) (cw_fs w1) \<and>
        report = r\<lparr>dr_MetadataLookup := skippedStep ''workspace metadata not found''\<rparr> \<or>
      (\<exists>rroot. found \<noteq> None \<and> report = r\<lparr>dr_MetadataLookup := okStep, dr_RemoteRoot := rroot\<rparr>)"
    using cases load_effect(3) [OF assms(1,2)] by cases (auto split: if_splits)
qed

lemma unmount_step:
  assumes "agent_key_ok k" "m \<noteq> []" "roots_apart m (ce_runtimeRoot E)" "helper_keeps (ce_proc E) m k"
    and "delete_unmount E found r w = (Some (Inr (report, ok)), w1)"
  shows "cw_net w1 = cw_net w" and "keeps_metadata m k (cw_fs w) (cw_fs w1)"
    and "(\<exists>reason. report = r\<lparr>dr_Unmount := skippedStep reason\<rparr> \<and> ok = (found \<noteq> None)) \<or>
      (\<exists>e. report = r\<lparr>dr_Unmount := errorStep e, dr_OK := False\<rparr> \<and> \<not> ok) \<or>
      found \<noteq> None \<and> report = r\<lparr>dr_Unmount := okStep\<rparr> \<and> ok"
  using assms(5) stop_keeps [OF assms(1-4)]
  by (auto simp: delete_unmount_def stop_mount_def run_Inr split: option.splits if_splits)

lemma remote_step:
  assumes "delete_remote E c r w = (Some (Inr report), w1)"
  obtains err where "RemoveRemoteTree (ce_rcpu E) c (dr_RemoteRoot r) (cw_net w) = (Some err, (), cw_net w1)"
    and "cw_fs w1 = cw_fs w"
    and "report = (case err of None \<Rightarrow> r\<lparr>dr_RemoteDelete := okStep\<rparr>
      | Some e \<Rightarrow> r\<lparr>dr_RemoteDelete := errorStep e, dr_OK := False\<rparr>)"
  using assms that
  by (auto simp: delete_remote_def run_Inr as_run_def error_result_def split: prod.splits option.splits)

lemma metadata_step:
  assumes "agent_key_ok (p, a)" "m \<noteq> []"
    and "delete_metadata m p a found ok r w = (Some (Inr report), w1)"
  shows "cw_net w1 = cw_net w"
    and "(\<exists>reason. report = r\<lparr>dr_Metadata := skippedStep reason\<rparr> \<and> cw_fs w1 = cw_fs w \<and>
        \<not> (found \<and> step_Status (dr_RemoteDelete r) = stepOK \<and> ok)) \<or>
      report = r\<lparr>dr_Metadata := \<lparr>step_Status = ''deleted'', step_Error = []\<rparr>\<rparr> \<and> found \<and> ok \<and>
        step_Status (dr_RemoteDelete r) = stepOK \<and> (fs_ok (cw_fs w) \<longrightarrow> not_stored m (p, a) (cw_fs w1)) \<or>
      found \<and> ((\<exists>e. report = r\<lparr>dr_Metadata := errorStep e, dr_OK := False\<rparr>) \<or>
        report = r\<lparr>dr_Metadata := \<lparr>step_Status = ''updated'', step_Error = []\<rparr>\<rparr> \<and>
          \<not> (step_Status (dr_RemoteDelete r) = stepOK \<and> ok)) \<and>
        (\<forall>rroot. stored m (p, a) rroot (cw_fs w) \<longrightarrow> stored m (p, a) rroot (cw_fs w1))"
  using assms(3) clear_effect [OF assms(1,2)] failed_Delete_keeps [of m p a "cw_fs w"]
    Delete_gone [of "cw_fs w" m "(p, a)"]
  by (auto simp: delete_metadata_def run_Inr split: if_splits)

lemma finish_simps [simp]:
  "dr_OK (finish r) = dr_OK r" "delete_steps (finish r) = delete_steps r"
  "dr_RemoteRoot (finish r) = dr_RemoteRoot r" "dr_RemoteDelete (finish r) = dr_RemoteDelete r"
  "dr_Unmount (finish r) = dr_Unmount r" "dr_Metadata (finish r) = dr_Metadata r"
  by (simp_all add: finish_def delete_steps_def Let_def)

lemma finish_Error: "dr_Error (finish r) = [] \<longleftrightarrow> dr_OK r"
proof -
  have "Join (map (\<lambda>(name, res). name @ '': '' @ step_Error res) xs) ''; '' \<noteq> []" if "xs \<noteq> []" for xs
    using that by (cases xs; cases "tl xs") auto
  then show ?thesis by (auto simp: finish_def Let_def)
qed

text \<open>A report is consistent: it is good exactly when no step has an error.\<close>

definition consistent :: "workspaceDeleteReport \<Rightarrow> bool" where
  "consistent r \<longleftrightarrow> (dr_OK r \<longleftrightarrow> (\<forall>(name, step) \<in> set (delete_steps r). step_Status step \<noteq> ''error''))"

lemmas step_defs = okStep_def skippedStep_def errorStep_def stepOK_def

lemma consistent_steps:
  "consistent r \<longleftrightarrow> (dr_OK r \<longleftrightarrow> step_Status (dr_MetadataLookup r) \<noteq> ''error'' \<and>
     step_Status (dr_Unmount r) \<noteq> ''error'' \<and> step_Status (dr_RemoteDelete r) \<noteq> ''error'' \<and>
     step_Status (dr_Metadata r) \<noteq> ''error'')"
  by (auto simp: consistent_def delete_steps_def)

subsection \<open>Property\<close>


lemma demo_world_ok: "fs_ok (cw_fs demo_cli_world)"
  using Save_fs_ok [of "''/state''" _ demo_meta] mounts.good_save [OF fs_ok_empty, of "\<lambda>b. b" 9
        "''/run''" "''/mnt''" "\<lparr>ms_Profile = ''home'', ms_AgentID = ''a1'', ms_Mountpoint = ''/mnt'', ms_PID = 7,
          ms_Status = MountStatusMounted, ms_Error = [], ms_UpdatedAt = 0\<rparr>"]
  by (simp add: demo_cli_world_def demo_fs_def empty_fs_def)


end
