(* ===== verification/Cli_Create.thy ===== *)
theory Cli_Create
  imports Cli_Delete
begin

text \<open>
  What \<open>workspace create\<close> leaves behind: on success a seeded remote tree and metadata that
  names the running helper, on failure nothing that this command created (with one gap).
\<close>

text \<open>Choosing and making the mountpoint.\<close>

definition chosen_mountpoint ::
  "('p, 'q, 'r, 't, 'k, 'h) cli_env \<Rightarrow> string \<Rightarrow> string \<Rightarrow> string \<Rightarrow> content local_fs \<Rightarrow>
   string result \<times> content local_fs" where
  "chosen_mountpoint E p a project s =
     (case (if project \<noteq> [] then (Inr project, s) else DefaultMountpoint (ce_getenv E) (ce_tempDir E) p a s) of
        (Inl e, s) \<Rightarrow> (Inl e, s)
      | (Inr mp, s) \<Rightarrow> (case os_MkdirAll mp 0x1ED s of (r, s) \<Rightarrow> (bind_result r (\<lambda>_. Inr mp), s)))"

lemma choose_step:
  "andThen (if project \<noteq> [] then return project
      else on_local (DefaultMountpoint (ce_getenv E) (ce_tempDir E) p a)) (\<lambda>mp.
    andThen (on_local (os_MkdirAll mp 0x1ED)) (\<lambda>_. k mp)) w =
   (case chosen_mountpoint E p a project (cw_fs w) of
      (Inl e, s) \<Rightarrow> (Some (Inl e), w\<lparr>cw_fs := s\<rparr>)
    | (Inr mp, s) \<Rightarrow> k mp (w\<lparr>cw_fs := s\<rparr>))"
  by (auto simp: chosen_mountpoint_def andThen_def on_local_def return_def done_with_def
      split: prod.splits sum.splits)

subsection \<open>Rollbacks\<close>

text \<open>An error after which nothing is rolled back is an error of the step or a panic.\<close>

lemma or_rollback_cases:
  assumes "or_rollback m d k w = (Some r, w')"
  obtains (ok) v w1 where "m w = (Some (Inr v), w1)" "k v w1 = (Some r, w')"
    | (failed) e x w1 where "m w = (Some (Inl e), w1)" "\<not> is_panic e" "r = Inl e" "d w1 = (Some x, w')"
        "\<And>e'. x = Inl e' \<Longrightarrow> \<not> is_panic e'"
    | (panic) e where "r = Inl e" "is_panic e"
  using assms
  by (auto simp: or_rollback_def catching_def raise_def done_with_def
      split: prod.splits option.splits sum.splits if_splits)

definition removed :: "('p, 'q, 'r, 't, 'k, 'h) cli_env \<Rightarrow> rcpu_client \<Rightarrow> string \<Rightarrow>
   ('p, 'q, 'r, 't) rcpu_world \<Rightarrow> ('p, 'q, 'r, 't) rcpu_world \<Rightarrow> bool" where
  "removed E c rroot n n' \<longleftrightarrow>
     (\<exists>r. RemoveRemoteTree (ce_rcpu E\<lparr>ctx_Err := None\<rparr>) c rroot n = (Some r, (), n'))"

lemma rollback_effect:
  assumes "remove_created E c rroot created w = (Some x, w')"
  shows "cw_fs w' = cw_fs w \<and> cw_kernel w' = cw_kernel w \<and>
    (if created then removed E c rroot (cw_net w) (cw_net w') else w' = w)"
  using assms
  by (auto simp: remove_created_def removed_def on_net_def as_run_def return_def done_with_def
      split: if_splits prod.splits)

lemma undo_effect:
  assumes "catching (stop_mount E root mp) (\<lambda>_. remove_created E c rroot created) w = (Some x, w')"
    and "\<And>e. x = Inl e \<Longrightarrow> \<not> is_panic e"
  shows "\<exists>y. stopDetachedMount (ce_proc E) root mp (cw_fs w) (cw_kernel w) = (y, cw_fs w', cw_kernel w') \<and>
    (if created then removed E c rroot (cw_net w) (cw_net w') else cw_net w' = cw_net w)"
proof -
  obtain y s k where stop: "stopDetachedMount (ce_proc E) root mp (cw_fs w) (cw_kernel w) = (y, s, k)"
    by (metis prod.collapse)
  with assms have "remove_created E c rroot created (w\<lparr>cw_fs := s, cw_kernel := k\<rparr>) = (Some x, w')"
    by (auto simp: catching_def stop_mount_def on_mounts_def split: sum.splits if_splits)
  from rollback_effect [OF this] stop show ?thesis by (auto split: if_splits)
qed

text \<open>What a file system holds once the workspace is recorded as mounted.\<close>

definition recorded :: "manager \<Rightarrow> string \<Rightarrow> string \<Rightarrow> string \<Rightarrow> string \<Rightarrow> int \<Rightarrow> content local_fs \<Rightarrow> bool" where
  "recorded m p a rroot mp pid s \<longleftrightarrow>
     (\<exists>c. manager_Load m p a s = Inr \<lparr>m_Profile = p, m_AgentID = a, m_RemoteRoot = rroot,
        m_Mountpoint = mp, m_Mounted = True, m_MountPID = pid, m_CreatedAt = c\<rparr>)"

lemma save_recorded:
  assumes "saveWorkspaceMetadata now m p a rroot mp pid s = (Inr (), s')"
  shows "recorded m p a rroot mp pid s'"
proof -
  let ?m = "\<lambda>c. \<lparr>m_Profile = p, m_AgentID = a, m_RemoteRoot = rroot, m_Mountpoint = mp, m_Mounted = True,
    m_MountPID = pid, m_CreatedAt = c\<rparr>"
  have "\<exists>c. manager_Save m (?m c) s = (Inr (), s')"
  proof (cases "manager_Load m p a s")
    case (Inl e)
    with assms show ?thesis
      by (intro exI [of _ now]) (auto simp: saveWorkspaceMetadata_def zero_metadata_def Let_def split: if_splits)
  next
    case (Inr meta)
    with assms show ?thesis
      by (intro exI [of _ "if m_CreatedAt meta = 0 then now else m_CreatedAt meta"], cases meta)
        (auto simp: saveWorkspaceMetadata_def Let_def split: if_splits)
  qed
  then show ?thesis using manager_Save_Load by (fastforce simp: recorded_def)
qed

subsection \<open>Property\<close>



end
