(* ===== verification/Cli_Serve.thy ===== *)
theory Cli_Serve
  imports Cli_Delete
begin

text \<open>
  The mount helper as its parent sees it: what \<open>serveMount\<close> writes is what
  \<open>startDetachedMount\<close> waits for in the parent process.
\<close>

definition helper_state ::
  "('p, 'q, 'r, 't, 'k, 'h) cli_env \<Rightarrow> string \<Rightarrow> string \<Rightarrow> string \<Rightarrow> string \<Rightarrow> string \<Rightarrow> mount_state" where
  "helper_state E p a mp stat err = zero_mount_state\<lparr>ms_Profile := p, ms_AgentID := a, ms_Mountpoint := mp,
     ms_PID := ce_pid E, ms_Status := stat, ms_Error := err\<rparr>"

definition save_helper ::
  "('p, 'q, 'r, 't, 'k, 'h) cli_env \<Rightarrow> string \<Rightarrow> string \<Rightarrow> string \<Rightarrow> string \<Rightarrow> string \<Rightarrow>
   content local_fs \<Rightarrow> unit result \<times> content local_fs" where
  "save_helper E p a mp stat err =
     runtime_Save (pe_sha256 (ce_proc E)) (ce_now E) (NewRuntime (ce_runtimeRoot E))
       (helper_state E p a mp stat err)"

text \<open>One look of the waiting parent.\<close>

definition parent_sees ::
  "('p, 'q, 'r, 't, 'k, 'h) cli_env \<Rightarrow> string \<Rightarrow> int \<Rightarrow> content local_fs \<Rightarrow> mount_state result option" where
  "parent_sees E mp pid s =
     wait_poll (pe_sha256 (ce_proc E)) (pe_kill (ce_proc E)) (NewRuntime (ce_runtimeRoot E)) mp pid s"

lemma saved_helper:
  assumes "save_helper E p a mp stat err s = (Inr (), s')"
  shows "runtime_Load (pe_sha256 (ce_proc E)) (NewRuntime (ce_runtimeRoot E)) mp s' =
    Inr ((helper_state E p a mp stat err)\<lparr>ms_UpdatedAt := ce_now E\<rparr>)"
  using mounts.load_save [OF TrueI, of "pe_sha256 (ce_proc E)" "ce_now E" "ce_runtimeRoot E" mp
      "helper_state E p a mp stat err" s s'] assms
  by (simp add: save_helper_def helper_state_def at_mountpoint_def zero_mount_state_def)

lemma parent_sees_saved:
  assumes "save_helper E p a mp stat err s = (Inr (), s')"
  shows "stat = MountStatusMounted \<Longrightarrow>
      parent_sees E mp pid s' = Some (Inr ((helper_state E p a mp stat err)\<lparr>ms_UpdatedAt := ce_now E\<rparr>))"
    and "stat = MountStatusFailed \<Longrightarrow> err \<noteq> [] \<Longrightarrow> parent_sees E mp pid s' = Some (Inl (ErrorString err))"
  using saved_helper [OF assms]
  by (simp_all add: parent_sees_def wait_poll_def helper_state_def mount_statuses)

lemma cleanup_effect:
  assumes "fs_ok (cw_fs w)"
    and "runtime_Delete (pe_sha256 (ce_proc E)) (NewRuntime (ce_runtimeRoot E)) mp (cw_fs w) = (Inr (), s)"
  shows "\<exists>r s'. serve_cleanup E (NewRuntime (ce_runtimeRoot E)) mp w = (Some r, w\<lparr>cw_fs := s'\<rparr>) \<and>
    (\<exists>e. runtime_Load (pe_sha256 (ce_proc E)) (NewRuntime (ce_runtimeRoot E)) mp s' = Inl e \<and>
      errors_Is e OsErrNotExist)"
proof -
  let ?sha = "pe_sha256 (ce_proc E)" and ?R = "NewRuntime (ce_runtimeRoot E)"
  let ?log = "LogPath ?sha ?R mp"
  obtain r s' where rm: "os_Remove ?log s = (r, s')" by (metis prod.collapse)
  have "lp ?log = (fst (lp ?R), snd (lp ?R) @ [stateKey ?sha mp @ ''.log''])"
    using lp_path_Join [OF NewRuntime_nonempty, of "[stateKey ?sha mp @ ''.log'']"] state_file_name(2)
    by (simp add: LogPath_def)
  then have "os_ReadFile (statePath ?sha ?R mp) (snd (os_Remove ?log s)) = os_ReadFile (statePath ?sha ?R mp) s"
    by (intro ReadFile_beside [where q = "lp ?log"]) (simp_all add: lp_statePath Remove_node Remove_fault)
  moreover have "\<exists>e. runtime_Load ?sha ?R mp s = Inl e \<and> errors_Is e OsErrNotExist"
    using mounts.load_delete [OF TrueI assms] .
  ultimately have "\<exists>e. runtime_Load ?sha ?R mp s' = Inl e \<and> errors_Is e OsErrNotExist"
    using rm by (simp add: runtime_Load_def)
  moreover have "\<exists>x. serve_cleanup E ?R mp w = (Some x, w\<lparr>cw_fs := s'\<rparr>)"
    using assms(2) rm
    by (cases r) (auto simp: serve_cleanup_def catching_def on_local_def return_def done_with_def)
  ultimately show ?thesis by blast
qed

lemma serve_arguments:
  "\<exists>fl. parse_flags serve_flags (drop 2 (serve_command exe p a mp)) = Inr (fl, []) \<and>
     flag_string fl ''profile'' = p \<and> flag_string fl ''agent-id'' = a \<and> flag_string fl ''mountpoint'' = mp"
proof -
  let ?nvs = "[(''profile'', p), (''agent-id'', a), (''mountpoint'', mp)]"
  have "drop 2 (serve_command exe p a mp) = string_flags ?nvs @ []"
    by (simp add: serve_command_def string_flags_def dash_def)
  moreover have "parse_flags serve_flags (string_flags ?nvs @ []) = Inr (fold set_string ?nvs serve_flags, [])"
    by (subst parse_string_flags) (auto simp: plain_name_def dash_def serve_flags_def parse_flags_end)
  ultimately show ?thesis by (simp add: flag_string_def set_string_def serve_flags_def)
qed

lemma serveMount_started:
  assumes "ValidateAgentID a = Inr ()" "mp \<noteq> []" "loadProfile E p = Inr (cfg, prof, sec)"
    and "save_helper E p a mp MountStatusStarting [] (cw_fs w) = (Inr (), s0)"
  shows "serveMount E (drop 2 (serve_command exe p a mp)) w =
    andThen (with_cleanup (serve_state E (NewRuntime (ce_runtimeRoot E)) (helper_state E p a mp MountStatusStarting []) mp)
      (serve_cleanup E (NewRuntime (ce_runtimeRoot E)) mp)) done_with (w\<lparr>cw_fs := s0\<rparr>)"
proof -
  obtain fl where fl: "parse_flags serve_flags (drop 2 (serve_command exe p a mp)) = Inr (fl, [])"
    "flag_string fl ''profile'' = p" "flag_string fl ''agent-id'' = a" "flag_string fl ''mountpoint'' = mp"
    using serve_arguments by blast
  have st: "zero_mount_state\<lparr>ms_Profile := p, ms_AgentID := a, ms_Mountpoint := mp, ms_PID := ce_pid E,
      ms_Status := MountStatusStarting\<rparr> = helper_state E p a mp MountStatusStarting []"
    by (simp add: helper_state_def zero_mount_state_def)
  show ?thesis
    using fl assms unfolding serveMount_def Let_def
    by (simp add: andThen_def done_with_def require_def return_def on_local_def st save_helper_def)
qed

lemma save_as_helper:
  "runtime_Save (pe_sha256 (ce_proc E)) (ce_now E) (NewRuntime (ce_runtimeRoot E))
     ((helper_state E p a mp stat0 [])\<lparr>ms_Status := stat, ms_Error := err\<rparr>) = save_helper E p a mp stat err"
  by (intro ext) (simp add: save_helper_def helper_state_def zero_mount_state_def)

lemma serve_state_mounted:
  assumes "mount_here E mp w = (Some (Inr h), w1)"
    and "save_helper E p a mp MountStatusMounted [] (cw_fs w1) = (Inr (), s)"
  shows "serve_state E (NewRuntime (ce_runtimeRoot E)) (helper_state E p a mp MountStatusStarting []) mp w =
    andThen (serve_mounted E h) (\<lambda>n. return (Inr n, True)) (w1\<lparr>cw_fs := s\<rparr>)"
  using assms by (simp add: serve_state_def catching_def save_as_helper on_local_def Let_def)

text \<open>
  Property C9: what the mount helper leaves for its parent. Started with the arguments that
  \<open>startDetachedMount\<close> passes, once its starting state is saved: if mounting fails, the
  helper returns that error, and after the failed state is saved a look of the parent gives
  the text of the same error; if mounting works, from the saved state on a look gives a mount
  of this helper, and when serving ends the helper succeeds, its state is gone again and the
  mount has been taken down if a signal ended it.
\<close>

theorem helper_reports_to_parent:
  assumes args: "ValidateAgentID a = Inr ()" "mp \<noteq> []" "loadProfile E p = Inr (cfg, prof, sec)"
    and start: "save_helper E p a mp MountStatusStarting [] (cw_fs w) = (Inr (), s0)"
    and mount: "mount_here E mp (w\<lparr>cw_fs := s0\<rparr>) = (Some mr, w1)"
  shows "(\<forall>e s. mr = Inl e \<and> \<not> is_panic e \<and>
        save_helper E p a mp MountStatusFailed (error_text e) (cw_fs w1) = (Inr (), s) \<longrightarrow>
      serveMount E (drop 2 (serve_command exe p a mp)) w = (Some (Inl e), w1\<lparr>cw_fs := s\<rparr>) \<and>
      (error_text e \<noteq> [] \<longrightarrow> parent_sees E mp pid s = Some (Inl (ErrorString (error_text e))))) \<and>
    (\<forall>h s s'. mr = Inr h \<and> save_helper E p a mp MountStatusMounted [] (cw_fs w1) = (Inr (), s) \<and> fs_ok s \<and>
        runtime_Delete (pe_sha256 (ce_proc E)) (NewRuntime (ce_runtimeRoot E)) mp s = (Inr (), s') \<longrightarrow>
      (\<exists>st. parent_sees E mp pid s = Some (Inr st) \<and> ms_PID st = ce_pid E \<and> ms_Profile st = p \<and> ms_AgentID st = a) \<and>
      (\<forall>r w'. serveMount E (drop 2 (serve_command exe p a mp)) w = (Some (Inr r), w') \<longrightarrow> r = 0 \<and>
        (\<exists>e. runtime_Load (pe_sha256 (ce_proc E)) (NewRuntime (ce_runtimeRoot E)) mp (cw_fs w') = Inl e \<and>
          errors_Is e OsErrNotExist) \<and>
        cw_kernel w' = (if ce_signal E then snd (ce_gounmount E h (cw_kernel w1)) else cw_kernel w1)))"
proof -
  let ?R = "NewRuntime (ce_runtimeRoot E)" and ?sha = "pe_sha256 (ce_proc E)"
  let ?st = "helper_state E p a mp MountStatusStarting []"
  let ?state = "serve_state E ?R ?st mp" and ?clean = "serve_cleanup E ?R mp"
  note run = serveMount_started [OF args start]
  have failed: "serveMount E (drop 2 (serve_command exe p a mp)) w = (Some (Inl e), w1\<lparr>cw_fs := s\<rparr>) \<and>
      (error_text e \<noteq> [] \<longrightarrow> parent_sees E mp pid s = Some (Inl (ErrorString (error_text e))))"
    if "mr = Inl e" "\<not> is_panic e"
      and sv: "save_helper E p a mp MountStatusFailed (error_text e) (cw_fs w1) = (Inr (), s)" for e s
  proof -
    have "?state (w\<lparr>cw_fs := s0\<rparr>) = (Some (Inr (Inl e, False)), w1\<lparr>cw_fs := s\<rparr>)"
      using that mount by (simp add: serve_state_def catching_def save_as_helper on_local_def return_def done_with_def Let_def)
    then show ?thesis
      using parent_sees_saved(2) [OF sv] by (simp add: run with_cleanup_def andThen_def done_with_def)
  qed
  have mounted: "r = 0 \<and> (\<exists>e. runtime_Load ?sha ?R mp (cw_fs w') = Inl e \<and> errors_Is e OsErrNotExist) \<and>
      cw_kernel w' = (if ce_signal E then snd (ce_gounmount E h (cw_kernel w1)) else cw_kernel w1)"
    if m: "mr = Inr h" and sv: "save_helper E p a mp MountStatusMounted [] (cw_fs w1) = (Inr (), s)" and ok: "fs_ok s"
      and del: "runtime_Delete ?sha ?R mp s = (Inr (), s')"
      and ret: "serveMount E (drop 2 (serve_command exe p a mp)) w = (Some (Inr r), w')" for h s s' r w'
  proof -
    let ?w2 = "w1\<lparr>cw_fs := s\<rparr>"
    note st = serve_state_mounted [OF mount [unfolded m] sv]
    from ret obtain n w3 where served: "serve_mounted E h ?w2 = (Some (Inr n), w3)"
      and fin: "(case ?clean w3 of (None, w) \<Rightarrow> (None, w) | (Some _, w) \<Rightarrow> (Some (Inr n), w)) = (Some (Inr r), w')"
      by (auto simp: run st with_cleanup_def andThen_def return_def done_with_def
          split: prod.splits option.splits sum.splits)
    have w3: "n = 0" "cw_fs w3 = s"
      "cw_kernel w3 = (if ce_signal E then snd (ce_gounmount E h (cw_kernel w1)) else cw_kernel w1)"
      using served
      by (auto simp: serve_mounted_def handle_Wait_def handle_Close_def return_def done_with_def catching_def on_mounts_def
          split: if_splits prod.splits sum.splits)
    from cleanup_effect [of w3 E mp s'] ok del w3(2) obtain x t where
      "?clean w3 = (Some x, w3\<lparr>cw_fs := t\<rparr>)" "\<exists>e. runtime_Load ?sha ?R mp t = Inl e \<and> errors_Is e OsErrNotExist"
      by auto
    with fin w3 show ?thesis by auto
  qed
  have seen: "\<exists>st. parent_sees E mp pid s = Some (Inr st) \<and> ms_PID st = ce_pid E \<and> ms_Profile st = p \<and>
      ms_AgentID st = a" if "save_helper E p a mp MountStatusMounted [] (cw_fs w1) = (Inr (), s)" for s
    using parent_sees_saved(1) [OF that refl] by (simp add: helper_state_def)
  show ?thesis using failed mounted seen by blast
qed

lemma save_helper_ok: "fs_ok s \<Longrightarrow> save_helper E p a mp stat err s = (r, s') \<Longrightarrow> fs_ok s'"
  using mounts.good_save [of s "pe_sha256 (ce_proc E)" "ce_now E" "ce_runtimeRoot E" mp "helper_state E p a mp stat err"]
  by (simp add: save_helper_def helper_state_def zero_mount_state_def)

text \<open>A helper that mounts, serves and ends.\<close>

theorem helper_reports_to_parent_witness:
  "\<exists>s0 s st w'. save_helper demo_cli ''default'' ''a1'' ''/m'' MountStatusMounted [] s0 = (Inr (), s) \<and>
     parent_sees demo_cli ''/m'' 8 s = Some (Inr st) \<and> ms_PID st = 8 \<and>
     serveMount demo_cli (drop 2 (serve_command ''/bin/agentic9'' ''default'' ''a1'' ''/m'')) demo_cli_world =
       (Some (Inr 0), w')"
proof -
  let ?start = "save_helper demo_cli ''default'' ''a1'' ''/m'' MountStatusStarting [] demo_fs"
  let ?mk = "os_MkdirAll (path_Dir ''/m'') 0x1ED (snd ?start)"
  let ?save = "save_helper demo_cli ''default'' ''a1'' ''/m'' MountStatusMounted [] (snd ?mk)"
  let ?del = "runtime_Delete (pe_sha256 (ce_proc demo_cli)) (NewRuntime (ce_runtimeRoot demo_cli)) ''/m'' (snd ?save)"
  have "fst ?start = Inr ()" "fst ?mk = Inr ()" "fst ?save = Inr ()" "fst ?del = Inr ()" by code_simp+
  then have start: "?start = (Inr (), snd ?start)" and mk: "?mk = (Inr (), snd ?mk)"
    and save: "?save = (Inr (), snd ?save)" and del: "?del = (Inr (), snd ?del)" by (simp_all add: prod_eq_iff)
  let ?w1 = "demo_cli_world\<lparr>cw_fs := snd ?mk\<rparr>"
  have mount: "mount_here demo_cli ''/m'' (demo_cli_world\<lparr>cw_fs := snd ?start\<rparr>) = (Some (Inr ()), ?w1)"
  proof -
    have "Mount (ce_gomount demo_cli) ''/m'' (snd ?start) () m =
        (Inr (), snd ?mk, (), m\<lparr>mm_mounts := AList.update ''/m'' () (mm_mounts m)\<rparr>)" for m :: "unit mount_manager"
      unfolding Mount_def by (subst mk) (simp add: demo_cli_def)
    then show ?thesis by (simp add: mount_here_def on_mounts_def demo_cli_world_def)
  qed
  have ok: "fs_ok (snd ?save)"
    using save_helper_ok [OF _ save] fs_ok_MkdirAll [of "snd ?start"] save_helper_ok [OF _ start] demo_world_ok
    by (simp add: demo_cli_world_def)
  obtain cfg where load: "loadProfile demo_cli ''default'' = Inr (cfg, demo_profile, demo_secret)"
    using demo_load by blast
  have id: "ValidateAgentID ''a1'' = Inr ()" by code_simp
  have "\<exists>w'. serveMount demo_cli (drop 2 (serve_command ''/bin/agentic9'' ''default'' ''a1'' ''/m'')) demo_cli_world =
      (Some (Inr 0), w')"
  proof -
    have served: "serve_mounted demo_cli () w = (Some (Inr 0), w)" for w :: "(_, _, _, _, unit) cli_world"
      by (simp add: serve_mounted_def handle_Wait_def handle_Close_def return_def done_with_def demo_cli_def)
    have "save_helper demo_cli ''default'' ''a1'' ''/m'' MountStatusMounted [] (cw_fs ?w1) = (Inr (), snd ?save)"
      using save by simp
    note st = serve_state_mounted [OF mount this]
    let ?w2 = "?w1\<lparr>cw_fs := snd ?save\<rparr>"
    obtain x t where clean: "serve_cleanup demo_cli (NewRuntime (ce_runtimeRoot demo_cli)) ''/m'' ?w2 =
        (Some x, ?w2\<lparr>cw_fs := t\<rparr>)"
      using cleanup_effect [of ?w2 demo_cli "''/m''" "snd ?del"] ok del by auto
    have "save_helper demo_cli ''default'' ''a1'' ''/m'' MountStatusStarting [] (cw_fs demo_cli_world) =
        (Inr (), snd ?start)" using start by (simp add: demo_cli_world_def)
    from serveMount_started [OF id _ load this, of "''/bin/agentic9''"] show ?thesis
      using clean by (simp add: andThen_def with_cleanup_def st served return_def done_with_def)
  qed
  then obtain w' where run: "serveMount demo_cli (drop 2 (serve_command ''/bin/agentic9'' ''default'' ''a1'' ''/m''))
      demo_cli_world = (Some (Inr 0), w')" by blast
  have "save_helper demo_cli ''default'' ''a1'' ''/m'' MountStatusStarting [] (cw_fs demo_cli_world) =
      (Inr (), snd ?start)" using start by (simp add: demo_cli_world_def)
  from helper_reports_to_parent [OF id _ load this mount, where pid = 8 and exe = "''/bin/agentic9''"] save ok del
  obtain st where "parent_sees demo_cli ''/m'' 8 (snd ?save) = Some (Inr st)" "ms_PID st = ce_pid demo_cli"
    by auto
  with save run show ?thesis by (auto simp: demo_cli_def)
qed

end
