(* ===== verification/Fuse_Files.thy ===== *)
theory Fuse_Files
  imports Fusefs
begin

text \<open>
  A mounted file is a file: the requests of the kernel on an open handle
  (\<open>internal/fusefs/fs.go\<close>), through \<open>ReadAt\<close> and \<open>WriteAt\<close> (\<open>internal/exportfs/client.go\<close>)
  and the 9P client, against the abstract file they promise.
\<close>

subsection \<open>The abstract file\<close>

datatype file_request =
    FileRead bytes u64
  | FileWrite bytes u64

datatype file_reply =
    Data bytes
  | Wrote u32
  | FileFailed

text \<open>A read of a buffer fills as much of it as the file has; a write overwrites.\<close>

fun abstract_step :: "file_request \<Rightarrow> bytes \<Rightarrow> file_reply \<times> bytes" where
  "abstract_step (FileRead buf off) c = (Data (take (length buf) (drop (unat off) c)), c)"
| "abstract_step (FileWrite d off) c = (Wrote (of_nat (length d)), overwrite c (unat off) d)"

fun abstract_run :: "file_request list \<Rightarrow> bytes \<Rightarrow> file_reply list \<times> bytes" where
  "abstract_run [] c = ([], c)"
| "abstract_run (q # qs) c =
     (let (r, c) = abstract_step q c; (rs, c) = abstract_run qs c in (r # rs, c))"

subsection \<open>The file system\<close>

fun handle_step ::
  "'p peer_fn \<Rightarrow> remoteFile \<Rightarrow> file_request \<Rightarrow> ('o, 'p) xclient \<Rightarrow> file_reply \<times> ('o, 'p) xclient" where
  "handle_step react f (FileRead buf off) x =
     (case handle_Read react f buf off x of
        (Reply d, x) \<Rightarrow> (Data d, x) | (_, x) \<Rightarrow> (FileFailed, x))"
| "handle_step react f (FileWrite d off) x =
     (case handle_Write react f d off x of
        ((n, Reply _), x) \<Rightarrow> (Wrote n, x) | (_, x) \<Rightarrow> (FileFailed, x))"

fun handle_run ::
  "'p peer_fn \<Rightarrow> remoteFile \<Rightarrow> file_request list \<Rightarrow> ('o, 'p) xclient \<Rightarrow> file_reply list \<times> ('o, 'p) xclient" where
  "handle_run react f [] x = ([], x)"
| "handle_run react f (q # qs) x =
     (let (r, x) = handle_step react f q x; (rs, x) = handle_run react f qs x in (r # rs, x))"

fun in_range :: "file_request \<Rightarrow> bool" where
  "in_range (FileRead buf off) \<longleftrightarrow> unat off + length buf < 2 ^ 64"
| "in_range (FileWrite d off) \<longleftrightarrow> unat off + length d < 2 ^ 64"

lemma handle_step_refines:
  assumes "reads_file serve (rf_fid f) content" and "writes_file serve (rf_fid f) content"
    and "ready (rf_client f) x" and "in_range q"
  shows "\<exists>x'. handle_step (server_peer serve) f q x =
      (fst (abstract_step q (content (server_state (rf_client f) x))), x') \<and> ready (rf_client f) x' \<and>
    content (server_state (rf_client f) x') = snd (abstract_step q (content (server_state (rf_client f) x)))"
proof (cases q)
  case (FileRead buf off)
  define got where "got = take (length buf) (drop (unat off) (content (server_state (rf_client f) x)))"
  have "unat off + length buf < 2 ^ 64" using assms(4) FileRead by simp
  then obtain x1 where loop: "readat_loop (server_peer serve) f off 0 buf x =
      (read_end (length got) (got @ drop (length got) buf), x1)" "ready (rf_client f) x1"
      "server_state (rf_client f) x1 = server_state (rf_client f) x"
    using readat_loop_file [OF assms(3) _ _ refl _ _ got_def assms(1), of 0] by auto
  then have "handle_Read (server_peer serve) f buf off x = (Reply got, x1)"
    by (auto simp: handle_Read_def ReadAt_def read_end_def)
  with FileRead loop(2,3) show ?thesis by (simp add: got_def)
next
  case (FileWrite d off)
  have "unat off + length d < 2 ^ 64" using assms(4) FileWrite by simp
  then obtain x1 where "writeat_loop (server_peer serve) f off 0 d x = ((length d, None), x1)"
    "ready (rf_client f) x1"
    "content (server_state (rf_client f) x1) = overwrite (content (server_state (rf_client f) x)) (unat off) d"
    using writeat_loop_file [OF assms(3) _ _ assms(2), of off d 0] by auto
  with FileWrite show ?thesis by (simp add: handle_Write_def WriteAt_def)
qed

text \<open>
  Property C10: an open file of the mount is a file. For any sequence of reads and writes of
  the kernel on one handle, against a server that stores the file, every reply is the one of
  the abstract file: reads return the bytes last written, in whatever pieces (at most 8000
  bytes at a time) they went over the wire, short at the end of the file; writes report their
  full length; and in the end the server holds the contents of the abstract file.
\<close>

theorem mounted_file_refines:
  assumes "reads_file serve (rf_fid f) content" and "writes_file serve (rf_fid f) content"
    and "ready (rf_client f) x" and "list_all in_range qs"
  shows "\<exists>x'. handle_run (server_peer serve) f qs x =
      (fst (abstract_run qs (content (server_state (rf_client f) x))), x') \<and>
    content (server_state (rf_client f) x') = snd (abstract_run qs (content (server_state (rf_client f) x)))"
  using assms(3,4)
proof (induction qs arbitrary: x)
  case (Cons q qs)
  obtain x1 where step: "handle_step (server_peer serve) f q x =
      (fst (abstract_step q (content (server_state (rf_client f) x))), x1)" "ready (rf_client f) x1"
      "content (server_state (rf_client f) x1) = snd (abstract_step q (content (server_state (rf_client f) x)))"
    using handle_step_refines [OF assms(1,2) Cons.prems(1)] Cons.prems(2) by auto
  with Cons.IH [OF step(2)] Cons.prems(2) show ?case by (auto simp: Let_def split: prod.splits)
qed simp

theorem mounted_file_refines_witness:
  "\<exists>x'. handle_run (server_peer file_server) \<lparr>rf_client = 0, rf_fid = 5\<rparr>
      [FileWrite ''there!'' 6, FileRead ''....'' 8, FileRead ''....'' 12] file_client =
    ([Wrote 6, Data ''ere!'', Data []], x') \<and> server_state 0 x' = ''hello there!''"
  using mounted_file_refines [OF file_server_file, of "\<lparr>rf_client = 0, rf_fid = 5\<rparr>" file_client
      "[FileWrite ''there!'' 6, FileRead ''....'' 8, FileRead ''....'' 12]"] file_client_ready
  by (auto simp: overwrite_def)

end
