(* ===== verification/Spec2Isabelle.thy ===== *)
theory Spec2Isabelle
  imports Ninep_Client Exportfs_Server Cli_Exec Cli_Create Cli_Serve Fuse_Files
begin

text \<open>
  Verification development of agentic9, a command line tool that gives coding agents a
  workspace on a Plan 9 (9front) system: it authenticates with dp9ik, speaks rcpu over TLS,
  runs commands there, and mounts the remote tree locally with FUSE over 9P.

  The parts and how they interact. \<open>cmd/agentic9/main.go\<close> holds the commands. A command
  loads a profile (\<open>internal/config\<close>), keeps metadata of its workspace
  (\<open>internal/workspace\<close>) and the state of its mount helper (\<open>internal/fusefs/runtime.go\<close>)
  in JSON files, and reaches the remote side through \<open>internal/transport/tlsrcpu\<close>, which
  authenticates with \<open>internal/auth/dp9ik\<close> and sends scripts. \<open>exec\<close> reads the output
  through \<open>internal/remoteexec\<close>; mounting and seeding go through \<open>internal/exportfs\<close>, a
  file system client on \<open>internal/ninep\<close>, which \<open>internal/fusefs/fs.go\<close> serves to the
  kernel.

  Theories and sources, in the order of their dependencies.
  Library: \<open>Prelude\<close> (bytes, errors, results), \<open>Go_Binary\<close>, \<open>Go_Strings\<close>, \<open>Go_Path\<close>,
  \<open>Go_Conn\<close>, \<open>Go_Net\<close>, \<open>Go_Os\<close>, \<open>Go_Walk\<close>: what the program uses of the Go standard
  library; \<open>Json_Store\<close> (the contract of the two stores of JSON files) and
  \<open>Stream_Consumer\<close> (the contract of a callback that receives a stream in chunks).
  \<open>Ninep_Codec\<close>: \<open>ninep/types.go\<close>, \<open>codec.go\<close>, \<open>dir.go\<close>; \<open>Fcall\<close>, \<open>Dir\<close> and \<open>QID\<close> are
  the records \<open>fcall\<close>, \<open>dir\<close>, \<open>qid\<close>. \<open>Ninep_Client\<close>: \<open>ninep/client.go\<close>; \<open>nclient\<close> is
  \<open>Client\<close>, with its connection inside. \<open>Exportfs\<close>: \<open>exportfs/client.go\<close>; \<open>xclient\<close> is
  \<open>Client\<close>, the heap of its 9P clients included; \<open>Exportfs_Safety\<close> and
  \<open>Exportfs_Server\<close> hold its properties. \<open>Config\<close>: \<open>config/config.go\<close>. \<open>Workspace\<close>:
  \<open>workspace/state.go\<close>. \<open>Fuse_Runtime\<close>: \<open>fusefs/runtime.go\<close>. \<open>Fusefs\<close>:
  \<open>fusefs/fs.go\<close>, \<open>path.go\<close>; \<open>Fuse_Files\<close>: an open file of the mount against an
  abstract file. \<open>Dp9ik_Wire\<close>: \<open>dp9ik/dp9ik.go\<close>, \<open>wire.go\<close>. \<open>Dp9ik_Pak\<close>:
  \<open>dp9ik/pak.go\<close>. \<open>Dp9ik_Client\<close>: \<open>dp9ik/client.go\<close>, properties in \<open>Dp9ik_Auth\<close>.
  \<open>Tls_Rcpu\<close>: \<open>tlsrcpu/client.go\<close>. \<open>Remote_Exec\<close>: \<open>remoteexec/runner.go\<close>. \<open>Sync\<close>:
  \<open>sync/sync.go\<close>. The rest is \<open>main.go\<close>: \<open>Exec_Output\<close> (the output router of exec),
  \<open>Cli_State\<close> (metadata against mount states, the status report), \<open>Cli_Mount\<close> (starting
  and stopping helpers, retries), \<open>Cli_Flags\<close> (flags, dispatch), \<open>Cli_Seed\<close> (copying a
  tree to the remote root), \<open>Cli_World\<close> (environment and world of a command, helpers),
  \<open>Cli_Commands\<close> (every command but exec), \<open>Cli_Exec\<close> (exec and main); \<open>Cli_Delete\<close>,
  \<open>Cli_Create\<close> and \<open>Cli_Serve\<close> hold properties of commands.

  Interfaces. \<open>wire_codec\<close>: what a field writer wrote, its reader reads, leaving the rest;
  interpreted on every field of 9P. \<open>id_allocator\<close>: fids and tags. \<open>client_invariant\<close>: a
  predicate that the primitive steps of the remote file system client keep is kept by every
  operation; interpreted on the invariant of its connections and on a lost connection.
  \<open>keyed_store\<close>: the metadata of agents and the states of mounts. \<open>stream_consumer\<close>: the
  parser, the router, and the router behind the parser, so that nothing depends on chunks.
  \<open>walker\<close>: what a visitor that keeps an invariant establishes for every path of a walk;
  interpreted on the local copy and on the seeding.

  What the lemmas show. 9P: decoding inverts encoding for every message, a wire call is a
  function call on the server, identifiers never collide. The remote file system client:
  connections do not leak under any interleaving of threads in \<open>connect\<close>, a disconnect is
  final, walks stay inside the root, reading, writing and listing give the file and the
  directory of a server that follows the protocol. dp9ik: sealed messages round-trip, the
  key exchange returns for all inputs with points on the curve, a session key exists only
  after mutual authentication. rcpu: an execution delivers exactly the output, and
  connections are closed. The command line: \<open>exec\<close> from its arguments to its exit code;
  \<open>workspace create\<close> completes or is undone; \<open>workspace delete\<close> reports truthfully and keeps
  what a second attempt needs; the helper tells its parent the truth; starting a mount is
  exclusive; a refreshed record is true and stored; seeding and copying transfer the whole
  tree and nothing else.

  Conventions. Strings and byte slices are lists of bytes; sized integers are words, \<open>int\<close>
  is unbounded where it cannot overflow. Errors are values (\<open>go_error\<close>, compared with
  \<open>errors_Is\<close>); a panic is the error \<open>Panic\<close>, which no error path catches. State is passed
  explicitly. A run (\<open>Go_Net\<close>) is \<open>None\<close> when it does not return. Contexts are sampled: one
  value of \<open>ctx.Err()\<close> per operation.

  Bounds and fuel. Walks over a tree have fuel for their depth: \<open>WalkDir_returns\<close> shows that
  any fuel above the depth of the tree gives a result, so the fuel of the environment
  (\<open>ce_fuel\<close>) stands for that depth; the remote listing has the same fuel, and \<open>None\<close> there
  is a tree deeper than that or a server that never ends. Waiting for a helper is a partial
  function over the looks at the file system, \<open>None\<close> when no look decides;
  \<open>wait_for_mount_returns\<close> says when it returns. Retries are bounded by the code.
  Listing a remote directory is \<open>None\<close> when the server never stops sending entries
  (\<open>list_returns_directory\<close> says when it returns), and the square root and the hash to a point
  are \<open>None\<close> when a search in them finds nothing (\<open>exchange_steps_return\<close> shows that the steps
  of the exchange return). All other loops are total functions.

  What is a parameter. The TLS library, the FUSE library and kernel mounts, dialling and the
  peers (a function from its state and a write to its answer), hashes, AEAD, key derivation
  and randomness, the TOML decoder, environment variables, the clock, process calls, and what
  other processes do to the local file system between two looks. A key for \<open>NewAuthKey\<close> comes
  from the environment record of the authentication, because the search for a quadratic
  non-residue inside the hash to a curve point has no bound in the code.

  Simplifications. A peer that neither answers nor closes blocks the program; the connection
  model has no such peer. The buffered reader of the authentication and the connection below
  it share their input. Symbolic links of the local file system are never followed (they act
  as dangling). JSON files are documents (fields of the top-level object; strings are valid
  UTF-8), printed maps are lists of fields whose order is irrelevant. \<open>strings.ToLower\<close> is the
  ASCII case, \<open>%q\<close> escapes bytes rather than runes, \<open>sort.Slice\<close> is taken to be stable, the
  halving loop that splits powers of two is guarded against zero. An exportfs connection that
  never opens is the panic \<open>no_return\<close> inside a client and \<open>None\<close> for the command.

  Not modelled. \<open>third_party/go-tls-psk\<close> (vendored), \<open>transport/rcpu/rcpu.go\<close> (interfaces
  only), debug output (\<open>debugSeedf\<close> and the FUSE debug flag), the process id a FUSE request
  carries, the usage text of package \<open>flag\<close>, and the delivery of signals (whether one
  arrives is a parameter).
\<close>

end
